theory Spec2Isabelle
  imports Main
begin

section \<open>Memory model\<close>

text \<open>
  The handles of \<^verbatim>\<open>shared-from-this/shared.h\<close> and \<^verbatim>\<open>shared-from-this/weak.h\<close> are
  pairs of raw pointers into a heap that holds control blocks and managed objects.
  A raw pointer is an optional address, \<open>None\<close> being \<^verbatim>\<open>nullptr\<close>. The counters are
  C++ \<^verbatim>\<open>int\<close>s; they count handles, signed overflow is undefined behaviour and no
  property below depends on it, so they are modelled as \<open>int\<close>.

  Undefined behaviour of the C++ program is a value of the model: reading through a null
  pointer is \<open>NullDereference\<close>, touching a control block or an object that has been
  deleted is \<open>UseAfterFree\<close>. The exception \<^verbatim>\<open>BadWeakPtr\<close> is \<open>BadWeakPtr\<close>.
  \<open>IllFormed\<close> marks a call that no C++ program can make (a member function of a handle
  that does not exist, a constructor run on storage that already holds a handle).

  The fields \<^verbatim>\<open>ptr_\<close>, \<^verbatim>\<open>block_\<close>, \<^verbatim>\<open>strong_counter_\<close>, \<^verbatim>\<open>weak_counter_\<close> lose their
  trailing underscore, which is not allowed in a name here.
\<close>

type_synonym addr = nat
type_synonym bref = nat
type_synonym var = nat

datatype error = BadWeakPtr | NullDereference | UseAfterFree | IllFormed

definition and_then :: "error + 'a \<Rightarrow> ('a \<Rightarrow> error + 'b) \<Rightarrow> error + 'b" where
  "and_then r f = (case r of Inl e \<Rightarrow> Inl e | Inr x \<Rightarrow> f x)"

text \<open>\<^verbatim>\<open>SharedPtr<X>\<close> and \<^verbatim>\<open>WeakPtr<X>\<close> have the same two fields.\<close>

record handle =
  ptr :: "addr option"
  block :: "bref option"

definition null_handle :: handle where
  "null_handle = \<lparr>ptr = None, block = None\<rparr>"

text \<open>
  The managed type is a template parameter. Four kinds of object stand for it: \<open>Plain\<close>
  has no base \<^verbatim>\<open>EnableSharedFromThis\<close> and no handle among its members; \<open>Enabled\<close> embeds
  the mixin, whose only member is the weak handle \<^verbatim>\<open>weak_this_\<close>; \<open>Holding\<close> has a
  \<^verbatim>\<open>WeakPtr\<close> as a data member (\<^verbatim>\<open>struct Node { WeakPtr<Node> link; };\<close>) and no mixin;
  \<open>Linked\<close> has a \<^verbatim>\<open>SharedPtr\<close> as a data member
  (\<^verbatim>\<open>struct Node { SharedPtr<Node> next; };\<close>) and no mixin.
\<close>

datatype object = Plain | Enabled handle | Holding handle | Linked handle

text \<open>
  The two control blocks: \<^verbatim>\<open>ControlBlockPointer<T>\<close> holds a pointer to an object
  allocated elsewhere, \<^verbatim>\<open>ControlBlockHolder<T>\<close> holds the object in its own storage.
\<close>

datatype variant = ControlBlockPointer "addr option" | ControlBlockHolder addr

record ControlBlockBase =
  strong_counter :: int
  weak_counter :: int
  variant :: variant

text \<open>
  \<open>destroyed\<close> and \<open>freed\<close> record, in order, every run of a managed object's
  destructor and every \<^verbatim>\<open>delete\<close> of a control block. \<open>brk\<close> is the next address the
  allocator hands out; addresses are not reused.
\<close>

record memory =
  blocks :: "bref \<rightharpoonup> ControlBlockBase"
  objects :: "addr \<rightharpoonup> object"
  destroyed :: "addr list"
  freed :: "bref list"
  brk :: nat

definition empty_memory :: memory where
  "empty_memory = \<lparr>blocks = Map.empty, objects = Map.empty, destroyed = [], freed = [], brk = 0\<rparr>"

subsection \<open>ControlBlockBase\<close>

definition deref :: "bref option \<Rightarrow> memory \<Rightarrow> error + ControlBlockBase" where
  "deref p m =
     (case p of
        None \<Rightarrow> Inl NullDereference
      | Some b \<Rightarrow> (case blocks m b of None \<Rightarrow> Inl UseAfterFree | Some c \<Rightarrow> Inr c))"

definition store :: "bref option \<Rightarrow> ControlBlockBase \<Rightarrow> memory \<Rightarrow> memory" where
  "store p c m = (case p of None \<Rightarrow> m | Some b \<Rightarrow> m\<lparr>blocks := (blocks m)(b \<mapsto> c)\<rparr>)"

definition GetStrongCounter :: "bref option \<Rightarrow> memory \<Rightarrow> error + int" where
  "GetStrongCounter p m = and_then (deref p m) (\<lambda>c. Inr (strong_counter c))"

definition GetWeakCounter :: "bref option \<Rightarrow> memory \<Rightarrow> error + int" where
  "GetWeakCounter p m = and_then (deref p m) (\<lambda>c. Inr (weak_counter c))"

definition IncreaseStrongCounter :: "bref option \<Rightarrow> memory \<Rightarrow> error + memory" where
  "IncreaseStrongCounter p m =
     and_then (deref p m) (\<lambda>c. Inr (store p (c\<lparr>strong_counter := strong_counter c + 1\<rparr>) m))"

definition IncreaseWeakCounter :: "bref option \<Rightarrow> memory \<Rightarrow> error + memory" where
  "IncreaseWeakCounter p m =
     and_then (deref p m) (\<lambda>c. Inr (store p (c\<lparr>weak_counter := weak_counter c + 1\<rparr>) m))"

definition DecreaseStrongCounter :: "bref option \<Rightarrow> memory \<Rightarrow> error + memory" where
  "DecreaseStrongCounter p m =
     and_then (deref p m) (\<lambda>c. Inr (store p (c\<lparr>strong_counter := strong_counter c - 1\<rparr>) m))"

definition DecreaseWeakCounter :: "bref option \<Rightarrow> memory \<Rightarrow> error + memory" where
  "DecreaseWeakCounter p m =
     and_then (deref p m) (\<lambda>c. Inr (store p (c\<lparr>weak_counter := weak_counter c - 1\<rparr>) m))"

text \<open>\<^verbatim>\<open>delete block_\<close>: the block's destructors do not touch the managed object.\<close>

definition delete_block :: "bref option \<Rightarrow> memory \<Rightarrow> error + memory" where
  "delete_block p m =
     (case p of
        None \<Rightarrow> Inr m
      | Some b \<Rightarrow>
          (case blocks m b of
             None \<Rightarrow> Inl UseAfterFree
           | Some c \<Rightarrow> Inr (m\<lparr>blocks := (blocks m)(b := None), freed := freed m @ [b]\<rparr>)))"

text \<open>
  \<^verbatim>\<open>new ControlBlockPointer<Y>(ptr)\<close> and \<^verbatim>\<open>new ControlBlockHolder<X>(args...)\<close>: the
  member initialisers set the strong counter to 1 and the weak counter to 0.
\<close>

definition new_block :: "variant \<Rightarrow> memory \<Rightarrow> bref \<times> memory" where
  "new_block v m =
     (brk m,
      m\<lparr>blocks := (blocks m)(brk m \<mapsto> \<lparr>strong_counter = 1, weak_counter = 0, variant = v\<rparr>),
        brk := brk m + 1\<rparr>)"

text \<open>\<^verbatim>\<open>new T(args...)\<close> by the caller, before a handle adopts the raw pointer.\<close>

definition new_object :: "object \<Rightarrow> memory \<Rightarrow> addr \<times> memory" where
  "new_object obj m = (brk m, m\<lparr>objects := (objects m)(brk m \<mapsto> obj), brk := brk m + 1\<rparr>)"

text \<open>\<^verbatim>\<open>GetPointer()\<close> of either control block.\<close>

definition GetPointer :: "ControlBlockBase \<Rightarrow> addr option" where
  "GetPointer c = (case variant c of ControlBlockPointer q \<Rightarrow> q | ControlBlockHolder a \<Rightarrow> Some a)"

subsection \<open>WeakPtr::Decrement and the destructors of a managed object\<close>

definition WeakPtr_Decrement :: "handle \<Rightarrow> memory \<Rightarrow> error + memory" where
  "WeakPtr_Decrement this m =
     (if block this \<noteq> None then
        and_then (DecreaseWeakCounter (block this) m) (\<lambda>m1.
        and_then (GetStrongCounter (block this) m1) (\<lambda>s.
        and_then (GetWeakCounter (block this) m1) (\<lambda>w.
          if s = 0 \<and> w = 0 then delete_block (block this) m1 else Inr m1)))
      else Inr m)"

text \<open>
  \<^verbatim>\<open>~EnableSharedFromThis()\<close>: the body decrements the weak counter through
  \<^verbatim>\<open>weak_this_\<close>'s block pointer without a test and nulls both fields; then the member
  \<^verbatim>\<open>weak_this_\<close> is destroyed (\<^verbatim>\<open>~WeakPtr\<close> calls \<^verbatim>\<open>Decrement\<close>).
\<close>

definition EnableSharedFromThis_dtor :: "handle \<Rightarrow> memory \<Rightarrow> error + memory" where
  "EnableSharedFromThis_dtor weak_this m =
     and_then (DecreaseWeakCounter (block weak_this) m) (\<lambda>m1.
       WeakPtr_Decrement (weak_this\<lparr>block := None, ptr := None\<rparr>) m1)"

text \<open>
  The destructor of the managed object at \<open>a\<close>, bases and members included: the member
  \<^verbatim>\<open>WeakPtr\<close> of a \<open>Holding\<close> object is destroyed by \<^verbatim>\<open>~WeakPtr\<close>, the member
  \<^verbatim>\<open>SharedPtr\<close> of a \<open>Linked\<close> object by \<^verbatim>\<open>~SharedPtr\<close>, which is \<^verbatim>\<open>Decrement\<close>
  and may destroy further objects. So the destructor, \<^verbatim>\<open>DeleteObject\<close> of either
  control block (\<^verbatim>\<open>delete ptr_\<close> for the pointer block, nothing for a null pointer, and
  \<^verbatim>\<open>GetPointer()->~T()\<close> for the holder block) and \<^verbatim>\<open>SharedPtr::Decrement\<close> call each
  other. A \<open>Linked\<close> object is taken off the heap when its destructor starts, since
  nothing but that destructor can reach it from then on; \<open>live_objects\<close> counts the
  objects the allocator has handed out that are still there, and goes down with each
  of these calls, which is why the cascade ends.
\<close>

definition live_objects :: "memory \<Rightarrow> nat" where
  "live_objects m = card {a. a < brk m \<and> objects m a \<noteq> None}"

function destroy_object :: "addr \<Rightarrow> memory \<Rightarrow> error + memory"
  and DeleteObject :: "bref option \<Rightarrow> memory \<Rightarrow> error + memory"
  and Decrement :: "handle \<Rightarrow> memory \<Rightarrow> error + memory" where
  "destroy_object a m =
     (case objects m a of
        None \<Rightarrow> Inl UseAfterFree
      | Some Plain \<Rightarrow>
          Inr (m\<lparr>objects := (objects m)(a := None), destroyed := destroyed m @ [a]\<rparr>)
      | Some (Enabled weak_this) \<Rightarrow>
          and_then (EnableSharedFromThis_dtor weak_this m) (\<lambda>m1.
            Inr (m1\<lparr>objects := (objects m1)(a := None), destroyed := destroyed m1 @ [a]\<rparr>))
      | Some (Holding link) \<Rightarrow>
          and_then (WeakPtr_Decrement link m) (\<lambda>m1.
            Inr (m1\<lparr>objects := (objects m1)(a := None), destroyed := destroyed m1 @ [a]\<rparr>))
      | Some (Linked next) \<Rightarrow>
          if a < brk m then
            Decrement next (m\<lparr>objects := (objects m)(a := None), destroyed := destroyed m @ [a]\<rparr>)
          else Inl IllFormed)"
| "DeleteObject p m =
     (case deref p m of
        Inl e \<Rightarrow> Inl e
      | Inr c \<Rightarrow>
          (case variant c of
             ControlBlockPointer q \<Rightarrow> (case q of None \<Rightarrow> Inr m | Some a \<Rightarrow> destroy_object a m)
           | ControlBlockHolder a \<Rightarrow> destroy_object a m))"
| "Decrement this m =
     (if block this \<noteq> None then
        (case DecreaseStrongCounter (block this) m of
           Inl e \<Rightarrow> Inl e
         | Inr m1 \<Rightarrow>
             and_then (GetStrongCounter (block this) m1) (\<lambda>s.
             and_then (GetWeakCounter (block this) m1) (\<lambda>w.
               if s = 0 \<and> w \<noteq> 0 then
                 and_then (DeleteObject (block this) m1) (\<lambda>m2.
                 and_then (GetWeakCounter (block this) m2) (\<lambda>w2.
                   if w2 = 0 then delete_block (block this) m2 else Inr m2))
               else if s = 0 \<and> w = 0 then
                 and_then (DeleteObject (block this) m1) (\<lambda>m2. delete_block (block this) m2)
               else Inr m1)))
      else Inr m)"
  by pat_completeness auto

termination
proof (relation "measure (\<lambda>x. case x of
          Inl (a, m) \<Rightarrow> 3 * live_objects m
        | Inr (Inl (p, m)) \<Rightarrow> 3 * live_objects m + 1
        | Inr (Inr (h, m)) \<Rightarrow> 3 * live_objects m + 2)", goal_cases)
  case 1
  show ?case by simp
next
  case (2 a m x2 x4)
  let ?m = "m\<lparr>objects := (objects m)(a := None), destroyed := destroyed m @ [a]\<rparr>"
  let ?S = "{x. x < brk m \<and> objects m x \<noteq> None}"
  have fin: "finite ?S" by simp
  have a: "a \<in> ?S" using 2 by simp
  have eq: "{x. x < brk ?m \<and> objects ?m x \<noteq> None} = ?S - {a}" by auto
  have "card (?S - {a}) < card ?S" using fin a by (rule card_Diff1_less)
  then have "live_objects ?m < live_objects m"
    unfolding live_objects_def by (simp only: eq)
  then show ?case by simp
next
  case 3
  then show ?case by simp
next
  case 4
  then show ?case by simp
next
  case (5 this m m1)
  then have "objects m1 = objects m \<and> brk m1 = brk m"
    by (auto simp: DecreaseStrongCounter_def deref_def store_def and_then_def
             split: option.splits sum.splits)
  then show ?case by (simp add: live_objects_def)
next
  case (6 this m m1)
  then have "objects m1 = objects m \<and> brk m1 = brk m"
    by (auto simp: DecreaseStrongCounter_def deref_def store_def and_then_def
             split: option.splits sum.splits)
  then show ?case by (simp add: live_objects_def)
qed

subsection \<open>SharedPtr\<close>

definition SharedPtr_default :: handle where
  "SharedPtr_default = \<lparr>ptr = None, block = None\<rparr>"

definition SharedPtr_copy :: "handle \<Rightarrow> memory \<Rightarrow> error + handle \<times> memory" where
  "SharedPtr_copy other m =
     (let this = \<lparr>ptr = ptr other, block = block other\<rparr> in
      if block this \<noteq> None then
        and_then (IncreaseStrongCounter (block this) m) (\<lambda>m1. Inr (this, m1))
      else Inr (this, m))"

text \<open>The move constructor returns the new handle and the source as it is left.\<close>

definition SharedPtr_move :: "handle \<Rightarrow> handle \<times> handle" where
  "SharedPtr_move other =
     (\<lparr>ptr = ptr other, block = block other\<rparr>, other\<lparr>ptr := None, block := None\<rparr>)"

definition Get :: "handle \<Rightarrow> addr option" where
  "Get this = ptr this"

definition GetBlock :: "handle \<Rightarrow> bref option" where
  "GetBlock this = block this"

text \<open>The aliasing constructor \<^verbatim>\<open>SharedPtr(const SharedPtr<T>& other, X* ptr)\<close>.\<close>

definition SharedPtr_alias :: "handle \<Rightarrow> addr option \<Rightarrow> memory \<Rightarrow> error + handle \<times> memory" where
  "SharedPtr_alias other p m =
     (let this = \<lparr>ptr = p, block = GetBlock other\<rparr> in
      if block this \<noteq> None then
        and_then (IncreaseStrongCounter (block this) m) (\<lambda>m1. Inr (this, m1))
      else Inr (this, m))"

text \<open>
  The promoting constructor \<^verbatim>\<open>SharedPtr(const WeakPtr<X>& other)\<close>. The condition is
  \<^verbatim>\<open>block_->GetStrongCounter() == 0 || !block_\<close>: the counter is read through
  \<^verbatim>\<open>block_\<close> before \<^verbatim>\<open>block_\<close> is tested.
\<close>

definition SharedPtr_promote :: "handle \<Rightarrow> memory \<Rightarrow> error + handle \<times> memory" where
  "SharedPtr_promote other m =
     (let this = \<lparr>ptr = ptr other, block = block other\<rparr> in
      and_then (GetStrongCounter (block this) m) (\<lambda>s.
        if s = 0 \<or> block this = None then Inl BadWeakPtr
        else and_then (IncreaseStrongCounter (block this) m) (\<lambda>m1. Inr (this, m1))))"

text \<open>\<^verbatim>\<open>size_t\<close> is 64 bits wide; the conversion from \<^verbatim>\<open>int\<close> is modulo \<open>2 ^ 64\<close>.\<close>

definition size_t_of_int :: "int \<Rightarrow> nat" where
  "size_t_of_int i = nat (i mod 2 ^ 64)"

definition UseCount :: "handle \<Rightarrow> memory \<Rightarrow> error + nat" where
  "UseCount this m =
     (if block this \<noteq> None then
        and_then (GetStrongCounter (block this) m) (\<lambda>s. Inr (size_t_of_int s))
      else Inr 0)"

definition operator_bool :: "handle \<Rightarrow> bool" where
  "operator_bool this = (ptr this \<noteq> None)"

definition operator_eq :: "handle \<Rightarrow> handle \<Rightarrow> bool" where
  "operator_eq left right = (Get left = Get right \<and> GetBlock left = GetBlock right)"

subsection \<open>SharedPtr of shared/shared.h\<close>

text \<open>
  \<^verbatim>\<open>shared/shared.h\<close> is the \<^verbatim>\<open>SharedPtr\<close> before weak handles were added. Its control
  block has the one counter \<^verbatim>\<open>counter_\<close>, for which the strong counter stands here (the
  weak counter is never touched); its \<^verbatim>\<open>EnableSharedFromThis\<close> is an empty class, so an
  object that embeds it is \<open>Plain\<close>, and there is no \<^verbatim>\<open>WeakPtr\<close> to be a member. Its
  constructors, assignments, \<^verbatim>\<open>Reset\<close> and \<^verbatim>\<open>Swap\<close> read as those of
  \<^verbatim>\<open>shared-from-this/shared.h\<close> with the counter renamed and without the calls of
  \<^verbatim>\<open>SetWeakThis\<close>. Two functions differ: \<^verbatim>\<open>Decrement\<close>, which tests the one counter,
  and the aliasing constructor, which increments through \<^verbatim>\<open>block_\<close> without testing it.
\<close>

function destroy_object_basic :: "addr \<Rightarrow> memory \<Rightarrow> error + memory"
  and DeleteObject_basic :: "bref option \<Rightarrow> memory \<Rightarrow> error + memory"
  and Decrement_basic :: "handle \<Rightarrow> memory \<Rightarrow> error + memory" where
  "destroy_object_basic a m =
     (case objects m a of
        None \<Rightarrow> Inl UseAfterFree
      | Some Plain \<Rightarrow>
          Inr (m\<lparr>objects := (objects m)(a := None), destroyed := destroyed m @ [a]\<rparr>)
      | Some (Enabled weak_this) \<Rightarrow> Inl IllFormed
      | Some (Holding link) \<Rightarrow> Inl IllFormed
      | Some (Linked next) \<Rightarrow>
          if a < brk m then
            Decrement_basic next
              (m\<lparr>objects := (objects m)(a := None), destroyed := destroyed m @ [a]\<rparr>)
          else Inl IllFormed)"
| "DeleteObject_basic p m =
     (case deref p m of
        Inl e \<Rightarrow> Inl e
      | Inr c \<Rightarrow>
          (case variant c of
             ControlBlockPointer q \<Rightarrow>
               (case q of None \<Rightarrow> Inr m | Some a \<Rightarrow> destroy_object_basic a m)
           | ControlBlockHolder a \<Rightarrow> destroy_object_basic a m))"
| "Decrement_basic this m =
     (if block this \<noteq> None then
        (case DecreaseStrongCounter (block this) m of
           Inl e \<Rightarrow> Inl e
         | Inr m1 \<Rightarrow>
             and_then (GetStrongCounter (block this) m1) (\<lambda>s.
               if s = 0 then
                 and_then (DeleteObject_basic (block this) m1) (\<lambda>m2.
                   delete_block (block this) m2)
               else Inr m1))
      else Inr m)"
  by pat_completeness auto

termination
proof (relation "measure (\<lambda>x. case x of
          Inl (a, m) \<Rightarrow> 3 * live_objects m
        | Inr (Inl (p, m)) \<Rightarrow> 3 * live_objects m + 1
        | Inr (Inr (h, m)) \<Rightarrow> 3 * live_objects m + 2)", goal_cases)
  case 1
  show ?case by simp
next
  case (2 a m x2 x4)
  let ?m = "m\<lparr>objects := (objects m)(a := None), destroyed := destroyed m @ [a]\<rparr>"
  let ?S = "{x. x < brk m \<and> objects m x \<noteq> None}"
  have fin: "finite ?S" by simp
  have a: "a \<in> ?S" using 2 by simp
  have eq: "{x. x < brk ?m \<and> objects ?m x \<noteq> None} = ?S - {a}" by auto
  have "card (?S - {a}) < card ?S" using fin a by (rule card_Diff1_less)
  then have "live_objects ?m < live_objects m"
    unfolding live_objects_def by (simp only: eq)
  then show ?case by simp
next
  case 3
  then show ?case by simp
next
  case 4
  then show ?case by simp
next
  case (5 this m m1)
  then have "objects m1 = objects m \<and> brk m1 = brk m"
    by (auto simp: DecreaseStrongCounter_def deref_def store_def and_then_def
             split: option.splits sum.splits)
  then show ?case by (simp add: live_objects_def)
qed

text \<open>
  The aliasing constructor of \<^verbatim>\<open>shared/shared.h\<close>:
  \<^verbatim>\<open>block_->IncreaseCounter()\<close> with no test of \<^verbatim>\<open>block_\<close>.
\<close>

definition SharedPtr_alias_basic :: "handle \<Rightarrow> addr option \<Rightarrow> memory \<Rightarrow> error + handle \<times> memory" where
  "SharedPtr_alias_basic other p m =
     (let this = \<lparr>ptr = p, block = GetBlock other\<rparr> in
      and_then (IncreaseStrongCounter (block this) m) (\<lambda>m1. Inr (this, m1)))"

subsection \<open>WeakPtr\<close>

definition WeakPtr_default :: handle where
  "WeakPtr_default = \<lparr>ptr = None, block = None\<rparr>"

definition WeakPtr_copy :: "handle \<Rightarrow> memory \<Rightarrow> error + handle \<times> memory" where
  "WeakPtr_copy other m =
     (let this = \<lparr>ptr = ptr other, block = block other\<rparr> in
      if block this \<noteq> None then
        and_then (IncreaseWeakCounter (block this) m) (\<lambda>m1. Inr (this, m1))
      else Inr (this, m))"

definition WeakPtr_move :: "handle \<Rightarrow> handle \<times> handle" where
  "WeakPtr_move other =
     (\<lparr>ptr = ptr other, block = block other\<rparr>, other\<lparr>ptr := None, block := None\<rparr>)"

text \<open>\<^verbatim>\<open>WeakPtr(const SharedPtr<X>& other)\<close>.\<close>

definition WeakPtr_demote :: "handle \<Rightarrow> memory \<Rightarrow> error + handle \<times> memory" where
  "WeakPtr_demote other m =
     (let this = \<lparr>ptr = ptr other, block = block other\<rparr> in
      if block this \<noteq> None then
        and_then (IncreaseWeakCounter (block this) m) (\<lambda>m1. Inr (this, m1))
      else Inr (this, m))"

definition Expired :: "handle \<Rightarrow> memory \<Rightarrow> error + bool" where
  "Expired this m = and_then (UseCount this m) (\<lambda>n. Inr (n = 0))"

definition Lock :: "handle \<Rightarrow> memory \<Rightarrow> error + handle \<times> memory" where
  "Lock this m =
     (if block this \<noteq> None then
        and_then (GetStrongCounter (block this) m) (\<lambda>s.
          if s = 0 then Inr (SharedPtr_default, m) else SharedPtr_promote this m)
      else Inr (SharedPtr_default, m))"

subsection \<open>EnableSharedFromThis and the constructors that wire it\<close>

text \<open>
  \<^verbatim>\<open>ptr->SetWeakThis(*this)\<close>. The parameter is a \<^verbatim>\<open>SharedPtr\<close> taken by value: it is
  copy-constructed from the argument and destroyed when the call returns. The body
  \<^verbatim>\<open>weak_this_ = other\<close> builds a temporary \<^verbatim>\<open>WeakPtr\<close> from \<^verbatim>\<open>other\<close>, move-assigns it
  to \<^verbatim>\<open>weak_this_\<close> and destroys the temporary, which is null by then.
\<close>

definition SetWeakThis :: "addr option \<Rightarrow> handle \<Rightarrow> memory \<Rightarrow> error + memory" where
  "SetWeakThis p arg m =
     (case p of
        None \<Rightarrow> Inl NullDereference
      | Some a \<Rightarrow>
          (case objects m a of
             None \<Rightarrow> Inl UseAfterFree
           | Some Plain \<Rightarrow> Inl IllFormed
           | Some (Holding link) \<Rightarrow> Inl IllFormed
           | Some (Linked next) \<Rightarrow> Inl IllFormed
           | Some (Enabled weak_this) \<Rightarrow>
               and_then (SharedPtr_copy arg m) (\<lambda>(other, m1).
               and_then (WeakPtr_demote other m1) (\<lambda>(tmp, m2).
               and_then (WeakPtr_Decrement weak_this m2) (\<lambda>m3.
               and_then (WeakPtr_Decrement (snd (WeakPtr_move tmp))
                           (m3\<lparr>objects := (objects m3)(a \<mapsto> Enabled (fst (WeakPtr_move tmp)))\<rparr>))
                 (\<lambda>m4. Decrement other m4))))))"

text \<open>
  \<^verbatim>\<open>SharedPtr(Y* ptr)\<close> (and \<^verbatim>\<open>SharedPtr(X* ptr)\<close>, the case \<open>Y = X\<close>). \<open>x_enabled\<close> is the
  compile-time test \<^verbatim>\<open>std::is_convertible_v<X*, EnableSharedFromThisBase*>\<close> on the
  handle's type \<open>X\<close>; what the object at \<open>p\<close> embeds is in the memory.
\<close>

definition SharedPtr_raw :: "bool \<Rightarrow> addr option \<Rightarrow> memory \<Rightarrow> error + handle \<times> memory" where
  "SharedPtr_raw x_enabled p m =
     (let (b, m1) = new_block (ControlBlockPointer p) m;
          this = \<lparr>ptr = p, block = Some b\<rparr>
      in if x_enabled then and_then (SetWeakThis p this m1) (\<lambda>m2. Inr (this, m2))
         else Inr (this, m1))"

text \<open>
  \<^verbatim>\<open>MakeShared<X>(args...)\<close>: one allocation, the object is built in the holder block's
  storage (so it takes the block's address), then \<^verbatim>\<open>SharedPtr(ControlBlockHolder<X>*)\<close>.
  The object built is an \<open>X\<close>, so it embeds the mixin exactly when \<open>x_enabled\<close>.
\<close>

definition MakeShared :: "bool \<Rightarrow> memory \<Rightarrow> error + handle \<times> memory" where
  "MakeShared x_enabled m =
     (let (b, m1) = new_block (ControlBlockHolder (brk m)) m;
          m2 = m1\<lparr>objects := (objects m1)(b \<mapsto> (if x_enabled then Enabled null_handle else Plain))\<rparr>;
          this = \<lparr>ptr = Some b, block = Some b\<rparr>
      in if x_enabled then and_then (SetWeakThis (ptr this) this m2) (\<lambda>m3. Inr (this, m3))
         else Inr (this, m2))"

text \<open>\<^verbatim>\<open>SharedFromThis\<close> and \<^verbatim>\<open>WeakFromThis\<close> of the object at \<open>a\<close>.\<close>

definition SharedFromThis :: "addr \<Rightarrow> memory \<Rightarrow> error + handle \<times> memory" where
  "SharedFromThis a m =
     (case objects m a of
        None \<Rightarrow> Inl UseAfterFree
      | Some Plain \<Rightarrow> Inl IllFormed
      | Some (Holding link) \<Rightarrow> Inl IllFormed
      | Some (Linked next) \<Rightarrow> Inl IllFormed
      | Some (Enabled weak_this) \<Rightarrow> Lock weak_this m)"

definition WeakFromThis :: "addr \<Rightarrow> memory \<Rightarrow> error + handle \<times> memory" where
  "WeakFromThis a m =
     (case objects m a of
        None \<Rightarrow> Inl UseAfterFree
      | Some Plain \<Rightarrow> Inl IllFormed
      | Some (Holding link) \<Rightarrow> Inl IllFormed
      | Some (Linked next) \<Rightarrow> Inl IllFormed
      | Some (Enabled weak_this) \<Rightarrow> WeakPtr_copy weak_this m)"

text \<open>
  \<^verbatim>\<open>p->link = other;\<close> for the \<open>Holding\<close> object at \<open>a\<close> and a \<^verbatim>\<open>SharedPtr\<close> \<open>other\<close>: a
  temporary \<^verbatim>\<open>WeakPtr\<close> is built from \<open>other\<close>, move-assigned to the member and destroyed.
\<close>

definition assign_link :: "addr \<Rightarrow> handle \<Rightarrow> memory \<Rightarrow> error + memory" where
  "assign_link a other m =
     (case objects m a of
        None \<Rightarrow> Inl UseAfterFree
      | Some Plain \<Rightarrow> Inl IllFormed
      | Some (Enabled weak_this) \<Rightarrow> Inl IllFormed
      | Some (Linked next) \<Rightarrow> Inl IllFormed
      | Some (Holding link) \<Rightarrow>
          and_then (WeakPtr_demote other m) (\<lambda>(tmp, m1).
          and_then (WeakPtr_Decrement link m1) (\<lambda>m2.
            WeakPtr_Decrement (snd (WeakPtr_move tmp))
              (m2\<lparr>objects := (objects m2)(a \<mapsto> Holding (fst (WeakPtr_move tmp)))\<rparr>))))"

section \<open>Handles as objects\<close>

text \<open>
  Assignment compares addresses (\<^verbatim>\<open>this != &other\<close>), so the handles of a program are
  kept by address: \<open>sptr\<close> holds the \<^verbatim>\<open>SharedPtr\<close> variables that are alive, \<open>wptr\<close> the
  \<^verbatim>\<open>WeakPtr\<close> variables. A constructor needs storage that holds no handle yet, every other
  member function a handle that is alive.
\<close>

record state =
  sptr :: "var \<rightharpoonup> handle"
  wptr :: "var \<rightharpoonup> handle"
  mem :: memory

text \<open>
  A member function that releases its handle and then goes on (assignment, \<^verbatim>\<open>Reset\<close>)
  reads and writes \<^verbatim>\<open>this\<close> and \<^verbatim>\<open>other\<close> after the release, and the release may have
  destroyed the object that holds them. So these functions take references: \<open>Var x\<close> is
  the variable at address \<open>x\<close>, \<open>Member a\<close> the data member of the object at address \<open>a\<close>
  (\<^verbatim>\<open>p->next\<close> for a \<open>Linked\<close> object). Reading or writing the member of an object
  that has been destroyed is a use after free. A variable lives until its scope ends,
  which no release brings about. \<^verbatim>\<open>Decrement\<close> is given the fields of \<^verbatim>\<open>this\<close> as they
  are when it is called; the function that called it finds out, at its next access to
  \<^verbatim>\<open>this\<close>, whether the handle is still there.

  The constructors read their argument before anything else, \<^verbatim>\<open>Swap\<close> releases nothing,
  and \<^verbatim>\<open>WeakPtr::Decrement\<close> destroys no object: these functions, and the member
  functions of \<^verbatim>\<open>WeakPtr\<close>, are given for variables.
\<close>

datatype place = Var var | Member addr

definition SharedPtr_at :: "place \<Rightarrow> state \<Rightarrow> error + handle" where
  "SharedPtr_at r s =
     (case r of
        Var x \<Rightarrow> (case sptr s x of None \<Rightarrow> Inl IllFormed | Some h \<Rightarrow> Inr h)
      | Member a \<Rightarrow>
          (case objects (mem s) a of
             None \<Rightarrow> if a \<in> set (destroyed (mem s)) then Inl UseAfterFree else Inl IllFormed
           | Some (Linked next) \<Rightarrow> Inr next
           | Some _ \<Rightarrow> Inl IllFormed))"

definition SharedPtr_put :: "place \<Rightarrow> handle \<Rightarrow> state \<Rightarrow> error + state" where
  "SharedPtr_put r h s =
     (case r of
        Var x \<Rightarrow>
          (case sptr s x of
             None \<Rightarrow> Inl IllFormed
           | Some _ \<Rightarrow> Inr (s\<lparr>sptr := (sptr s)(x \<mapsto> h)\<rparr>))
      | Member a \<Rightarrow>
          (case objects (mem s) a of
             None \<Rightarrow> if a \<in> set (destroyed (mem s)) then Inl UseAfterFree else Inl IllFormed
           | Some (Linked next) \<Rightarrow>
               Inr (s\<lparr>mem := (mem s)\<lparr>objects := (objects (mem s))(a \<mapsto> Linked h)\<rparr>\<rparr>)
           | Some _ \<Rightarrow> Inl IllFormed))"

definition new_SharedPtr :: "var \<Rightarrow> state \<Rightarrow> error + state" where
  "new_SharedPtr this s =
     (if sptr s this \<noteq> None then Inl IllFormed
      else Inr (s\<lparr>sptr := (sptr s)(this \<mapsto> SharedPtr_default)\<rparr>))"

definition new_SharedPtr_copy :: "var \<Rightarrow> var \<Rightarrow> state \<Rightarrow> error + state" where
  "new_SharedPtr_copy this other s =
     (case sptr s other of
        None \<Rightarrow> Inl IllFormed
      | Some oth \<Rightarrow>
          if sptr s this \<noteq> None then Inl IllFormed
          else and_then (SharedPtr_copy oth (mem s)) (\<lambda>(me, m).
                 Inr (s\<lparr>sptr := (sptr s)(this \<mapsto> me), mem := m\<rparr>)))"

definition new_SharedPtr_move :: "var \<Rightarrow> var \<Rightarrow> state \<Rightarrow> error + state" where
  "new_SharedPtr_move this other s =
     (case sptr s other of
        None \<Rightarrow> Inl IllFormed
      | Some oth \<Rightarrow>
          if sptr s this \<noteq> None then Inl IllFormed
          else Inr (s\<lparr>sptr := (sptr s)(this \<mapsto> fst (SharedPtr_move oth),
                                       other \<mapsto> snd (SharedPtr_move oth))\<rparr>))"

definition new_SharedPtr_alias :: "var \<Rightarrow> var \<Rightarrow> addr option \<Rightarrow> state \<Rightarrow> error + state" where
  "new_SharedPtr_alias this other p s =
     (case sptr s other of
        None \<Rightarrow> Inl IllFormed
      | Some oth \<Rightarrow>
          if sptr s this \<noteq> None then Inl IllFormed
          else and_then (SharedPtr_alias oth p (mem s)) (\<lambda>(me, m).
                 Inr (s\<lparr>sptr := (sptr s)(this \<mapsto> me), mem := m\<rparr>)))"

definition new_SharedPtr_promote :: "var \<Rightarrow> var \<Rightarrow> state \<Rightarrow> error + state" where
  "new_SharedPtr_promote this other s =
     (case wptr s other of
        None \<Rightarrow> Inl IllFormed
      | Some oth \<Rightarrow>
          if sptr s this \<noteq> None then Inl IllFormed
          else and_then (SharedPtr_promote oth (mem s)) (\<lambda>(me, m).
                 Inr (s\<lparr>sptr := (sptr s)(this \<mapsto> me), mem := m\<rparr>)))"

text \<open>
  \<^verbatim>\<open>SharedPtr& operator=(const SharedPtr& other)\<close>. Both references are bound to live
  handles when the call is made. \<^verbatim>\<open>other.ptr_\<close> and \<^verbatim>\<open>other.block_\<close> are read, and
  \<^verbatim>\<open>this\<close> is written, after \<^verbatim>\<open>Decrement()\<close>.
\<close>

definition SharedPtr_assign :: "place \<Rightarrow> place \<Rightarrow> state \<Rightarrow> error + state" where
  "SharedPtr_assign this other s =
     and_then (SharedPtr_at this s) (\<lambda>me.
     and_then (SharedPtr_at other s) (\<lambda>_.
       if this \<noteq> other then
         and_then (Decrement me (mem s)) (\<lambda>m1.
         and_then (SharedPtr_at other (s\<lparr>mem := m1\<rparr>)) (\<lambda>oth.
         and_then (SharedPtr_put this \<lparr>ptr = ptr oth, block = block oth\<rparr> (s\<lparr>mem := m1\<rparr>)) (\<lambda>s2.
           if block oth \<noteq> None then
             and_then (IncreaseStrongCounter (block oth) (mem s2)) (\<lambda>m2. Inr (s2\<lparr>mem := m2\<rparr>))
           else Inr s2)))
       else Inr s))"

text \<open>\<^verbatim>\<open>SharedPtr& operator=(SharedPtr&& other)\<close>, with the same order.\<close>

definition SharedPtr_move_assign :: "place \<Rightarrow> place \<Rightarrow> state \<Rightarrow> error + state" where
  "SharedPtr_move_assign this other s =
     and_then (SharedPtr_at this s) (\<lambda>me.
     and_then (SharedPtr_at other s) (\<lambda>_.
       if this = other then Inr s
       else
         and_then (Decrement me (mem s)) (\<lambda>m1.
         and_then (SharedPtr_at other (s\<lparr>mem := m1\<rparr>)) (\<lambda>oth.
         and_then (SharedPtr_put this \<lparr>ptr = ptr oth, block = block oth\<rparr> (s\<lparr>mem := m1\<rparr>)) (\<lambda>s2.
           SharedPtr_put other \<lparr>ptr = None, block = None\<rparr> s2)))))"

text \<open>\<^verbatim>\<open>~SharedPtr()\<close>; afterwards the handle is no more.\<close>

definition delete_SharedPtr :: "var \<Rightarrow> state \<Rightarrow> error + state" where
  "delete_SharedPtr this s =
     (case sptr s this of
        None \<Rightarrow> Inl IllFormed
      | Some me \<Rightarrow>
          and_then (Decrement me (mem s)) (\<lambda>m1.
            Inr (s\<lparr>sptr := (sptr s)(this := None), mem := m1\<rparr>)))"

text \<open>\<^verbatim>\<open>void Reset()\<close>: the fields are nulled after \<^verbatim>\<open>Decrement()\<close>.\<close>

definition SharedPtr_Reset :: "place \<Rightarrow> state \<Rightarrow> error + state" where
  "SharedPtr_Reset this s =
     and_then (SharedPtr_at this s) (\<lambda>me.
     and_then (Decrement me (mem s)) (\<lambda>m1.
       SharedPtr_put this \<lparr>ptr = None, block = None\<rparr> (s\<lparr>mem := m1\<rparr>)))"

text \<open>
  \<^verbatim>\<open>void Reset(Y* ptr)\<close> (and \<^verbatim>\<open>Reset(X* ptr)\<close>): after \<^verbatim>\<open>Decrement()\<close>, a new pointer
  block; \<^verbatim>\<open>SetWeakThis\<close> is not called, whatever \<open>X\<close> and \<open>Y\<close> embed.
\<close>

definition SharedPtr_Reset_raw :: "place \<Rightarrow> addr option \<Rightarrow> state \<Rightarrow> error + state" where
  "SharedPtr_Reset_raw this p s =
     and_then (SharedPtr_at this s) (\<lambda>me.
     and_then (Decrement me (mem s)) (\<lambda>m1.
       let (b, m2) = new_block (ControlBlockPointer p) m1 in
       SharedPtr_put this \<lparr>ptr = p, block = Some b\<rparr> (s\<lparr>mem := m2\<rparr>)))"

definition SharedPtr_Swap :: "var \<Rightarrow> var \<Rightarrow> state \<Rightarrow> error + state" where
  "SharedPtr_Swap this other s =
     (case (sptr s this, sptr s other) of
        (Some me, Some oth) \<Rightarrow>
          Inr (s\<lparr>sptr := (sptr s)(this \<mapsto> me\<lparr>ptr := ptr oth, block := block oth\<rparr>,
                                   other \<mapsto> oth\<lparr>ptr := ptr me, block := block me\<rparr>)\<rparr>)
      | _ \<Rightarrow> Inl IllFormed)"

definition new_WeakPtr :: "var \<Rightarrow> state \<Rightarrow> error + state" where
  "new_WeakPtr this s =
     (if wptr s this \<noteq> None then Inl IllFormed
      else Inr (s\<lparr>wptr := (wptr s)(this \<mapsto> WeakPtr_default)\<rparr>))"

definition new_WeakPtr_copy :: "var \<Rightarrow> var \<Rightarrow> state \<Rightarrow> error + state" where
  "new_WeakPtr_copy this other s =
     (case wptr s other of
        None \<Rightarrow> Inl IllFormed
      | Some oth \<Rightarrow>
          if wptr s this \<noteq> None then Inl IllFormed
          else and_then (WeakPtr_copy oth (mem s)) (\<lambda>(me, m).
                 Inr (s\<lparr>wptr := (wptr s)(this \<mapsto> me), mem := m\<rparr>)))"

definition new_WeakPtr_move :: "var \<Rightarrow> var \<Rightarrow> state \<Rightarrow> error + state" where
  "new_WeakPtr_move this other s =
     (case wptr s other of
        None \<Rightarrow> Inl IllFormed
      | Some oth \<Rightarrow>
          if wptr s this \<noteq> None then Inl IllFormed
          else Inr (s\<lparr>wptr := (wptr s)(this \<mapsto> fst (WeakPtr_move oth),
                                       other \<mapsto> snd (WeakPtr_move oth))\<rparr>))"

definition new_WeakPtr_demote :: "var \<Rightarrow> var \<Rightarrow> state \<Rightarrow> error + state" where
  "new_WeakPtr_demote this other s =
     (case sptr s other of
        None \<Rightarrow> Inl IllFormed
      | Some oth \<Rightarrow>
          if wptr s this \<noteq> None then Inl IllFormed
          else and_then (WeakPtr_demote oth (mem s)) (\<lambda>(me, m).
                 Inr (s\<lparr>wptr := (wptr s)(this \<mapsto> me), mem := m\<rparr>)))"

definition WeakPtr_assign :: "var \<Rightarrow> var \<Rightarrow> state \<Rightarrow> error + state" where
  "WeakPtr_assign this other s =
     (case (wptr s this, wptr s other) of
        (Some me, Some oth) \<Rightarrow>
          if this \<noteq> other then
            and_then (WeakPtr_Decrement me (mem s)) (\<lambda>m1.
              let me' = me\<lparr>ptr := ptr oth, block := block oth\<rparr> in
              if block me' \<noteq> None then
                and_then (IncreaseWeakCounter (block me') m1) (\<lambda>m2.
                  Inr (s\<lparr>wptr := (wptr s)(this \<mapsto> me'), mem := m2\<rparr>))
              else Inr (s\<lparr>wptr := (wptr s)(this \<mapsto> me'), mem := m1\<rparr>))
          else Inr s
      | _ \<Rightarrow> Inl IllFormed)"

definition WeakPtr_move_assign :: "var \<Rightarrow> var \<Rightarrow> state \<Rightarrow> error + state" where
  "WeakPtr_move_assign this other s =
     (case (wptr s this, wptr s other) of
        (Some me, Some oth) \<Rightarrow>
          if this = other then Inr s
          else
            and_then (WeakPtr_Decrement me (mem s)) (\<lambda>m1.
              Inr (s\<lparr>wptr := (wptr s)(this \<mapsto> me\<lparr>ptr := ptr oth, block := block oth\<rparr>,
                                       other \<mapsto> oth\<lparr>ptr := None, block := None\<rparr>),
                     mem := m1\<rparr>))
      | _ \<Rightarrow> Inl IllFormed)"

definition delete_WeakPtr :: "var \<Rightarrow> state \<Rightarrow> error + state" where
  "delete_WeakPtr this s =
     (case wptr s this of
        None \<Rightarrow> Inl IllFormed
      | Some me \<Rightarrow>
          and_then (WeakPtr_Decrement me (mem s)) (\<lambda>m1.
            Inr (s\<lparr>wptr := (wptr s)(this := None), mem := m1\<rparr>)))"

definition WeakPtr_Reset :: "var \<Rightarrow> state \<Rightarrow> error + state" where
  "WeakPtr_Reset this s =
     (case wptr s this of
        None \<Rightarrow> Inl IllFormed
      | Some me \<Rightarrow>
          and_then (WeakPtr_Decrement me (mem s)) (\<lambda>m1.
            Inr (s\<lparr>wptr := (wptr s)(this \<mapsto> me\<lparr>ptr := None, block := None\<rparr>), mem := m1\<rparr>)))"

definition WeakPtr_Swap :: "var \<Rightarrow> var \<Rightarrow> state \<Rightarrow> error + state" where
  "WeakPtr_Swap this other s =
     (case (wptr s this, wptr s other) of
        (Some me, Some oth) \<Rightarrow>
          Inr (s\<lparr>wptr := (wptr s)(this \<mapsto> me\<lparr>ptr := ptr oth, block := block oth\<rparr>,
                                   other \<mapsto> oth\<lparr>ptr := ptr me, block := block me\<rparr>)\<rparr>)
      | _ \<Rightarrow> Inl IllFormed)"

text \<open>\<^verbatim>\<open>SharedPtr<X> result = this->Lock();\<close>\<close>

definition WeakPtr_Lock :: "var \<Rightarrow> var \<Rightarrow> state \<Rightarrow> error + state" where
  "WeakPtr_Lock result this s =
     (case wptr s this of
        None \<Rightarrow> Inl IllFormed
      | Some me \<Rightarrow>
          if sptr s result \<noteq> None then Inl IllFormed
          else and_then (Lock me (mem s)) (\<lambda>(r, m).
                 Inr (s\<lparr>sptr := (sptr s)(result \<mapsto> r), mem := m\<rparr>)))"

section \<open>UniquePtr\<close>

text \<open>
  \<^verbatim>\<open>CompressedPair<T*, Deleter>\<close> is a pair whatever its layout: \<^verbatim>\<open>GetFirst\<close> is the
  pointer, \<^verbatim>\<open>GetSecond\<close> the deleter. The deleter is a template parameter. Two kinds
  stand for it: \<open>CustomDeleter\<close> is the class of that name in \<^verbatim>\<open>unique.h\<close>, the default,
  whose call is \<^verbatim>\<open>delete p\<close>; \<open>Policy d\<close> is a deleter of the program with state \<open>d\<close>,
  whose call does nothing to the objects of this model. \<open>calls\<close> records each invocation
  \<^verbatim>\<open>GetDeleter()(p)\<close> with the deleter invoked and its argument.

  The owned type is a template parameter too: \<open>UPlain\<close> has no \<^verbatim>\<open>UniquePtr\<close> among its
  members, \<open>ULinked\<close> has one (\<^verbatim>\<open>struct Node { UniquePtr<Node> next; };\<close>). \<open>heap\<close> lists
  the objects that are alive, by address.
\<close>

datatype 'd Deleter = CustomDeleter | Policy 'd

type_synonym 'd CompressedPair = "addr option \<times> 'd Deleter"

definition GetFirst :: "'d CompressedPair \<Rightarrow> addr option" where
  "GetFirst pair = fst pair"

definition GetSecond :: "'d CompressedPair \<Rightarrow> 'd Deleter" where
  "GetSecond pair = snd pair"

datatype 'd uobject = UPlain | ULinked "'d CompressedPair"

record 'd ustate =
  uptr :: "var \<rightharpoonup> 'd CompressedPair"
  heap :: "(addr \<times> 'd uobject) list"
  calls :: "('d Deleter \<times> addr option) list"

text \<open>
  \<^verbatim>\<open>GetDeleter()(p)\<close>. For \<open>CustomDeleter\<close>, \<^verbatim>\<open>delete p\<close>: nothing for a null pointer;
  otherwise the object's destructor runs, which for a \<open>ULinked\<close> object is
  \<^verbatim>\<open>~UniquePtr()\<close> of the member (the deleter is invoked if the pointer is not null), and
  the storage is given back. \<^verbatim>\<open>delete\<close> of what is not, or no more, an object is a use
  after free.
\<close>

function invoke :: "'d Deleter \<Rightarrow> addr option \<Rightarrow> 'd ustate \<Rightarrow> error + 'd ustate" where
  "invoke d p u =
     (let u1 = u\<lparr>calls := calls u @ [(d, p)]\<rparr> in
      case d of
        Policy x \<Rightarrow> Inr u1
      | CustomDeleter \<Rightarrow>
          (case p of
             None \<Rightarrow> Inr u1
           | Some a \<Rightarrow>
               (case map_of (heap u) a of
                  None \<Rightarrow> Inl UseAfterFree
                | Some UPlain \<Rightarrow> Inr (u1\<lparr>heap := filter (\<lambda>kv. fst kv \<noteq> a) (heap u)\<rparr>)
                | Some (ULinked next) \<Rightarrow>
                    if GetFirst next \<noteq> None then
                      invoke (GetSecond next) (GetFirst next)
                        (u1\<lparr>heap := filter (\<lambda>kv. fst kv \<noteq> a) (heap u)\<rparr>)
                    else Inr (u1\<lparr>heap := filter (\<lambda>kv. fst kv \<noteq> a) (heap u)\<rparr>))))"
  by pat_completeness auto

termination
proof (relation "measure (\<lambda>(d, p, u). length (heap u))", goal_cases)
  case 1
  show ?case by simp
next
  case (2 d p u u1 a obj nxt)
  from 2 have "(a, ULinked nxt) \<in> set (heap u)" by (auto dest: map_of_SomeD)
  then have "length (filter (\<lambda>kv. fst kv \<noteq> a) (heap u)) < length (heap u)"
    by (rule length_filter_less) simp
  then show ?case by simp
qed

text \<open>
  References to a \<^verbatim>\<open>UniquePtr\<close>: a variable, or the member \<^verbatim>\<open>next\<close> of a \<open>ULinked\<close>
  object, which is there as long as the object is.
\<close>

definition UniquePtr_at :: "place \<Rightarrow> 'd ustate \<Rightarrow> error + 'd CompressedPair" where
  "UniquePtr_at r u =
     (case r of
        Var x \<Rightarrow> (case uptr u x of None \<Rightarrow> Inl IllFormed | Some pair \<Rightarrow> Inr pair)
      | Member a \<Rightarrow>
          (case map_of (heap u) a of
             None \<Rightarrow> Inl UseAfterFree
           | Some UPlain \<Rightarrow> Inl IllFormed
           | Some (ULinked next) \<Rightarrow> Inr next))"

definition UniquePtr_put :: "place \<Rightarrow> 'd CompressedPair \<Rightarrow> 'd ustate \<Rightarrow> error + 'd ustate" where
  "UniquePtr_put r pair u =
     (case r of
        Var x \<Rightarrow>
          (case uptr u x of
             None \<Rightarrow> Inl IllFormed
           | Some _ \<Rightarrow> Inr (u\<lparr>uptr := (uptr u)(x \<mapsto> pair)\<rparr>))
      | Member a \<Rightarrow>
          (case map_of (heap u) a of
             None \<Rightarrow> Inl UseAfterFree
           | Some UPlain \<Rightarrow> Inl IllFormed
           | Some (ULinked next) \<Rightarrow>
               Inr (u\<lparr>heap := map (\<lambda>kv. if fst kv = a then (a, ULinked pair) else kv) (heap u)\<rparr>)))"

text \<open>\<^verbatim>\<open>UniquePtr(T* ptr, const Deleter& deleter)\<close>; \<^verbatim>\<open>UniquePtr(T* ptr)\<close> passes \<^verbatim>\<open>Deleter{}\<close>.\<close>

definition new_UniquePtr :: "var \<Rightarrow> addr option \<Rightarrow> 'd Deleter \<Rightarrow> 'd ustate \<Rightarrow> error + 'd ustate" where
  "new_UniquePtr this p d u =
     (if uptr u this \<noteq> None then Inl IllFormed
      else Inr (u\<lparr>uptr := (uptr u)(this \<mapsto> (p, d))\<rparr>))"

text \<open>
  \<^verbatim>\<open>UniquePtr(UniquePtr&& other)\<close>: \<^verbatim>\<open>pair_\<close> is default-constructed, a null pointer and
  the deleter \<^verbatim>\<open>Deleter()\<close> (the parameter \<open>d0\<close>), then swapped with \<^verbatim>\<open>other.pair_\<close>.
\<close>

definition new_UniquePtr_move :: "'d Deleter \<Rightarrow> var \<Rightarrow> place \<Rightarrow> 'd ustate \<Rightarrow> error + 'd ustate" where
  "new_UniquePtr_move d0 this other u =
     and_then (UniquePtr_at other u) (\<lambda>oth.
       if uptr u this \<noteq> None then Inl IllFormed
       else UniquePtr_put other (None, d0) (u\<lparr>uptr := (uptr u)(this \<mapsto> oth)\<rparr>))"

text \<open>\<^verbatim>\<open>T* Release()\<close> returns the pointer with the new state.\<close>

definition Release :: "place \<Rightarrow> 'd ustate \<Rightarrow> error + addr option \<times> 'd ustate" where
  "Release this u =
     and_then (UniquePtr_at this u) (\<lambda>pair.
       let tmp = GetFirst pair in
       and_then (UniquePtr_put this (None, GetSecond pair) u) (\<lambda>u1. Inr (tmp, u1)))"

text \<open>The converting move constructor \<^verbatim>\<open>UniquePtr(UniquePtr<U, E>&& pointer)\<close>.\<close>

definition new_UniquePtr_convert :: "var \<Rightarrow> place \<Rightarrow> 'd ustate \<Rightarrow> error + 'd ustate" where
  "new_UniquePtr_convert this pointer u =
     (if uptr u this \<noteq> None then Inl IllFormed
      else and_then (Release pointer u) (\<lambda>(p, u1).
           and_then (UniquePtr_at pointer u1) (\<lambda>pair.
             Inr (u1\<lparr>uptr := (uptr u1)(this \<mapsto> (p, GetSecond pair))\<rparr>))))"

text \<open>
  \<^verbatim>\<open>UniquePtr& operator=(UniquePtr&& other)\<close>. Both references are bound to live handles
  when the call is made. The deleter is invoked first, without a test of the pointer;
  \<^verbatim>\<open>other\<close> is read, and \<^verbatim>\<open>this\<close> and \<^verbatim>\<open>other\<close> are written, after that call.
\<close>

definition UniquePtr_move_assign :: "place \<Rightarrow> place \<Rightarrow> 'd ustate \<Rightarrow> error + 'd ustate" where
  "UniquePtr_move_assign this other u =
     and_then (UniquePtr_at this u) (\<lambda>me.
     and_then (UniquePtr_at other u) (\<lambda>_.
       if this = other then Inr u
       else
         and_then (invoke (GetSecond me) (GetFirst me) u) (\<lambda>u1.
         and_then (UniquePtr_at other u1) (\<lambda>oth.
         and_then (UniquePtr_put this (GetFirst oth, GetSecond me) u1) (\<lambda>u2.
         and_then (UniquePtr_put other (None, GetSecond oth) u2) (\<lambda>u3.
           UniquePtr_put this (GetFirst oth, GetSecond oth) u3))))))"

text \<open>\<^verbatim>\<open>UniquePtr& operator=(std::nullptr_t)\<close>.\<close>

definition UniquePtr_assign_nullptr :: "place \<Rightarrow> 'd ustate \<Rightarrow> error + 'd ustate" where
  "UniquePtr_assign_nullptr this u =
     and_then (UniquePtr_at this u) (\<lambda>me.
     and_then (invoke (GetSecond me) (GetFirst me) u) (\<lambda>u1.
       UniquePtr_put this (None, GetSecond me) u1))"

text \<open>\<^verbatim>\<open>~UniquePtr()\<close> of a variable: the deleter is invoked if the pointer is not null.\<close>

definition delete_UniquePtr :: "var \<Rightarrow> 'd ustate \<Rightarrow> error + 'd ustate" where
  "delete_UniquePtr this u =
     (case uptr u this of
        None \<Rightarrow> Inl IllFormed
      | Some me \<Rightarrow>
          and_then (if GetFirst me \<noteq> None then invoke (GetSecond me) (GetFirst me) u else Inr u)
            (\<lambda>u1. Inr (u1\<lparr>uptr := (uptr u1)(this := None)\<rparr>)))"

text \<open>
  \<^verbatim>\<open>void Reset(T* ptr = nullptr)\<close>: the new pointer is stored first, then the deleter is
  invoked on the old one, without a test.
\<close>

definition Reset :: "place \<Rightarrow> addr option \<Rightarrow> 'd ustate \<Rightarrow> error + 'd ustate" where
  "Reset this p u =
     and_then (UniquePtr_at this u) (\<lambda>me.
       let old_ptr = GetFirst me in
       and_then (UniquePtr_put this (p, GetSecond me) u) (\<lambda>u1.
         invoke (GetSecond me) old_ptr u1))"

definition UniquePtr_Swap :: "var \<Rightarrow> var \<Rightarrow> 'd ustate \<Rightarrow> error + 'd ustate" where
  "UniquePtr_Swap this other u =
     (case (uptr u this, uptr u other) of
        (Some me, Some oth) \<Rightarrow> Inr (u\<lparr>uptr := (uptr u)(this \<mapsto> oth, other \<mapsto> me)\<rparr>)
      | _ \<Rightarrow> Inl IllFormed)"

section \<open>Programs and example states\<close>

definition empty_state :: state where
  "empty_state = \<lparr>sptr = Map.empty, wptr = Map.empty, mem = empty_memory\<rparr>"

text \<open>\<^verbatim>\<open>SharedPtr<X> this = MakeShared<X>(args...);\<close>\<close>

definition new_SharedPtr_MakeShared :: "bool \<Rightarrow> var \<Rightarrow> state \<Rightarrow> error + state" where
  "new_SharedPtr_MakeShared x_enabled this s =
     (if sptr s this \<noteq> None then Inl IllFormed
      else and_then (MakeShared x_enabled (mem s)) (\<lambda>(me, m).
             Inr (s\<lparr>sptr := (sptr s)(this \<mapsto> me), mem := m\<rparr>)))"

text \<open>\<^verbatim>\<open>SharedPtr<X> this(ptr);\<close>\<close>

definition new_SharedPtr_raw :: "bool \<Rightarrow> var \<Rightarrow> addr option \<Rightarrow> state \<Rightarrow> error + state" where
  "new_SharedPtr_raw x_enabled this p s =
     (if sptr s this \<noteq> None then Inl IllFormed
      else and_then (SharedPtr_raw x_enabled p (mem s)) (\<lambda>(me, m).
             Inr (s\<lparr>sptr := (sptr s)(this \<mapsto> me), mem := m\<rparr>)))"

text \<open>
  Two \<^verbatim>\<open>SharedPtr\<close>s, at addresses 0 and 1, that own one object made by
  \<^verbatim>\<open>MakeShared\<close>: the state after \<^verbatim>\<open>auto a = MakeShared<T>(); auto b = a;\<close>.
\<close>

definition two_owners :: state where
  "two_owners =
     \<lparr>sptr = [0 \<mapsto> \<lparr>ptr = Some 0, block = Some 0\<rparr>, 1 \<mapsto> \<lparr>ptr = Some 0, block = Some 0\<rparr>],
      wptr = Map.empty,
      mem = \<lparr>blocks = [0 \<mapsto> \<lparr>strong_counter = 2, weak_counter = 0, variant = ControlBlockHolder 0\<rparr>],
             objects = [0 \<mapsto> Plain], destroyed = [], freed = [], brk = 1\<rparr>\<rparr>"

text \<open>One \<^verbatim>\<open>SharedPtr\<close> and one \<^verbatim>\<open>WeakPtr\<close> over one object made by \<^verbatim>\<open>MakeShared\<close>.\<close>

definition owner_and_observer :: state where
  "owner_and_observer =
     \<lparr>sptr = [0 \<mapsto> \<lparr>ptr = Some 0, block = Some 0\<rparr>],
      wptr = [0 \<mapsto> \<lparr>ptr = Some 0, block = Some 0\<rparr>],
      mem = \<lparr>blocks = [0 \<mapsto> \<lparr>strong_counter = 1, weak_counter = 1, variant = ControlBlockHolder 0\<rparr>],
             objects = [0 \<mapsto> Plain], destroyed = [], freed = [], brk = 1\<rparr>\<rparr>"

text \<open>A null \<^verbatim>\<open>SharedPtr\<close> at address 0 and, at address 1, the only owner of an object.\<close>

definition null_and_owner :: state where
  "null_and_owner =
     \<lparr>sptr = [0 \<mapsto> null_handle, 1 \<mapsto> \<lparr>ptr = Some 0, block = Some 0\<rparr>],
      wptr = Map.empty,
      mem = \<lparr>blocks = [0 \<mapsto> \<lparr>strong_counter = 1, weak_counter = 0, variant = ControlBlockHolder 0\<rparr>],
             objects = [0 \<mapsto> Plain], destroyed = [], freed = [], brk = 1\<rparr>\<rparr>"

text \<open>The memory once the owner of \<open>owner_and_observer\<close> is gone: the block outlives the object.\<close>

definition expired_memory :: memory where
  "expired_memory =
     \<lparr>blocks = [0 \<mapsto> \<lparr>strong_counter = 0, weak_counter = 1, variant = ControlBlockHolder 0\<rparr>],
      objects = Map.empty, destroyed = [0], freed = [], brk = 1\<rparr>"

text \<open>Two unrelated objects, each with its own pointer block and one owner.\<close>

definition two_blocks :: memory where
  "two_blocks =
     \<lparr>blocks = [2 \<mapsto> \<lparr>strong_counter = 1, weak_counter = 0, variant = ControlBlockPointer (Some 0)\<rparr>,
                3 \<mapsto> \<lparr>strong_counter = 1, weak_counter = 0, variant = ControlBlockPointer (Some 1)\<rparr>],
      objects = [0 \<mapsto> Plain, 1 \<mapsto> Plain], destroyed = [], freed = [], brk = 4\<rparr>"

text \<open>The memory after \<^verbatim>\<open>new T\<close> for a \<open>T\<close> that embeds the mixin: \<^verbatim>\<open>weak_this_\<close> is null.\<close>

definition fresh_enabled :: memory where
  "fresh_enabled =
     \<lparr>blocks = Map.empty, objects = [0 \<mapsto> Enabled null_handle], destroyed = [], freed = [],
      brk = 1\<rparr>"

text \<open>
  \<^verbatim>\<open>Node* n = new Node; SharedPtr<Node> p(n); p->link = p;\<close> for
  \<^verbatim>\<open>struct Node { WeakPtr<Node> link; };\<close>: the memory after each of the three statements.
  The object is at address 0, the block at address 1.
\<close>

definition node_fresh :: memory where
  "node_fresh =
     \<lparr>blocks = Map.empty, objects = [0 \<mapsto> Holding null_handle], destroyed = [], freed = [],
      brk = 1\<rparr>"

definition node_owned :: memory where
  "node_owned =
     \<lparr>blocks = [1 \<mapsto> \<lparr>strong_counter = 1, weak_counter = 0,
                                variant = ControlBlockPointer (Some 0)\<rparr>],
      objects = [0 \<mapsto> Holding null_handle], destroyed = [], freed = [], brk = 2\<rparr>"

definition node_linked :: memory where
  "node_linked =
     \<lparr>blocks = [1 \<mapsto> \<lparr>strong_counter = 1, weak_counter = 1,
                                variant = ControlBlockPointer (Some 0)\<rparr>],
      objects = [0 \<mapsto> Holding \<lparr>ptr = Some 0, block = Some 1\<rparr>], destroyed = [], freed = [],
      brk = 2\<rparr>"

text \<open>
  Inside \<^verbatim>\<open>p.~SharedPtr()\<close>: \<open>node_released\<close> is the memory after
  \<^verbatim>\<open>block_->DecreaseStrongCounter()\<close>, \<open>node_destroyed\<close> after \<^verbatim>\<open>block_->DeleteObject()\<close>.
\<close>

definition node_released :: memory where
  "node_released =
     \<lparr>blocks = [1 \<mapsto> \<lparr>strong_counter = 0, weak_counter = 1,
                                variant = ControlBlockPointer (Some 0)\<rparr>],
      objects = [0 \<mapsto> Holding \<lparr>ptr = Some 0, block = Some 1\<rparr>], destroyed = [], freed = [],
      brk = 2\<rparr>"

definition node_destroyed :: memory where
  "node_destroyed =
     \<lparr>blocks = Map.empty, objects = Map.empty, destroyed = [0], freed = [1], brk = 2\<rparr>"

text \<open>
  \<^verbatim>\<open>SharedPtr<Node> p(new Node);\<close> for \<^verbatim>\<open>struct Node { SharedPtr<Node> next; };\<close>:
  the node is at address 0 with a null \<^verbatim>\<open>next\<close>, its block at address 1, and \<open>p\<close>, the
  variable at address 0, is its only owner.
\<close>

definition linked_owner :: state where
  "linked_owner =
     \<lparr>sptr = [0 \<mapsto> \<lparr>ptr = Some 0, block = Some 1\<rparr>], wptr = Map.empty,
      mem = \<lparr>blocks = [1 \<mapsto> \<lparr>strong_counter = 1, weak_counter = 0,
                                       variant = ControlBlockPointer (Some 0)\<rparr>],
             objects = [0 \<mapsto> Linked null_handle], destroyed = [], freed = [], brk = 2\<rparr>\<rparr>"

text \<open>
  A list of two such nodes, after \<^verbatim>\<open>SharedPtr<Node> head(new Node);\<close> and
  \<^verbatim>\<open>head->next = SharedPtr<Node>(new Node);\<close>: the first node is at address 0 with its
  block at 1, the second at address 2 with its block at 3, and \<^verbatim>\<open>next\<close> of the first is
  the only owner of the second.
\<close>

definition linked_list :: state where
  "linked_list =
     \<lparr>sptr = [0 \<mapsto> \<lparr>ptr = Some 0, block = Some 1\<rparr>], wptr = Map.empty,
      mem = \<lparr>blocks = [1 \<mapsto> \<lparr>strong_counter = 1, weak_counter = 0,
                                       variant = ControlBlockPointer (Some 0)\<rparr>,
                        3 \<mapsto> \<lparr>strong_counter = 1, weak_counter = 0,
                                       variant = ControlBlockPointer (Some 2)\<rparr>],
             objects = [0 \<mapsto> Linked \<lparr>ptr = Some 2, block = Some 3\<rparr>, 2 \<mapsto> Linked null_handle],
             destroyed = [], freed = [], brk = 4\<rparr>\<rparr>"



text \<open>The memory once the node of \<open>linked_owner\<close> and its block are gone.\<close>

definition linked_gone :: memory where
  "linked_gone =
     \<lparr>blocks = Map.empty, objects = Map.empty, destroyed = [0], freed = [1], brk = 2\<rparr>"

text \<open>
  An object of a type \<open>T\<close> that embeds the mixin, adopted by \<^verbatim>\<open>Reset\<close>:
  \<^verbatim>\<open>SharedPtr<T> p; p.Reset(new T);\<close> from the memory \<open>fresh_enabled\<close>. And the same
  object adopted by the constructor: \<^verbatim>\<open>SharedPtr<T> p(new T);\<close>.
\<close>

definition reset_owner :: state where
  "reset_owner =
     \<lparr>sptr = [0 \<mapsto> \<lparr>ptr = Some 0, block = Some 1\<rparr>], wptr = Map.empty,
      mem = \<lparr>blocks = [1 \<mapsto> \<lparr>strong_counter = 1, weak_counter = 0,
                                       variant = ControlBlockPointer (Some 0)\<rparr>],
             objects = [0 \<mapsto> Enabled null_handle], destroyed = [], freed = [], brk = 2\<rparr>\<rparr>"

definition constructor_owner :: state where
  "constructor_owner =
     \<lparr>sptr = [0 \<mapsto> \<lparr>ptr = Some 0, block = Some 1\<rparr>], wptr = Map.empty,
      mem = \<lparr>blocks = [1 \<mapsto> \<lparr>strong_counter = 1, weak_counter = 1,
                                       variant = ControlBlockPointer (Some 0)\<rparr>],
             objects = [0 \<mapsto> Enabled \<lparr>ptr = Some 0, block = Some 1\<rparr>],
             destroyed = [], freed = [], brk = 2\<rparr>\<rparr>"

text \<open>Two \<^verbatim>\<open>UniquePtr\<close>s, at addresses 0 and 2, with deleters of the program.\<close>

definition two_unique :: "nat ustate" where
  "two_unique =
     \<lparr>uptr = [0 \<mapsto> (Some 7, Policy 0), 2 \<mapsto> (Some 9, Policy 1)], heap = [], calls = []\<rparr>"

text \<open>
  A list of two nodes, \<^verbatim>\<open>struct Node { UniquePtr<Node> next; };\<close>, after
  \<^verbatim>\<open>UniquePtr<Node> head(new Node); head->next.Reset(new Node);\<close>: the variable
  \<open>head\<close> at address 0 owns the node at 10, whose \<^verbatim>\<open>next\<close> owns the node at 11.
  \<open>unique_list_gone\<close> is that state once \<^verbatim>\<open>delete\<close> has run on the first node.
\<close>

definition unique_list :: "nat ustate" where
  "unique_list =
     \<lparr>uptr = [0 \<mapsto> (Some 10, CustomDeleter)],
      heap = [(10, ULinked (Some 11, CustomDeleter)), (11, ULinked (None, CustomDeleter))],
      calls = []\<rparr>"

definition unique_list_gone :: "nat ustate" where
  "unique_list_gone =
     \<lparr>uptr = [0 \<mapsto> (Some 10, CustomDeleter)], heap = [],
      calls = [(CustomDeleter, Some 10), (CustomDeleter, Some 11)]\<rparr>"

text \<open>
  \<^verbatim>\<open>UniquePtr<T, D> u;\<close> with a deleter \<open>D\<close> of the program: an empty handle at
  address 0. In \<open>two_unique_empty\<close> there is a second handle, at address 2, that owns
  an object.
\<close>

definition unique_empty :: "nat ustate" where
  "unique_empty = \<lparr>uptr = [0 \<mapsto> (None, Policy 0)], heap = [], calls = []\<rparr>"

definition two_unique_empty :: "nat ustate" where
  "two_unique_empty =
     \<lparr>uptr = [0 \<mapsto> (None, Policy 0), 2 \<mapsto> (Some 9, Policy 1)], heap = [], calls = []\<rparr>"

section \<open>Sequences of operations over one control block\<close>

text \<open>
  The statements of a program that build, copy, move, assign, reset, swap, lock and
  destroy handles without allocating a control block. The first variable is the handle
  the statement is about (\<open>this\<close>), the second its argument.
\<close>

datatype op =
    SharedDefault var
  | SharedCopy var var
  | SharedMove var var
  | SharedAlias var var "addr option"
  | SharedPromote var var
  | SharedAssign var var
  | SharedMoveAssign var var
  | SharedReset var
  | SharedSwap var var
  | SharedDestroy var
  | WeakDefault var
  | WeakCopy var var
  | WeakMove var var
  | WeakDemote var var
  | WeakAssign var var
  | WeakMoveAssign var var
  | WeakReset var
  | WeakSwap var var
  | WeakDestroy var
  | WeakLock var var

fun exec :: "op \<Rightarrow> state \<Rightarrow> error + state" where
  "exec (SharedDefault x) s = new_SharedPtr x s"
| "exec (SharedCopy x y) s = new_SharedPtr_copy x y s"
| "exec (SharedMove x y) s = new_SharedPtr_move x y s"
| "exec (SharedAlias x y p) s = new_SharedPtr_alias x y p s"
| "exec (SharedPromote x w) s = new_SharedPtr_promote x w s"
| "exec (SharedAssign x y) s = SharedPtr_assign (Var x) (Var y) s"
| "exec (SharedMoveAssign x y) s = SharedPtr_move_assign (Var x) (Var y) s"
| "exec (SharedReset x) s = SharedPtr_Reset (Var x) s"
| "exec (SharedSwap x y) s = SharedPtr_Swap x y s"
| "exec (SharedDestroy x) s = delete_SharedPtr x s"
| "exec (WeakDefault w) s = new_WeakPtr w s"
| "exec (WeakCopy w v) s = new_WeakPtr_copy w v s"
| "exec (WeakMove w v) s = new_WeakPtr_move w v s"
| "exec (WeakDemote w x) s = new_WeakPtr_demote w x s"
| "exec (WeakAssign w v) s = WeakPtr_assign w v s"
| "exec (WeakMoveAssign w v) s = WeakPtr_move_assign w v s"
| "exec (WeakReset w) s = WeakPtr_Reset w s"
| "exec (WeakSwap w v) s = WeakPtr_Swap w v s"
| "exec (WeakDestroy w) s = delete_WeakPtr w s"
| "exec (WeakLock x w) s = WeakPtr_Lock x w s"

text \<open>
  A statement inside \<^verbatim>\<open>try { ... } catch (BadWeakPtr&) { }\<close>: a constructor that throws
  builds no handle, and the program goes on in the state it was in. Every other error
  ends the run.
\<close>

definition step :: "op \<Rightarrow> state \<Rightarrow> error + state" where
  "step c s = (case exec c s of Inl BadWeakPtr \<Rightarrow> Inr s | Inl e \<Rightarrow> Inl e | Inr s' \<Rightarrow> Inr s')"

fun run :: "op list \<Rightarrow> state \<Rightarrow> error + state" where
  "run [] s = Inr s"
| "run (c # cs) s = and_then (step c s) (run cs)"

text \<open>
  How the one control block comes to be, in a program that holds nothing yet: by
  \<^verbatim>\<open>SharedPtr<X> x = MakeShared<X>();\<close> when \<open>in_place\<close>, and otherwise by
  \<^verbatim>\<open>SharedPtr<X> x(new X);\<close>. \<open>enabled\<close> says whether \<open>X\<close> embeds the mixin. The object
  is at address 0 either way, the block at \<open>start_block in_place\<close>.
\<close>

definition start :: "bool \<Rightarrow> bool \<Rightarrow> var \<Rightarrow> error + state" where
  "start in_place enabled x =
     (if in_place then new_SharedPtr_MakeShared enabled x empty_state
      else
        (let (a, m) = new_object (if enabled then Enabled null_handle else Plain) empty_memory
         in new_SharedPtr_raw enabled x (Some a) (empty_state\<lparr>mem := m\<rparr>)))"

definition start_block :: "bool \<Rightarrow> bref" where
  "start_block in_place = (if in_place then 0 else 1)"

text \<open>The state \<open>start\<close> returns (lemma \<open>start_eq\<close>).\<close>

definition start_handle :: "bool \<Rightarrow> handle" where
  "start_handle in_place = \<lparr>ptr = Some 0, block = Some (start_block in_place)\<rparr>"

definition start_variant :: "bool \<Rightarrow> variant" where
  "start_variant in_place =
     (if in_place then ControlBlockHolder 0 else ControlBlockPointer (Some 0))"

definition start_state :: "bool \<Rightarrow> bool \<Rightarrow> var \<Rightarrow> state" where
  "start_state in_place enabled x =
     \<lparr>sptr = [x \<mapsto> start_handle in_place], wptr = Map.empty,
      mem = \<lparr>blocks = [start_block in_place \<mapsto>
                 \<lparr>strong_counter = 1, weak_counter = (if enabled then 1 else 0),
                  variant = start_variant in_place\<rparr>],
             objects = [0 \<mapsto> (if enabled then Enabled (start_handle in_place) else Plain)],
             destroyed = [], freed = [], brk = (if in_place then 1 else 2)\<rparr>\<rparr>"

text \<open>
  States of two runs. After \<^verbatim>\<open>auto a = MakeShared<T>(); auto b = a;\<close> and the end of \<open>a\<close>,
  \<open>b\<close> (at address 1) is the last owner; after the end of \<open>b\<close> too, all is gone.
\<close>

definition last_owner :: state where
  "last_owner =
     \<lparr>sptr = [1 \<mapsto> \<lparr>ptr = Some 0, block = Some 0\<rparr>], wptr = Map.empty,
      mem = \<lparr>blocks = [0 \<mapsto> \<lparr>strong_counter = 1, weak_counter = 0, variant = ControlBlockHolder 0\<rparr>],
             objects = [0 \<mapsto> Plain], destroyed = [], freed = [], brk = 1\<rparr>\<rparr>"

definition all_gone :: state where
  "all_gone =
     \<lparr>sptr = Map.empty, wptr = Map.empty,
      mem = \<lparr>blocks = Map.empty, objects = Map.empty, destroyed = [0], freed = [0], brk = 1\<rparr>\<rparr>"

text \<open>
  For \<open>T\<close> with the mixin: after \<^verbatim>\<open>SharedPtr<T> a(new T); WeakPtr<T> w(a);\<close> the object at
  address 0 has an owner and an observer besides its own \<^verbatim>\<open>weak_this_\<close>; after the end of
  \<open>a\<close> only the observer is left; after the end of \<open>w\<close> all is gone.
\<close>

definition mixin_owner_observer :: state where
  "mixin_owner_observer =
     \<lparr>sptr = [0 \<mapsto> \<lparr>ptr = Some 0, block = Some 1\<rparr>],
      wptr = [0 \<mapsto> \<lparr>ptr = Some 0, block = Some 1\<rparr>],
      mem = \<lparr>blocks = [1 \<mapsto> \<lparr>strong_counter = 1, weak_counter = 2,
                                variant = ControlBlockPointer (Some 0)\<rparr>],
             objects = [0 \<mapsto> Enabled \<lparr>ptr = Some 0, block = Some 1\<rparr>],
             destroyed = [], freed = [], brk = 2\<rparr>\<rparr>"

definition observer_only :: state where
  "observer_only =
     \<lparr>sptr = Map.empty, wptr = [0 \<mapsto> \<lparr>ptr = Some 0, block = Some 1\<rparr>],
      mem = \<lparr>blocks = [1 \<mapsto> \<lparr>strong_counter = 0, weak_counter = 1,
                                variant = ControlBlockPointer (Some 0)\<rparr>],
             objects = Map.empty, destroyed = [0], freed = [], brk = 2\<rparr>\<rparr>"

definition mixin_all_gone :: state where
  "mixin_all_gone =
     \<lparr>sptr = Map.empty, wptr = Map.empty,
      mem = \<lparr>blocks = Map.empty, objects = Map.empty, destroyed = [0], freed = [1], brk = 2\<rparr>\<rparr>"

text \<open>
  What a program can observe, and what the statements below count. The counters of a
  block that has been freed are gone; \<open>strong_count\<close> and \<open>weak_count\<close> are 0 for it.
  \<open>holders b f\<close> is the number of live handles in the store \<open>f\<close> whose block pointer is \<open>b\<close>.
\<close>

definition strong_count :: "memory \<Rightarrow> bref \<Rightarrow> int" where
  "strong_count m b = (case blocks m b of None \<Rightarrow> 0 | Some c \<Rightarrow> strong_counter c)"

definition weak_count :: "memory \<Rightarrow> bref \<Rightarrow> int" where
  "weak_count m b = (case blocks m b of None \<Rightarrow> 0 | Some c \<Rightarrow> weak_counter c)"

definition holders :: "bref \<Rightarrow> (var \<rightharpoonup> handle) \<Rightarrow> nat" where
  "holders b f = card {x. \<exists>h. f x = Some h \<and> block h = Some b}"

definition bnd :: "bref \<Rightarrow> handle \<Rightarrow> int" where
  "bnd b h = (if block h = Some b then 1 else 0)"

text \<open>
  The invariant of such a program. With \<open>n\<close> strong and \<open>k\<close> weak handles bound to the
  block \<open>b\<close> of the object \<open>a\<close>, the memory is in one of three phases: owned (the counters
  are \<open>n\<close> and \<open>k\<close>, plus one weak registration for the wired mixin; nothing destroyed or
  freed), expired (the object destroyed once, the block kept with counters 0 and \<open>k\<close>),
  and gone (the object destroyed once, the block freed once).
\<close>

definition heap_ok :: "bref \<Rightarrow> addr \<Rightarrow> bool \<Rightarrow> variant \<Rightarrow> memory \<Rightarrow> int \<Rightarrow> int \<Rightarrow> bool" where
  "heap_ok b a e v m n k \<longleftrightarrow>
     (0 < n \<longrightarrow>
        blocks m b = Some \<lparr>strong_counter = n, weak_counter = k + (if e then 1 else 0), variant = v\<rparr> \<and>
        objects m a = Some (if e then Enabled \<lparr>ptr = Some a, block = Some b\<rparr> else Plain) \<and>
        destroyed m = [] \<and> freed m = []) \<and>
     (n = 0 \<and> 0 < k \<longrightarrow>
        blocks m b = Some \<lparr>strong_counter = 0, weak_counter = k, variant = v\<rparr> \<and>
        objects m a = None \<and> destroyed m = [a] \<and> freed m = []) \<and>
     (n = 0 \<and> k = 0 \<longrightarrow>
        blocks m b = None \<and> objects m a = None \<and> destroyed m = [a] \<and> freed m = [b])"

definition single_block :: "bref \<Rightarrow> addr \<Rightarrow> bool \<Rightarrow> variant \<Rightarrow> state \<Rightarrow> bool" where
  "single_block b a e v s \<longleftrightarrow>
     finite (dom (sptr s)) \<and> finite (dom (wptr s)) \<and>
     (\<forall>x h. sptr s x = Some h \<longrightarrow> block h = None \<or> block h = Some b) \<and>
     (\<forall>x h. wptr s x = Some h \<longrightarrow> block h = None \<or> block h = Some b) \<and>
     (v = ControlBlockPointer (Some a) \<or> v = ControlBlockHolder a) \<and>
     heap_ok b a e v (mem s) (int (holders b (sptr s))) (int (holders b (wptr s)))"

text \<open>
  One statement takes a program that keeps the invariant from \<open>s\<close> to \<open>s'\<close>: the invariant
  holds again, at most one owner is lost, and handles never come back to a block that none
  owns, or that none holds at all.
\<close>

definition moves_to :: "bref \<Rightarrow> addr \<Rightarrow> bool \<Rightarrow> variant \<Rightarrow> state \<Rightarrow> state \<Rightarrow> bool" where
  "moves_to b a e v s s' \<longleftrightarrow>
     single_block b a e v s' \<and>
     holders b (sptr s) \<le> holders b (sptr s') + 1 \<and>
     (holders b (sptr s) = 0 \<longrightarrow> holders b (sptr s') = 0) \<and>
     (holders b (sptr s) = 0 \<and> holders b (wptr s) = 0 \<longrightarrow> holders b (wptr s') = 0)"

text \<open>
  The promoting constructor applied to a \<^verbatim>\<open>WeakPtr\<close> with a null block pointer: the one
  statement of these programs that ends in a null dereference.
\<close>

definition promotes_unbound :: "op \<Rightarrow> state \<Rightarrow> bool" where
  "promotes_unbound c s =
     (case c of
        SharedPromote x w \<Rightarrow> (case wptr s w of None \<Rightarrow> False | Some h \<Rightarrow> block h = None)
      | _ \<Rightarrow> False)"

definition outcome :: "bref \<Rightarrow> addr \<Rightarrow> bool \<Rightarrow> variant \<Rightarrow> state \<Rightarrow> error + state \<Rightarrow> bool" where
  "outcome b a e v s r \<longleftrightarrow>
     r = Inl IllFormed \<or> (\<exists>s'. r = Inr s' \<and> moves_to b a e v s s')"


section \<open>Basic facts\<close>

lemma and_then_Inl [simp]: "and_then (Inl e) f = Inl e"
  by (simp add: and_then_def)

lemma and_then_Inr [simp]: "and_then (Inr x) f = f x"
  by (simp add: and_then_def)

lemma handle_update_all [simp]: "h\<lparr>ptr := a, block := b\<rparr> = \<lparr>ptr = a, block = b\<rparr>"
  by (cases h) simp

lemma handle_eta [simp]: "\<lparr>ptr = ptr h, block = block h\<rparr> = h"
  by (cases h) simp

lemma and_then_eq_Inr: "and_then r f = Inr y \<longleftrightarrow> (\<exists>x. r = Inr x \<and> f x = Inr y)"
  by (cases r) simp_all

lemma size_t_of_int_small: "0 \<le> i \<Longrightarrow> i < 2 ^ 31 \<Longrightarrow> size_t_of_int i = nat i"
  by (simp add: size_t_of_int_def)

text \<open>
  The equations of the release cascade are unfolded by name only. \<open>DeleteObject_eq\<close>,
  \<open>Decrement_eq\<close> and \<open>Decrement_basic_eq\<close> are the equations with every step written
  with \<open>and_then\<close>.
\<close>

declare destroy_object.simps [simp del] DeleteObject.simps [simp del] Decrement.simps [simp del]
declare destroy_object_basic.simps [simp del] DeleteObject_basic.simps [simp del]
declare Decrement_basic.simps [simp del] invoke.simps [simp del]

lemmas destroy_object_eq = destroy_object.simps

lemmas destroy_object_basic_eq = destroy_object_basic.simps

lemma DeleteObject_eq:
  "DeleteObject p m =
     and_then (deref p m) (\<lambda>c.
       case variant c of
         ControlBlockPointer q \<Rightarrow> (case q of None \<Rightarrow> Inr m | Some a \<Rightarrow> destroy_object a m)
       | ControlBlockHolder a \<Rightarrow> destroy_object a m)"
  by (simp add: DeleteObject.simps and_then_def)

lemma DeleteObject_basic_eq:
  "DeleteObject_basic p m =
     and_then (deref p m) (\<lambda>c.
       case variant c of
         ControlBlockPointer q \<Rightarrow> (case q of None \<Rightarrow> Inr m | Some a \<Rightarrow> destroy_object_basic a m)
       | ControlBlockHolder a \<Rightarrow> destroy_object_basic a m)"
  by (simp add: DeleteObject_basic.simps and_then_def)

lemma Decrement_eq:
  "Decrement this m =
     (if block this \<noteq> None then
        and_then (DecreaseStrongCounter (block this) m) (\<lambda>m1.
        and_then (GetStrongCounter (block this) m1) (\<lambda>s.
        and_then (GetWeakCounter (block this) m1) (\<lambda>w.
          if s = 0 \<and> w \<noteq> 0 then
            and_then (DeleteObject (block this) m1) (\<lambda>m2.
            and_then (GetWeakCounter (block this) m2) (\<lambda>w2.
              if w2 = 0 then delete_block (block this) m2 else Inr m2))
          else if s = 0 \<and> w = 0 then
            and_then (DeleteObject (block this) m1) (\<lambda>m2. delete_block (block this) m2)
          else Inr m1)))
      else Inr m)"
  by (auto simp: Decrement.simps and_then_def split: sum.splits)

lemma Decrement_basic_eq:
  "Decrement_basic this m =
     (if block this \<noteq> None then
        and_then (DecreaseStrongCounter (block this) m) (\<lambda>m1.
        and_then (GetStrongCounter (block this) m1) (\<lambda>s.
          if s = 0 then
            and_then (DeleteObject_basic (block this) m1) (\<lambda>m2. delete_block (block this) m2)
          else Inr m1))
      else Inr m)"
  by (auto simp: Decrement_basic.simps and_then_def split: sum.splits)

subsection \<open>What the decrements and the wiring constructors do\<close>

text \<open>The control block primitives, unfolded together.\<close>

lemmas prim_defs = deref_def store_def GetStrongCounter_def GetWeakCounter_def
  IncreaseStrongCounter_def IncreaseWeakCounter_def DecreaseStrongCounter_def
  DecreaseWeakCounter_def delete_block_def

lemma WeakPtr_Decrement_null [simp]: "block w = None \<Longrightarrow> WeakPtr_Decrement w m = Inr m"
  by (simp add: WeakPtr_Decrement_def)

lemma Decrement_null [simp]: "block h = None \<Longrightarrow> Decrement h m = Inr m"
  by (simp add: Decrement_eq)

text \<open>
  On a block without weak registrations, shared by several owners or owned by the last
  owner of a \<open>Plain\<close> object, the two headers release in the same way.
\<close>

lemma Decrement_basic_plain:
  assumes "block h = None \<or>
           (\<exists>b c. block h = Some b \<and> blocks m b = Some c \<and> weak_counter c = 0 \<and>
              (strong_counter c = 1 \<longrightarrow>
                 GetPointer c = None \<or> (\<exists>a. GetPointer c = Some a \<and> objects m a = Some Plain)))"
  shows "Decrement_basic h m = Decrement h m"
proof (cases "block h")
  case None
  then show ?thesis by (simp add: Decrement_basic_eq Decrement_eq)
next
  case (Some b)
  with assms obtain c where c: "blocks m b = Some c" "weak_counter c = 0"
    and p: "strong_counter c = 1 \<longrightarrow>
              GetPointer c = None \<or> (\<exists>a. GetPointer c = Some a \<and> objects m a = Some Plain)"
    by auto
  show ?thesis
  proof (cases "strong_counter c = 1")
    case False
    then show ?thesis using Some c by (simp add: Decrement_basic_eq Decrement_eq prim_defs)
  next
    case True
    let ?m1 = "m\<lparr>blocks := (blocks m)(b \<mapsto> c\<lparr>strong_counter := strong_counter c - 1\<rparr>)\<rparr>"
    have "DeleteObject_basic (Some b) ?m1 = DeleteObject (Some b) ?m1"
      using p True
      by (cases "variant c")
         (auto simp: DeleteObject_eq DeleteObject_basic_eq prim_defs GetPointer_def
            destroy_object_eq destroy_object_basic_eq)
    then show ?thesis
      using Some c True by (simp add: Decrement_basic_eq Decrement_eq prim_defs)
  qed
qed

text \<open>
  The aliasing constructor of \<^verbatim>\<open>shared/shared.h\<close> over a parent that is null is a
  null dereference; over a bound parent it does what the later header does.
\<close>

lemma SharedPtr_alias_basic_null:
  "block other = None \<Longrightarrow> SharedPtr_alias_basic other p m = Inl NullDereference"
  by (simp add: SharedPtr_alias_basic_def GetBlock_def prim_defs)

lemma SharedPtr_alias_basic_bound:
  "block other \<noteq> None \<Longrightarrow> SharedPtr_alias_basic other p m = SharedPtr_alias other p m"
  by (simp add: SharedPtr_alias_basic_def SharedPtr_alias_def GetBlock_def)


lemma dtor_unwired: "block w = None \<Longrightarrow> EnableSharedFromThis_dtor w m = Inl NullDereference"
  by (simp add: EnableSharedFromThis_dtor_def prim_defs)

lemma Decrement_shared:
  assumes "block h = Some b" "blocks m b = Some c" "strong_counter c \<noteq> 1"
  shows "Decrement h m =
           Inr (m\<lparr>blocks := (blocks m)(b \<mapsto> c\<lparr>strong_counter := strong_counter c - 1\<rparr>)\<rparr>)"
  using assms by (simp add: Decrement_eq prim_defs)

lemma Decrement_last_plain:
  assumes "block h = Some b" "blocks m b = Some c" "strong_counter c = 1"
    and "GetPointer c = Some a" "objects m a = Some Plain"
  shows "Decrement h m =
           Inr (if weak_counter c = 0
                then m\<lparr>blocks := (blocks m)(b := None), objects := (objects m)(a := None),
                       destroyed := destroyed m @ [a], freed := freed m @ [b]\<rparr>
                else m\<lparr>blocks := (blocks m)(b \<mapsto> c\<lparr>strong_counter := 0\<rparr>),
                       objects := (objects m)(a := None), destroyed := destroyed m @ [a]\<rparr>)"
  using assms
  by (cases "variant c")
     (auto simp: Decrement_eq prim_defs DeleteObject_eq destroy_object_eq GetPointer_def)

lemma Decrement_last_enabled:
  assumes "block h = Some b" "blocks m b = Some c" "strong_counter c = 1"
    and "GetPointer c = Some a" "objects m a = Some (Enabled w)" "block w = Some b"
    and "weak_counter c \<noteq> 0"
  shows "Decrement h m =
           Inr (if weak_counter c = 1
                then m\<lparr>blocks := (blocks m)(b := None), objects := (objects m)(a := None),
                       destroyed := destroyed m @ [a], freed := freed m @ [b]\<rparr>
                else m\<lparr>blocks := (blocks m)(b \<mapsto> c\<lparr>strong_counter := 0,
                                                      weak_counter := weak_counter c - 1\<rparr>),
                       objects := (objects m)(a := None), destroyed := destroyed m @ [a]\<rparr>)"
  using assms
  by (cases "variant c")
     (auto simp: Decrement_eq prim_defs DeleteObject_eq destroy_object_eq GetPointer_def
        EnableSharedFromThis_dtor_def)

lemma Decrement_last_unwired:
  assumes "block h = Some b" "blocks m b = Some c" "strong_counter c = 1"
    and "GetPointer c = Some a" "objects m a = Some (Enabled w)" "block w = None"
  shows "Decrement h m = Inl NullDereference"
  using assms
  by (cases "variant c")
     (auto simp: Decrement_eq prim_defs DeleteObject_eq destroy_object_eq GetPointer_def
        EnableSharedFromThis_dtor_def)

lemma WeakPtr_Decrement_bound:
  assumes "block w = Some b" "blocks m b = Some c"
  shows "WeakPtr_Decrement w m =
           Inr (if strong_counter c = 0 \<and> weak_counter c = 1
                then m\<lparr>blocks := (blocks m)(b := None), freed := freed m @ [b]\<rparr>
                else m\<lparr>blocks := (blocks m)(b \<mapsto> c\<lparr>weak_counter := weak_counter c - 1\<rparr>)\<rparr>)"
  using assms by (auto simp: WeakPtr_Decrement_def prim_defs)

lemma SetWeakThis_fresh:
  assumes "objects m a = Some (Enabled null_handle)" "block h = Some b" "blocks m b = Some c"
    "strong_counter c \<noteq> 0"
  shows "SetWeakThis (Some a) h m =
           Inr (m\<lparr>blocks := (blocks m)(b \<mapsto> c\<lparr>weak_counter := weak_counter c + 1\<rparr>),
                  objects := (objects m)(a \<mapsto> Enabled \<lparr>ptr = ptr h, block = Some b\<rparr>)\<rparr>)"
  using assms
  by (simp add: SetWeakThis_def SharedPtr_copy_def WeakPtr_demote_def WeakPtr_move_def
      null_handle_def Decrement_eq prim_defs)

lemma SharedPtr_raw_enabled:
  assumes "objects m a = Some (Enabled null_handle)"
  shows "SharedPtr_raw True (Some a) m =
           Inr (\<lparr>ptr = Some a, block = Some (brk m)\<rparr>,
                m\<lparr>blocks := (blocks m)(brk m \<mapsto>
                       \<lparr>strong_counter = 1, weak_counter = 1, variant = ControlBlockPointer (Some a)\<rparr>),
                  objects := (objects m)(a \<mapsto> Enabled \<lparr>ptr = Some a, block = Some (brk m)\<rparr>),
                  brk := brk m + 1\<rparr>)"
  using assms
  by (simp add: SharedPtr_raw_def new_block_def SetWeakThis_fresh Let_def)

lemma SharedPtr_raw_plain:
  "SharedPtr_raw False p m =
           Inr (\<lparr>ptr = p, block = Some (brk m)\<rparr>,
                m\<lparr>blocks := (blocks m)(brk m \<mapsto>
                       \<lparr>strong_counter = 1, weak_counter = 0, variant = ControlBlockPointer p\<rparr>),
                  brk := brk m + 1\<rparr>)"
  by (simp add: SharedPtr_raw_def new_block_def Let_def)

lemma MakeShared_enabled:
  "MakeShared True m =
           Inr (\<lparr>ptr = Some (brk m), block = Some (brk m)\<rparr>,
                m\<lparr>blocks := (blocks m)(brk m \<mapsto>
                       \<lparr>strong_counter = 1, weak_counter = 1, variant = ControlBlockHolder (brk m)\<rparr>),
                  objects := (objects m)(brk m \<mapsto> Enabled \<lparr>ptr = Some (brk m), block = Some (brk m)\<rparr>),
                  brk := brk m + 1\<rparr>)"
  by (simp add: MakeShared_def new_block_def SetWeakThis_fresh Let_def)

lemma MakeShared_plain:
  "MakeShared False m =
           Inr (\<lparr>ptr = Some (brk m), block = Some (brk m)\<rparr>,
                m\<lparr>blocks := (blocks m)(brk m \<mapsto>
                       \<lparr>strong_counter = 1, weak_counter = 0, variant = ControlBlockHolder (brk m)\<rparr>),
                  objects := (objects m)(brk m \<mapsto> Plain),
                  brk := brk m + 1\<rparr>)"
  by (simp add: MakeShared_def new_block_def Let_def)

section \<open>Assignment and Reset between variables\<close>

text \<open>
  A release cannot end a variable, so between variables the functions that take
  references read the source and write the destination as they were before the release.
\<close>

lemma SharedPtr_at_Var: "SharedPtr_at (Var x) s = (case sptr s x of None \<Rightarrow> Inl IllFormed | Some h \<Rightarrow> Inr h)"
  by (simp add: SharedPtr_at_def)

lemma SharedPtr_put_Var:
  "SharedPtr_put (Var x) h s =
     (case sptr s x of None \<Rightarrow> Inl IllFormed | Some _ \<Rightarrow> Inr (s\<lparr>sptr := (sptr s)(x \<mapsto> h)\<rparr>))"
  by (simp add: SharedPtr_put_def)

lemma SharedPtr_assign_Var:
  "SharedPtr_assign (Var this) (Var other) s =
     (case (sptr s this, sptr s other) of
        (Some me, Some oth) \<Rightarrow>
          if this \<noteq> other then
            and_then (Decrement me (mem s)) (\<lambda>m1.
              let me' = me\<lparr>ptr := ptr oth, block := block oth\<rparr> in
              if block me' \<noteq> None then
                and_then (IncreaseStrongCounter (block me') m1) (\<lambda>m2.
                  Inr (s\<lparr>sptr := (sptr s)(this \<mapsto> me'), mem := m2\<rparr>))
              else Inr (s\<lparr>sptr := (sptr s)(this \<mapsto> me'), mem := m1\<rparr>))
          else Inr s
      | _ \<Rightarrow> Inl IllFormed)"
  by (cases "sptr s this"; cases "sptr s other"; cases "Decrement (the (sptr s this)) (mem s)")
     (auto simp: SharedPtr_assign_def SharedPtr_at_Var SharedPtr_put_Var Let_def and_then_def
           split: sum.splits)

lemma SharedPtr_move_assign_Var:
  "SharedPtr_move_assign (Var this) (Var other) s =
     (case (sptr s this, sptr s other) of
        (Some me, Some oth) \<Rightarrow>
          if this = other then Inr s
          else
            and_then (Decrement me (mem s)) (\<lambda>m1.
              Inr (s\<lparr>sptr := (sptr s)(this \<mapsto> me\<lparr>ptr := ptr oth, block := block oth\<rparr>,
                                       other \<mapsto> oth\<lparr>ptr := None, block := None\<rparr>),
                     mem := m1\<rparr>))
      | _ \<Rightarrow> Inl IllFormed)"
  by (cases "sptr s this"; cases "sptr s other"; cases "Decrement (the (sptr s this)) (mem s)")
     (auto simp: SharedPtr_move_assign_def SharedPtr_at_Var SharedPtr_put_Var and_then_def
           split: sum.splits)

lemma SharedPtr_Reset_Var:
  "SharedPtr_Reset (Var this) s =
     (case sptr s this of
        None \<Rightarrow> Inl IllFormed
      | Some me \<Rightarrow>
          and_then (Decrement me (mem s)) (\<lambda>m1.
            Inr (s\<lparr>sptr := (sptr s)(this \<mapsto> me\<lparr>ptr := None, block := None\<rparr>), mem := m1\<rparr>)))"
  by (cases "sptr s this"; cases "Decrement (the (sptr s this)) (mem s)")
     (auto simp: SharedPtr_Reset_def SharedPtr_at_Var SharedPtr_put_Var and_then_def
           split: sum.splits)

lemma SharedPtr_Reset_raw_Var:
  "SharedPtr_Reset_raw (Var this) p s =
     (case sptr s this of
        None \<Rightarrow> Inl IllFormed
      | Some me \<Rightarrow>
          and_then (Decrement me (mem s)) (\<lambda>m1.
            let (b, m2) = new_block (ControlBlockPointer p) m1 in
            Inr (s\<lparr>sptr := (sptr s)(this \<mapsto> me\<lparr>ptr := p, block := Some b\<rparr>), mem := m2\<rparr>)))"
  by (cases "sptr s this"; cases "Decrement (the (sptr s this)) (mem s)")
     (auto simp: SharedPtr_Reset_raw_def SharedPtr_at_Var SharedPtr_put_Var and_then_def new_block_def
           split: sum.splits)

section \<open>Promotion of a WeakPtr\<close>

lemma SharedPtr_promote_bound:
  assumes "block w = Some b" "blocks m b = Some c"
  shows "SharedPtr_promote w m =
           (if strong_counter c = 0 then Inl BadWeakPtr
            else Inr (w, m\<lparr>blocks := (blocks m)(b \<mapsto> c\<lparr>strong_counter := strong_counter c + 1\<rparr>)\<rparr>))"
  using assms by (cases w) (simp add: SharedPtr_promote_def prim_defs)

text \<open>
  C3. The claim: the promoting constructor throws \<^verbatim>\<open>BadWeakPtr\<close> and changes no counter
  when the strong count is 0, also for a \<^verbatim>\<open>WeakPtr\<close> whose block pointer is null, and
  otherwise shares the block and adds one to the strong count. For a bound \<^verbatim>\<open>WeakPtr\<close>
  this is \<open>SharedPtr_promote_bound\<close>. For a default-constructed \<^verbatim>\<open>WeakPtr\<close> the
  constructor reads the strong counter through the null block pointer before it tests the
  pointer: the outcome is a null dereference, not \<^verbatim>\<open>BadWeakPtr\<close>.
\<close>

theorem promote_unbound_null_dereference:
  "SharedPtr_promote WeakPtr_default m = Inl NullDereference"
  by (simp add: SharedPtr_promote_def WeakPtr_default_def prim_defs)

section \<open>Lock, Expired, UseCount\<close>

text \<open>
  C5. \<^verbatim>\<open>Lock\<close> of an unbound \<^verbatim>\<open>WeakPtr\<close>, or of one whose block has strong count 0,
  returns the null \<^verbatim>\<open>SharedPtr\<close> and changes nothing; otherwise it returns a handle with
  the same pointer and block, and the strong count is one higher. \<^verbatim>\<open>Expired\<close> is true
  exactly when the strong count is 0, and always when unbound; \<^verbatim>\<open>UseCount\<close> is the strong
  count, and 0 when unbound. The strong count is a non-negative C++ \<^verbatim>\<open>int\<close>.
\<close>

theorem weak_lock_expired_use_count:
  "(block w = None \<longrightarrow>
      Lock w m = Inr (null_handle, m) \<and> Expired w m = Inr True \<and> UseCount w m = Inr 0) \<and>
   (block w = Some b \<and> blocks m b = Some c \<longrightarrow>
      (strong_counter c = 0 \<longrightarrow> Lock w m = Inr (null_handle, m)) \<and>
      (strong_counter c \<noteq> 0 \<longrightarrow>
         Lock w m = Inr (\<lparr>ptr = ptr w, block = Some b\<rparr>,
                         m\<lparr>blocks := (blocks m)(b \<mapsto> c\<lparr>strong_counter := strong_counter c + 1\<rparr>)\<rparr>)) \<and>
      (0 \<le> strong_counter c \<and> strong_counter c < 2 ^ 31 \<longrightarrow>
         Expired w m = Inr (strong_counter c = 0) \<and>
         UseCount w m = Inr (nat (strong_counter c))))"
  by (auto simp: Lock_def Expired_def UseCount_def SharedPtr_default_def null_handle_def
        SharedPtr_promote_def prim_defs size_t_of_int_small)

theorem weak_lock_expired_use_count_witness:
  "Lock null_handle expired_memory = Inr (null_handle, expired_memory) \<and>
   Expired null_handle expired_memory = Inr True \<and>
   UseCount null_handle expired_memory = Inr 0 \<and>
   Lock \<lparr>ptr = Some 0, block = Some 0\<rparr> expired_memory = Inr (null_handle, expired_memory) \<and>
   Expired \<lparr>ptr = Some 0, block = Some 0\<rparr> expired_memory = Inr True \<and>
   Lock \<lparr>ptr = Some 0, block = Some 0\<rparr> (mem owner_and_observer) =
     Inr (\<lparr>ptr = Some 0, block = Some 0\<rparr>,
          (mem owner_and_observer)\<lparr>blocks :=
             [0 \<mapsto> \<lparr>strong_counter = 2, weak_counter = 1, variant = ControlBlockHolder 0\<rparr>]\<rparr>) \<and>
   Expired \<lparr>ptr = Some 0, block = Some 0\<rparr> (mem owner_and_observer) = Inr False \<and>
   UseCount \<lparr>ptr = Some 0, block = Some 0\<rparr> (mem owner_and_observer) = Inr 1"
  using weak_lock_expired_use_count [of null_handle expired_memory 0
      "\<lparr>strong_counter = 0, weak_counter = 1, variant = ControlBlockHolder 0\<rparr>"]
    weak_lock_expired_use_count [of "\<lparr>ptr = Some 0, block = Some 0\<rparr>" expired_memory 0
      "\<lparr>strong_counter = 0, weak_counter = 1, variant = ControlBlockHolder 0\<rparr>"]
    weak_lock_expired_use_count [of "\<lparr>ptr = Some 0, block = Some 0\<rparr>" "mem owner_and_observer" 0
      "\<lparr>strong_counter = 1, weak_counter = 1, variant = ControlBlockHolder 0\<rparr>"]
  by (simp add: null_handle_def expired_memory_def owner_and_observer_def)

section \<open>Self-assignment\<close>

text \<open>
  C7. Copy or move assignment of a live \<^verbatim>\<open>SharedPtr\<close> or \<^verbatim>\<open>WeakPtr\<close> to itself, and
  move assignment of a live \<^verbatim>\<open>UniquePtr\<close> to itself (it has no copy assignment), return
  the state they were given: every handle, every counter, the objects and both logs are
  unchanged, and the deleter is not invoked. This holds of a handle that is a variable
  and of a \<^verbatim>\<open>SharedPtr\<close> or \<^verbatim>\<open>UniquePtr\<close> that is a member of a live object.
\<close>

theorem self_assignment_unchanged:
  "(sptr s x \<noteq> None \<longrightarrow>
      SharedPtr_assign (Var x) (Var x) s = Inr s \<and> SharedPtr_move_assign (Var x) (Var x) s = Inr s) \<and>
   (wptr s x \<noteq> None \<longrightarrow> WeakPtr_assign x x s = Inr s \<and> WeakPtr_move_assign x x s = Inr s) \<and>
   (uptr u x \<noteq> None \<longrightarrow> UniquePtr_move_assign (Var x) (Var x) u = Inr u) \<and>
   (SharedPtr_at (Member a) s = Inr h \<longrightarrow>
      SharedPtr_assign (Member a) (Member a) s = Inr s \<and>
      SharedPtr_move_assign (Member a) (Member a) s = Inr s) \<and>
   (UniquePtr_at (Member a) u = Inr pair \<longrightarrow>
      UniquePtr_move_assign (Member a) (Member a) u = Inr u)"
  by (auto simp: SharedPtr_assign_def SharedPtr_move_assign_def WeakPtr_assign_def
        WeakPtr_move_assign_def UniquePtr_move_assign_def SharedPtr_at_def UniquePtr_at_def)

theorem self_assignment_unchanged_witness:
  "sptr owner_and_observer 0 \<noteq> None \<and>
   SharedPtr_assign (Var 0) (Var 0) owner_and_observer = Inr owner_and_observer \<and>
   SharedPtr_move_assign (Var 0) (Var 0) owner_and_observer = Inr owner_and_observer \<and>
   wptr owner_and_observer 0 \<noteq> None \<and>
   WeakPtr_assign 0 0 owner_and_observer = Inr owner_and_observer \<and>
   WeakPtr_move_assign 0 0 owner_and_observer = Inr owner_and_observer \<and>
   uptr two_unique 0 \<noteq> None \<and>
   UniquePtr_move_assign (Var 0) (Var 0) two_unique = Inr two_unique \<and>
   SharedPtr_at (Member 0) linked_owner = Inr null_handle \<and>
   SharedPtr_assign (Member 0) (Member 0) linked_owner = Inr linked_owner \<and>
   SharedPtr_move_assign (Member 0) (Member 0) linked_owner = Inr linked_owner \<and>
   UniquePtr_at (Member 10) unique_list = Inr (Some 11, CustomDeleter) \<and>
   UniquePtr_move_assign (Member 10) (Member 10) unique_list = Inr unique_list"
proof -
  have v: "sptr owner_and_observer 0 \<noteq> None" "wptr owner_and_observer 0 \<noteq> None"
    "uptr two_unique 0 \<noteq> None"
    by (simp_all add: owner_and_observer_def two_unique_def)
  have m: "SharedPtr_at (Member 0) linked_owner = Inr null_handle"
    by (simp add: SharedPtr_at_def linked_owner_def)
  have k: "UniquePtr_at (Member 10) unique_list = Inr (Some 11, CustomDeleter)"
    by (simp add: UniquePtr_at_def unique_list_def)
  from self_assignment_unchanged [where s = owner_and_observer and x = 0 and u = two_unique] v
  have 1: "SharedPtr_assign (Var 0) (Var 0) owner_and_observer = Inr owner_and_observer"
    "SharedPtr_move_assign (Var 0) (Var 0) owner_and_observer = Inr owner_and_observer"
    "WeakPtr_assign 0 0 owner_and_observer = Inr owner_and_observer"
    "WeakPtr_move_assign 0 0 owner_and_observer = Inr owner_and_observer"
    "UniquePtr_move_assign (Var 0) (Var 0) two_unique = Inr two_unique"
    by blast+
  from self_assignment_unchanged [where s = linked_owner and a = 0 and h = null_handle] m
  have 2: "SharedPtr_assign (Member 0) (Member 0) linked_owner = Inr linked_owner"
    "SharedPtr_move_assign (Member 0) (Member 0) linked_owner = Inr linked_owner"
    by blast+
  from self_assignment_unchanged [where u = unique_list and a = 10
      and pair = "(Some 11, CustomDeleter)"] k
  have 3: "UniquePtr_move_assign (Member 10) (Member 10) unique_list = Inr unique_list"
    by blast
  show ?thesis using v m k 1 2 3 by blast
qed

section \<open>Equality of SharedPtrs\<close>

lemma SharedPtr_alias_bound:
  assumes "block a = Some b" "blocks m b = Some c"
  shows "SharedPtr_alias a p m =
           Inr (\<lparr>ptr = p, block = Some b\<rparr>,
                m\<lparr>blocks := (blocks m)(b \<mapsto> c\<lparr>strong_counter := strong_counter c + 1\<rparr>)\<rparr>)"
  using assms by (simp add: SharedPtr_alias_def GetBlock_def prim_defs)

text \<open>
  C8. \<^verbatim>\<open>operator==\<close> holds exactly when the two handles have the same observed pointer
  and the same control block pointer. So two aliasing handles built over parents with
  different blocks are unequal although their \<^verbatim>\<open>Get()\<close> agree, and two aliasing handles
  over one parent with different observed pointers are unequal although their blocks
  agree.
\<close>

theorem operator_eq_pointer_and_block:
  "(operator_eq l r \<longleftrightarrow> Get l = Get r \<and> GetBlock l = GetBlock r) \<and>
   (SharedPtr_alias p1 q m = Inr (a1, m1) \<and> SharedPtr_alias p2 q m1 = Inr (a2, m2) \<and>
      GetBlock p1 \<noteq> GetBlock p2 \<longrightarrow> Get a1 = Get a2 \<and> \<not> operator_eq a1 a2) \<and>
   (SharedPtr_alias p q1 m = Inr (a1', m1') \<and> SharedPtr_alias p q2 m1' = Inr (a2', m2') \<and>
      q1 \<noteq> q2 \<longrightarrow> GetBlock a1' = GetBlock a2' \<and> \<not> operator_eq a1' a2')"
  by (auto simp: operator_eq_def SharedPtr_alias_def Get_def GetBlock_def Let_def and_then_eq_Inr
        split: if_splits)

theorem operator_eq_pointer_and_block_witness:
  "(\<exists>a1 m1 a2 m2.
      SharedPtr_alias \<lparr>ptr = Some 0, block = Some 2\<rparr> (Some 0) two_blocks = Inr (a1, m1) \<and>
      SharedPtr_alias \<lparr>ptr = Some 1, block = Some 3\<rparr> (Some 0) m1 = Inr (a2, m2) \<and>
      GetBlock \<lparr>ptr = Some 0, block = Some 2\<rparr> \<noteq> GetBlock \<lparr>ptr = Some 1, block = Some 3\<rparr> \<and>
      Get a1 = Get a2 \<and> \<not> operator_eq a1 a2) \<and>
   (\<exists>a1 m1 a2 m2.
      SharedPtr_alias \<lparr>ptr = Some 0, block = Some 2\<rparr> (Some 0) two_blocks = Inr (a1, m1) \<and>
      SharedPtr_alias \<lparr>ptr = Some 0, block = Some 2\<rparr> (Some 1) m1 = Inr (a2, m2) \<and>
      GetBlock a1 = GetBlock a2 \<and> \<not> operator_eq a1 a2)"
proof -
  let ?p1 = "\<lparr>ptr = Some 0, block = Some 2\<rparr>"
  let ?p2 = "\<lparr>ptr = Some 1, block = Some 3\<rparr>"
  let ?c = "\<lparr>strong_counter = 1, weak_counter = 0, variant = ControlBlockPointer (Some 0)\<rparr>"
  let ?d = "\<lparr>strong_counter = 1, weak_counter = 0, variant = ControlBlockPointer (Some 1)\<rparr>"
  let ?m1 = "two_blocks\<lparr>blocks := (blocks two_blocks)(2 \<mapsto> ?c\<lparr>strong_counter := 2\<rparr>)\<rparr>"
  let ?m2 = "?m1\<lparr>blocks := (blocks ?m1)(3 \<mapsto> ?d\<lparr>strong_counter := 2\<rparr>)\<rparr>"
  let ?m3 = "?m1\<lparr>blocks := (blocks ?m1)(2 \<mapsto> ?c\<lparr>strong_counter := 3\<rparr>)\<rparr>"
  have 1: "SharedPtr_alias ?p1 (Some 0) two_blocks = Inr (\<lparr>ptr = Some 0, block = Some 2\<rparr>, ?m1)"
    using SharedPtr_alias_bound [of ?p1 2 two_blocks ?c "Some 0"] by (simp add: two_blocks_def)
  have 2: "SharedPtr_alias ?p2 (Some 0) ?m1 = Inr (\<lparr>ptr = Some 0, block = Some 3\<rparr>, ?m2)"
    using SharedPtr_alias_bound [of ?p2 3 ?m1 ?d "Some 0"] by (simp add: two_blocks_def)
  have 3: "SharedPtr_alias ?p1 (Some 1) ?m1 = Inr (\<lparr>ptr = Some 1, block = Some 2\<rparr>, ?m3)"
    using SharedPtr_alias_bound [of ?p1 2 ?m1 "?c\<lparr>strong_counter := 2\<rparr>" "Some 1"] by simp
  have ne: "GetBlock ?p1 \<noteq> GetBlock ?p2" by (simp add: GetBlock_def)
  note t = operator_eq_pointer_and_block
    [of "\<lparr>ptr = Some 0, block = Some 2\<rparr>" "\<lparr>ptr = Some 0, block = Some 3\<rparr>"
        ?p1 "Some 0" two_blocks "\<lparr>ptr = Some 0, block = Some 2\<rparr>" ?m1
        ?p2 "\<lparr>ptr = Some 0, block = Some 3\<rparr>" ?m2
        ?p1 "Some 0" "\<lparr>ptr = Some 0, block = Some 2\<rparr>" ?m1
        "Some 1" "\<lparr>ptr = Some 1, block = Some 2\<rparr>" ?m3]
  from t 1 2 ne have a: "Get \<lparr>ptr = Some 0, block = Some 2\<rparr> = Get \<lparr>ptr = Some 0, block = Some 3\<rparr> \<and>
      \<not> operator_eq \<lparr>ptr = Some 0, block = Some 2\<rparr> \<lparr>ptr = Some 0, block = Some 3\<rparr>"
    by blast
  from t 1 3 have b: "GetBlock \<lparr>ptr = Some 0, block = Some 2\<rparr> = GetBlock \<lparr>ptr = Some 1, block = Some 2\<rparr> \<and>
      \<not> operator_eq \<lparr>ptr = Some 0, block = Some 2\<rparr> \<lparr>ptr = Some 1, block = Some 2\<rparr>"
    by simp
  show ?thesis using 1 2 3 ne a b by blast
qed

section \<open>Teardown of an object that embeds EnableSharedFromThis\<close>



section \<open>Destroying an object whose self-reference was never wired\<close>

lemma destroy_object_enabled_ok:
  assumes "objects m a = Some (Enabled w)"
  shows "(\<exists>m'. destroy_object a m = Inr m') \<longleftrightarrow> (\<exists>b. block w = Some b \<and> blocks m b \<noteq> None)"
  using assms
  by (cases "block w")
     (auto simp: destroy_object_eq EnableSharedFromThis_dtor_def prim_defs and_then_eq_Inr
        split: option.splits)

text \<open>
  C10. The destructor of an object that embeds the mixin dereferences \<^verbatim>\<open>weak_this_\<close>'s
  block pointer without a test: when it is null the outcome is a null dereference, and
  the destructor completes exactly when \<^verbatim>\<open>weak_this_\<close> points to a block that exists.
  The raw-pointer constructor wires the object only when the handle's type \<open>X\<close> passes the
  compile-time test: a mixin-embedding object adopted by a handle whose \<open>X\<close> does not pass
  it stays unwired, and destroying the handle ends in the null dereference; adopted by a
  handle whose \<open>X\<close> passes, the object is wired and destroying the handle completes.
\<close>

theorem unwired_mixin_destruction:
  "(objects m a = Some (Enabled w) \<and> block w = None \<longrightarrow>
      destroy_object a m = Inl NullDereference) \<and>
   (objects m a = Some (Enabled w) \<longrightarrow>
      ((\<exists>m'. destroy_object a m = Inr m') \<longleftrightarrow> (\<exists>b. block w = Some b \<and> blocks m b \<noteq> None))) \<and>
   (objects m a = Some (Enabled null_handle) \<longrightarrow>
      (\<exists>h m1. SharedPtr_raw False (Some a) m = Inr (h, m1) \<and>
         objects m1 a = Some (Enabled null_handle) \<and> Decrement h m1 = Inl NullDereference) \<and>
      (\<exists>h m1 m2. SharedPtr_raw True (Some a) m = Inr (h, m1) \<and>
         objects m1 a = Some (Enabled h) \<and> Decrement h m1 = Inr m2))"
proof (intro conjI impI)
  assume "objects m a = Some (Enabled w) \<and> block w = None"
  then show "destroy_object a m = Inl NullDereference"
    by (simp add: destroy_object_eq dtor_unwired)
next
  assume "objects m a = Some (Enabled w)"
  then show "(\<exists>m'. destroy_object a m = Inr m') \<longleftrightarrow> (\<exists>b. block w = Some b \<and> blocks m b \<noteq> None)"
    by (rule destroy_object_enabled_ok)
next
  assume a: "objects m a = Some (Enabled null_handle)"
  let ?h = "\<lparr>ptr = Some a, block = Some (brk m)\<rparr>"
  let ?c = "\<lparr>strong_counter = 1, weak_counter = 0, variant = ControlBlockPointer (Some a)\<rparr>"
  let ?m = "m\<lparr>blocks := (blocks m)(brk m \<mapsto> ?c), brk := brk m + 1\<rparr>"
  have "Decrement ?h ?m = Inl NullDereference"
    using a Decrement_last_unwired [of ?h "brk m" ?m ?c a null_handle]
    by (simp add: GetPointer_def null_handle_def)
  then show "\<exists>h m1. SharedPtr_raw False (Some a) m = Inr (h, m1) \<and>
         objects m1 a = Some (Enabled null_handle) \<and> Decrement h m1 = Inl NullDereference"
    using a by (simp add: SharedPtr_raw_plain)
next
  assume a: "objects m a = Some (Enabled null_handle)"
  let ?h = "\<lparr>ptr = Some a, block = Some (brk m)\<rparr>"
  let ?c = "\<lparr>strong_counter = 1, weak_counter = 1, variant = ControlBlockPointer (Some a)\<rparr>"
  let ?m = "m\<lparr>blocks := (blocks m)(brk m \<mapsto> ?c),
              objects := (objects m)(a \<mapsto> Enabled ?h), brk := brk m + 1\<rparr>"
  have "\<exists>m2. Decrement ?h ?m = Inr m2"
    using Decrement_last_enabled [of ?h "brk m" ?m ?c a ?h] by (simp add: GetPointer_def)
  then show "\<exists>h m1 m2. SharedPtr_raw True (Some a) m = Inr (h, m1) \<and>
         objects m1 a = Some (Enabled h) \<and> Decrement h m1 = Inr m2"
    using a by (simp add: SharedPtr_raw_enabled)
qed

theorem unwired_mixin_destruction_witness:
  "objects fresh_enabled 0 = Some (Enabled null_handle) \<and> block null_handle = None \<and>
   destroy_object 0 fresh_enabled = Inl NullDereference \<and>
   (\<exists>h m1. SharedPtr_raw False (Some 0) fresh_enabled = Inr (h, m1) \<and>
      objects m1 0 = Some (Enabled null_handle) \<and> Decrement h m1 = Inl NullDereference) \<and>
   (\<exists>h m1 m2. SharedPtr_raw True (Some 0) fresh_enabled = Inr (h, m1) \<and>
      objects m1 0 = Some (Enabled h) \<and> Decrement h m1 = Inr m2)"
proof -
  have o: "objects fresh_enabled 0 = Some (Enabled null_handle)"
    by (simp add: fresh_enabled_def)
  have n: "block null_handle = None" by (simp add: null_handle_def)
  show ?thesis
    using unwired_mixin_destruction [of fresh_enabled 0 null_handle] o n by simp
qed

section \<open>UniquePtr: Release, Reset, move\<close>

text \<open>
  What holds of a \<^verbatim>\<open>UniquePtr\<close> that is a variable: \<^verbatim>\<open>Release\<close> returns the pointer and
  nulls it without a call of the deleter; move construction leaves the source null and
  gives the pair to the new handle without a call; the destructor calls the deleter
  exactly when the pointer is not null.
\<close>

lemma Release_owned:
  assumes "uptr u x = Some (p, d)"
  shows "Release (Var x) u = Inr (p, u\<lparr>uptr := (uptr u)(x \<mapsto> (None, d))\<rparr>)"
  using assms by (simp add: Release_def UniquePtr_at_def UniquePtr_put_def GetFirst_def GetSecond_def)

lemma new_UniquePtr_move_owned:
  assumes "uptr u x = Some (p, d)" "uptr u y = None"
  shows "new_UniquePtr_move d0 y (Var x) u =
           Inr (u\<lparr>uptr := (uptr u)(y \<mapsto> (p, d), x \<mapsto> (None, d0))\<rparr>)"
proof -
  have "x \<noteq> y" using assms by auto
  then show ?thesis
    using assms by (simp add: new_UniquePtr_move_def UniquePtr_at_def UniquePtr_put_def)
qed

lemma delete_UniquePtr_null:
  assumes "uptr u x = Some (None, d)"
  shows "delete_UniquePtr x u = Inr (u\<lparr>uptr := (uptr u)(x := None)\<rparr>)"
  using assms by (simp add: delete_UniquePtr_def GetFirst_def)

lemma delete_UniquePtr_policy:
  assumes "uptr u x = Some (Some a, Policy d)"
  shows "delete_UniquePtr x u =
           Inr (u\<lparr>uptr := (uptr u)(x := None), calls := calls u @ [(Policy d, Some a)]\<rparr>)"
  using assms by (simp add: delete_UniquePtr_def GetFirst_def GetSecond_def invoke.simps)

text \<open>
  C9. The claim fails in two ways, both evaluated here.

  Move assignment invokes the deleter on the destination's old pointer before it reads
  the source. In \<open>unique_list\<close>, \<^verbatim>\<open>head = std::move(head->next)\<close> first runs
  \<^verbatim>\<open>delete\<close> on the first node, whose destructor destroys \<^verbatim>\<open>next\<close> and with it the
  second node: the policy has run on the pointer \<open>p\<close> that was to be moved, the source
  is gone, and reading it is a use after free. Should the read still find \<open>p\<close>, the
  destination adopts a dangling pointer, and its destructor runs the policy on \<open>p\<close> a
  second time, which is a use after free again. \<^verbatim>\<open>Reset\<close> stores the new pointer before
  it calls the deleter: \<^verbatim>\<open>head.Reset(head->next.Release())\<close> moves \<open>p\<close> to \<open>head\<close> and
  runs the policy on the first node only.

  \<^verbatim>\<open>Reset\<close>, move assignment and assignment of \<^verbatim>\<open>nullptr\<close> invoke the deleter without
  testing the old pointer: on an empty \<^verbatim>\<open>UniquePtr\<close>, which owns no object, the policy
  is called with a null pointer. The destructor tests the pointer and calls nothing.
\<close>

theorem move_assign_deletes_before_reading:
  "invoke CustomDeleter (Some 10) unique_list = Inr unique_list_gone \<and>
   UniquePtr_at (Member 10) unique_list_gone = Inl UseAfterFree \<and>
   UniquePtr_move_assign (Var 0) (Member 10) unique_list = Inl UseAfterFree \<and>
   delete_UniquePtr 0 (unique_list_gone\<lparr>uptr := [0 \<mapsto> (Some 11, CustomDeleter)]\<rparr>) =
     Inl UseAfterFree \<and>
   and_then (Release (Member 10) unique_list) (\<lambda>(p, u). Reset (Var 0) p u) =
     Inr \<lparr>uptr = [0 \<mapsto> (Some 11, CustomDeleter)],
          heap = [(11, ULinked (None, CustomDeleter))],
          calls = [(CustomDeleter, Some 10)]\<rparr> \<and>
   Reset (Var 0) None unique_empty = Inr (unique_empty\<lparr>calls := [(Policy 0, None)]\<rparr>) \<and>
   UniquePtr_assign_nullptr (Var 0) unique_empty =
     Inr (unique_empty\<lparr>calls := [(Policy 0, None)]\<rparr>) \<and>
   UniquePtr_move_assign (Var 0) (Var 2) two_unique_empty =
     Inr \<lparr>uptr = [0 \<mapsto> (Some 9, Policy 1), 2 \<mapsto> (None, Policy 1)], heap = [],
          calls = [(Policy 0, None)]\<rparr> \<and>
   delete_UniquePtr 0 unique_empty = Inr \<lparr>uptr = Map.empty, heap = [], calls = []\<rparr>"
  by (simp add: unique_list_def unique_list_gone_def unique_empty_def two_unique_empty_def
      UniquePtr_move_assign_def UniquePtr_assign_nullptr_def UniquePtr_at_def UniquePtr_put_def
      Release_def Reset_def delete_UniquePtr_def invoke.simps GetFirst_def GetSecond_def
      Let_def fun_eq_iff)

section \<open>Copy and move of a SharedPtr\<close>










lemma two_owners_reachable:
  "and_then (new_SharedPtr_MakeShared False 0 empty_state) (new_SharedPtr_copy 1 0) = Inr two_owners"
  by (simp add: new_SharedPtr_MakeShared_def empty_state_def empty_memory_def MakeShared_plain
      new_SharedPtr_copy_def SharedPtr_copy_def prim_defs two_owners_def fun_eq_iff Let_def)










text \<open>
  The same with a second node behind the first. In \<open>linked_list\<close>,
  \<^verbatim>\<open>head = head->next\<close> releases the first node, whose destructor releases the second,
  the node that was to be adopted: both are destroyed before the source is read.
\<close>

lemma list_head_assign_next:
  "Decrement \<lparr>ptr = Some 0, block = Some 1\<rparr> (mem linked_list) =
     Inr \<lparr>blocks = Map.empty, objects = Map.empty, destroyed = [0, 2], freed = [3, 1], brk = 4\<rparr>"
  "SharedPtr_assign (Var 0) (Member 0) linked_list = Inl UseAfterFree"
  "SharedPtr_move_assign (Var 0) (Member 0) linked_list = Inl UseAfterFree"
  by (simp_all add: linked_list_def SharedPtr_assign_def SharedPtr_move_assign_def SharedPtr_at_def
      Decrement_eq DeleteObject_eq destroy_object_eq prim_defs null_handle_def fun_eq_iff)

section \<open>Counting the handles bound to a block\<close>

lemma bound_set_finite:
  assumes "finite (dom f)"
  shows "finite {x. \<exists>h. f x = Some h \<and> block h = Some b}"
  by (rule finite_subset [OF _ assms]) auto

lemma bound_set_update:
  "{x. \<exists>h. (f(y \<mapsto> g)) x = Some h \<and> block h = Some b} =
     ({x. \<exists>h. f x = Some h \<and> block h = Some b} - {y}) \<union> (if block g = Some b then {y} else {})"
  by auto

lemma bound_set_delete:
  "{x. \<exists>h. (f(y := None)) x = Some h \<and> block h = Some b} =
     {x. \<exists>h. f x = Some h \<and> block h = Some b} - {y}"
  by auto

lemma holders_delete:
  assumes "finite (dom f)"
  shows "int (holders b (f(y := None))) =
           int (holders b f) - (case f y of None \<Rightarrow> 0 | Some h \<Rightarrow> bnd b h)"
proof -
  define S where "S = {x. \<exists>h. f x = Some h \<and> block h = Some b}"
  have fin: "finite S" unfolding S_def using assms by (rule bound_set_finite)
  have h1: "holders b f = card S" by (simp only: holders_def S_def)
  have h2: "holders b (f(y := None)) = card (S - {y})"
    by (simp only: holders_def bound_set_delete S_def)
  show ?thesis
  proof (cases "y \<in> S")
    case True
    then have c: "card (S - {y}) = card S - 1" "0 < card S"
      using fin by (auto simp: card_gt_0_iff)
    from True have "(case f y of None \<Rightarrow> 0 | Some h \<Rightarrow> bnd b h) = 1"
      by (auto simp: S_def bnd_def)
    with c show ?thesis by (simp add: h1 h2)
  next
    case False
    then have c: "S - {y} = S" by auto
    from False have "(case f y of None \<Rightarrow> 0 | Some h \<Rightarrow> bnd b h) = 0"
      by (auto simp: S_def bnd_def split: option.splits)
    with c show ?thesis by (simp add: h1 h2)
  qed
qed

lemma holders_update:
  assumes "finite (dom f)"
  shows "int (holders b (f(y \<mapsto> g))) =
           int (holders b f) - (case f y of None \<Rightarrow> 0 | Some h \<Rightarrow> bnd b h) + bnd b g"
proof -
  define S where "S = {x. \<exists>h. f x = Some h \<and> block h = Some b}"
  have fin: "finite (S - {y})" unfolding S_def using bound_set_finite [OF assms] by simp
  have h2: "holders b (f(y := None)) = card (S - {y})"
    by (simp only: holders_def bound_set_delete S_def)
  have h3: "holders b (f(y \<mapsto> g)) = card ((S - {y}) \<union> (if block g = Some b then {y} else {}))"
    by (simp only: holders_def bound_set_update S_def)
  have "card ((S - {y}) \<union> (if block g = Some b then {y} else {})) =
          card (S - {y}) + (if block g = Some b then 1 else 0)"
  proof (cases "block g = Some b")
    case True
    have "card (insert y (S - {y})) = Suc (card (S - {y}))"
      using fin by (rule card_insert_disjoint) simp
    with True show ?thesis by simp
  next
    case False
    then show ?thesis by simp
  qed
  then have "int (holders b (f(y \<mapsto> g))) = int (holders b (f(y := None))) + bnd b g"
    by (simp add: h2 h3 bnd_def)
  then show ?thesis
    using holders_delete [OF assms, of b y] by simp
qed

lemma holders_one:
  assumes "finite (dom f)" "f x = Some h"
  shows "bnd b h \<le> int (holders b f)"
proof (cases "block h = Some b")
  case True
  then have "x \<in> {x. \<exists>h. f x = Some h \<and> block h = Some b}" using assms by simp
  then have "0 < holders b f"
    unfolding holders_def using bound_set_finite [OF assms(1), of b] card_gt_0_iff by blast
  then show ?thesis by (simp add: bnd_def)
next
  case False
  then show ?thesis by (simp add: bnd_def)
qed

lemma holders_two:
  assumes "finite (dom f)" "f x = Some hx" "f y = Some hy" "x \<noteq> y"
  shows "bnd b hx + bnd b hy \<le> int (holders b f)"
proof -
  have fin: "finite (dom (f(x := None)))" using assms(1) by simp
  have "(f(x := None)) y = Some hy" using assms by simp
  from holders_one [OF fin this, of b]
  have "bnd b hy \<le> int (holders b (f(x := None)))" .
  then show ?thesis
    using holders_delete [OF assms(1), of b x] assms(2) by simp
qed

lemma bnd_cases: "bnd b h = 0 \<or> bnd b h = 1"
  by (simp add: bnd_def)

lemma bnd_null [simp]: "bnd b \<lparr>ptr = p, block = None\<rparr> = 0" "bnd b null_handle = 0"
  by (simp_all add: bnd_def null_handle_def)

lemma bnd_ptr [simp]: "bnd b \<lparr>ptr = p, block = block h\<rparr> = bnd b h"
  by (simp add: bnd_def)

section \<open>The primitives keep the three phases\<close>

lemma heap_ok_acquire_strong:
  assumes "heap_ok b a e v m n k" "0 < n"
  shows "\<exists>m'. IncreaseStrongCounter (Some b) m = Inr m' \<and> heap_ok b a e v m' (n + 1) k"
  using assms by (simp add: heap_ok_def prim_defs)

lemma heap_ok_acquire_weak:
  assumes "heap_ok b a e v m n k" "0 < n \<or> 0 < k" "0 \<le> n" "0 \<le> k"
  shows "\<exists>m'. IncreaseWeakCounter (Some b) m = Inr m' \<and> heap_ok b a e v m' n (k + 1)"
  using assms by (auto simp: heap_ok_def prim_defs)

lemma heap_ok_Decrement:
  assumes ok: "heap_ok b a e v m n k" and n: "0 < n" and k: "0 \<le> k"
    and v: "v = ControlBlockPointer (Some a) \<or> v = ControlBlockHolder a"
    and h: "block h = Some b"
  shows "\<exists>m'. Decrement h m = Inr m' \<and> heap_ok b a e v m' (n - 1) k"
proof -
  let ?c = "\<lparr>strong_counter = n, weak_counter = k + (if e then 1 else 0), variant = v\<rparr>"
  let ?o = "if e then Enabled \<lparr>ptr = Some a, block = Some b\<rparr> else Plain"
  from ok n have c: "blocks m b = Some ?c" and o: "objects m a = Some ?o"
    and l: "destroyed m = []" "freed m = []"
    by (simp_all add: heap_ok_def)
  have gp: "GetPointer ?c = Some a" using v by (auto simp: GetPointer_def)
  show ?thesis
  proof (cases "n = 1")
    case False
    from Decrement_shared [OF h c] False
    have "Decrement h m = Inr (m\<lparr>blocks := (blocks m)(b \<mapsto> ?c\<lparr>strong_counter := n - 1\<rparr>)\<rparr>)"
      by simp
    moreover have "heap_ok b a e v (m\<lparr>blocks := (blocks m)(b \<mapsto> ?c\<lparr>strong_counter := n - 1\<rparr>)\<rparr>) (n - 1) k"
      using False n o l by (simp add: heap_ok_def)
    ultimately show ?thesis by blast
  next
    case True
    show ?thesis
    proof (cases e)
      case False
      with o have o': "objects m a = Some Plain" by simp
      from Decrement_last_plain [OF h c _ gp o'] True False
      have "Decrement h m =
           Inr (if k = 0
                then m\<lparr>blocks := (blocks m)(b := None), objects := (objects m)(a := None),
                       destroyed := destroyed m @ [a], freed := freed m @ [b]\<rparr>
                else m\<lparr>blocks := (blocks m)(b \<mapsto> ?c\<lparr>strong_counter := 0\<rparr>),
                       objects := (objects m)(a := None), destroyed := destroyed m @ [a]\<rparr>)"
        by simp
      then show ?thesis
        using True False k l by (auto simp: heap_ok_def)
    next
      case e: True
      with o have o': "objects m a = Some (Enabled \<lparr>ptr = Some a, block = Some b\<rparr>)" by simp
      have w: "weak_counter ?c \<noteq> 0" using e k by simp
      from Decrement_last_enabled [OF h c _ gp o' _ w] True e
      have "Decrement h m =
           Inr (if k = 0
                then m\<lparr>blocks := (blocks m)(b := None), objects := (objects m)(a := None),
                       destroyed := destroyed m @ [a], freed := freed m @ [b]\<rparr>
                else m\<lparr>blocks := (blocks m)(b \<mapsto> ?c\<lparr>strong_counter := 0, weak_counter := k\<rparr>),
                       objects := (objects m)(a := None), destroyed := destroyed m @ [a]\<rparr>)"
        by simp
      then show ?thesis
        using True e k l by (auto simp: heap_ok_def)
    qed
  qed
qed

lemma heap_ok_WeakPtr_Decrement:
  assumes ok: "heap_ok b a e v m n k" and n: "0 \<le> n" and k: "0 < k"
    and h: "block w = Some b"
  shows "\<exists>m'. WeakPtr_Decrement w m = Inr m' \<and> heap_ok b a e v m' n (k - 1)"
proof (cases "n = 0")
  case True
  let ?c = "\<lparr>strong_counter = 0, weak_counter = k, variant = v\<rparr>"
  from ok True k have c: "blocks m b = Some ?c" and o: "objects m a = None"
    and l: "destroyed m = [a]" "freed m = []"
    by (simp_all add: heap_ok_def)
  from WeakPtr_Decrement_bound [OF h c]
  have "WeakPtr_Decrement w m =
           Inr (if k = 1
                then m\<lparr>blocks := (blocks m)(b := None), freed := freed m @ [b]\<rparr>
                else m\<lparr>blocks := (blocks m)(b \<mapsto> ?c\<lparr>weak_counter := k - 1\<rparr>)\<rparr>)"
    by simp
  then show ?thesis
    using True k o l by (auto simp: heap_ok_def)
next
  case False
  with n have n': "0 < n" by simp
  let ?c = "\<lparr>strong_counter = n, weak_counter = k + (if e then 1 else 0), variant = v\<rparr>"
  from ok n' have c: "blocks m b = Some ?c"
    and o: "objects m a = Some (if e then Enabled \<lparr>ptr = Some a, block = Some b\<rparr> else Plain)"
    and l: "destroyed m = []" "freed m = []"
    by (simp_all add: heap_ok_def)
  from WeakPtr_Decrement_bound [OF h c] False
  have "WeakPtr_Decrement w m =
          Inr (m\<lparr>blocks := (blocks m)(b \<mapsto> ?c\<lparr>weak_counter := weak_counter ?c - 1\<rparr>)\<rparr>)"
    by simp
  then show ?thesis
    using n' o l by (auto simp: heap_ok_def)
qed

text \<open>The same, for a handle that is bound to the block or to none.\<close>

lemma heap_ok_release_strong:
  assumes "heap_ok b a e v m n k" "0 \<le> k" "bnd b h \<le> n"
    and "v = ControlBlockPointer (Some a) \<or> v = ControlBlockHolder a"
    and "block h = None \<or> block h = Some b"
  shows "\<exists>m'. Decrement h m = Inr m' \<and> heap_ok b a e v m' (n - bnd b h) k"
proof (cases "block h")
  case None
  then show ?thesis using assms(1) by (simp add: bnd_def)
next
  case (Some b')
  with assms(5) have h: "block h = Some b" by simp
  then have "0 < n" using assms(3) by (simp add: bnd_def)
  from heap_ok_Decrement [OF assms(1) this assms(2) assms(4) h]
  show ?thesis using h by (simp add: bnd_def)
qed

lemma heap_ok_release_weak:
  assumes "heap_ok b a e v m n k" "0 \<le> n" "bnd b w \<le> k"
    and "block w = None \<or> block w = Some b"
  shows "\<exists>m'. WeakPtr_Decrement w m = Inr m' \<and> heap_ok b a e v m' n (k - bnd b w)"
proof (cases "block w")
  case None
  then show ?thesis using assms(1) by (simp add: bnd_def)
next
  case (Some b')
  with assms(4) have h: "block w = Some b" by simp
  then have "0 < k" using assms(3) by (simp add: bnd_def)
  from heap_ok_WeakPtr_Decrement [OF assms(1) assms(2) this h]
  show ?thesis using h by (simp add: bnd_def)
qed

lemma heap_ok_copy_strong:
  assumes "heap_ok b a e v m n k" "bnd b h \<le> n" "0 \<le> n"
    and "block h = None \<or> block h = Some b"
  shows "\<exists>m'. SharedPtr_copy h m = Inr (h, m') \<and> heap_ok b a e v m' (n + bnd b h) k"
proof (cases "block h")
  case None
  then show ?thesis using assms(1) by (simp add: bnd_def SharedPtr_copy_def)
next
  case (Some b')
  with assms(4) have h: "block h = Some b" by simp
  then have "0 < n" using assms(2) by (simp add: bnd_def)
  from heap_ok_acquire_strong [OF assms(1) this]
  show ?thesis using h by (auto simp: bnd_def SharedPtr_copy_def)
qed

lemma heap_ok_copy_weak:
  assumes "heap_ok b a e v m n k" "bnd b h \<le> k" "0 \<le> n" "0 \<le> k"
    and "block h = None \<or> block h = Some b"
  shows "\<exists>m'. WeakPtr_copy h m = Inr (h, m') \<and> heap_ok b a e v m' n (k + bnd b h)"
proof (cases "block h")
  case None
  then show ?thesis using assms(1) by (simp add: bnd_def WeakPtr_copy_def)
next
  case (Some b')
  with assms(5) have h: "block h = Some b" by simp
  then have "0 < k" using assms(2) by (simp add: bnd_def)
  then have "0 < n \<or> 0 < k" by simp
  from heap_ok_acquire_weak [OF assms(1) this assms(3) assms(4)]
  show ?thesis using h by (auto simp: bnd_def WeakPtr_copy_def)
qed

lemma heap_ok_demote:
  assumes "heap_ok b a e v m n k" "bnd b h \<le> n" "0 \<le> n" "0 \<le> k"
    and "block h = None \<or> block h = Some b"
  shows "\<exists>m'. WeakPtr_demote h m = Inr (h, m') \<and> heap_ok b a e v m' n (k + bnd b h)"
proof (cases "block h")
  case None
  then show ?thesis using assms(1) by (simp add: bnd_def WeakPtr_demote_def)
next
  case (Some b')
  with assms(5) have h: "block h = Some b" by simp
  then have "0 < n" using assms(2) by (simp add: bnd_def)
  then have "0 < n \<or> 0 < k" by simp
  from heap_ok_acquire_weak [OF assms(1) this assms(3) assms(4)]
  show ?thesis using h by (auto simp: bnd_def WeakPtr_demote_def)
qed

lemma heap_ok_promote:
  assumes ok: "heap_ok b a e v m n k" and n: "0 \<le> n" and k: "0 < k"
    and h: "block w = Some b"
  shows "(n = 0 \<longrightarrow> SharedPtr_promote w m = Inl BadWeakPtr) \<and>
         (0 < n \<longrightarrow> (\<exists>m'. SharedPtr_promote w m = Inr (w, m') \<and> heap_ok b a e v m' (n + 1) k))"
proof (cases "n = 0")
  case True
  with ok k have c: "blocks m b = Some \<lparr>strong_counter = 0, weak_counter = k, variant = v\<rparr>"
    by (simp add: heap_ok_def)
  from SharedPtr_promote_bound [OF h c] True show ?thesis by simp
next
  case False
  with n have n': "0 < n" by simp
  let ?c = "\<lparr>strong_counter = n, weak_counter = k + (if e then 1 else 0), variant = v\<rparr>"
  from ok n' have c: "blocks m b = Some ?c" by (simp add: heap_ok_def)
  from SharedPtr_promote_bound [OF h c] n'
  have "SharedPtr_promote w m =
          Inr (w, m\<lparr>blocks := (blocks m)(b \<mapsto> ?c\<lparr>strong_counter := n + 1\<rparr>)\<rparr>)"
    by simp
  moreover have "heap_ok b a e v (m\<lparr>blocks := (blocks m)(b \<mapsto> ?c\<lparr>strong_counter := n + 1\<rparr>)\<rparr>) (n + 1) k"
    using ok n' by (simp add: heap_ok_def)
  ultimately show ?thesis using n' by auto
qed

lemma heap_ok_Lock:
  assumes ok: "heap_ok b a e v m n k" and n: "0 \<le> n" and k: "bnd b w \<le> k"
    and h: "block w = None \<or> block w = Some b"
  shows "\<exists>r m'. Lock w m = Inr (r, m') \<and> (block r = None \<or> block r = Some b) \<and>
           heap_ok b a e v m' (n + bnd b r) k \<and> (n = 0 \<longrightarrow> block r = None \<and> m' = m)"
proof (cases "block w")
  case None
  then show ?thesis using ok by (simp add: Lock_def SharedPtr_default_def bnd_def)
next
  case (Some b')
  with h have hb: "block w = Some b" by simp
  then have k': "0 < k" using k by (simp add: bnd_def)
  show ?thesis
  proof (cases "n = 0")
    case True
    with ok k' have c: "blocks m b = Some \<lparr>strong_counter = 0, weak_counter = k, variant = v\<rparr>"
      by (simp add: heap_ok_def)
    then have "Lock w m = Inr (SharedPtr_default, m)"
      using hb by (simp add: Lock_def prim_defs)
    then show ?thesis using ok True by (simp add: SharedPtr_default_def bnd_def)
  next
    case False
    with n have n': "0 < n" by simp
    from ok n' have c: "blocks m b =
        Some \<lparr>strong_counter = n, weak_counter = k + (if e then 1 else 0), variant = v\<rparr>"
      by (simp add: heap_ok_def)
    then have l: "Lock w m = SharedPtr_promote w m"
      using hb n' by (simp add: Lock_def prim_defs)
    from heap_ok_promote [OF ok n k' hb] n'
    obtain m' where "SharedPtr_promote w m = Inr (w, m')" "heap_ok b a e v m' (n + 1) k"
      by auto
    then show ?thesis using l hb False by (auto simp: bnd_def)
  qed
qed

section \<open>Every statement keeps the invariant\<close>

lemma moves_sptr1:
  assumes inv: "single_block b a e v s"
    and g: "block g = None \<or> block g = Some b"
    and ok: "heap_ok b a e v m'
               (int (holders b (sptr s)) - (case sptr s x of None \<Rightarrow> 0 | Some h \<Rightarrow> bnd b h) + bnd b g)
               (int (holders b (wptr s)))"
    and nores: "holders b (sptr s) = 0 \<longrightarrow> bnd b g = 0"
  shows "moves_to b a e v s (s\<lparr>sptr := (sptr s)(x \<mapsto> g), mem := m'\<rparr>)"
proof -
  from inv have fs: "finite (dom (sptr s))" by (simp add: single_block_def)
  let ?d = "case sptr s x of None \<Rightarrow> 0 | Some h \<Rightarrow> bnd b h"
  have d: "0 \<le> ?d" "?d \<le> 1" "?d \<le> int (holders b (sptr s))"
    using holders_one [OF fs, of x _ b] by (auto simp: bnd_def split: option.splits)
  have g01: "0 \<le> bnd b g" by (simp add: bnd_def)
  have u: "int (holders b ((sptr s)(x \<mapsto> g))) = int (holders b (sptr s)) - ?d + bnd b g"
    using holders_update [OF fs] by simp
  show ?thesis
    unfolding moves_to_def single_block_def
    using inv g ok nores d g01 u
    by (auto simp: single_block_def)
qed

lemma moves_sptr_del:
  assumes inv: "single_block b a e v s"
    and ok: "heap_ok b a e v m'
               (int (holders b (sptr s)) - (case sptr s x of None \<Rightarrow> 0 | Some h \<Rightarrow> bnd b h))
               (int (holders b (wptr s)))"
  shows "moves_to b a e v s (s\<lparr>sptr := (sptr s)(x := None), mem := m'\<rparr>)"
proof -
  from inv have fs: "finite (dom (sptr s))" by (simp add: single_block_def)
  let ?d = "case sptr s x of None \<Rightarrow> 0 | Some h \<Rightarrow> bnd b h"
  have d: "0 \<le> ?d" "?d \<le> 1" "?d \<le> int (holders b (sptr s))"
    using holders_one [OF fs, of x _ b] by (auto simp: bnd_def split: option.splits)
  have u: "int (holders b ((sptr s)(x := None))) = int (holders b (sptr s)) - ?d"
    using holders_delete [OF fs] by simp
  show ?thesis
    unfolding moves_to_def single_block_def
    using inv ok d u
    by (auto simp: single_block_def split: if_splits)
qed

lemma moves_sptr2:
  assumes inv: "single_block b a e v s"
    and g: "block g1 = None \<or> block g1 = Some b" "block g2 = None \<or> block g2 = Some b"
    and xy: "x \<noteq> y"
    and ok: "heap_ok b a e v m' N (int (holders b (wptr s)))"
    and N: "N = int (holders b (sptr s)) - (case sptr s x of None \<Rightarrow> 0 | Some h \<Rightarrow> bnd b h)
                  - (case sptr s y of None \<Rightarrow> 0 | Some h \<Rightarrow> bnd b h) + bnd b g1 + bnd b g2"
    and rel: "int (holders b (sptr s)) \<le> N + 1" "holders b (sptr s) = 0 \<longrightarrow> N = 0"
  shows "moves_to b a e v s (s\<lparr>sptr := (sptr s)(x \<mapsto> g1, y \<mapsto> g2), mem := m'\<rparr>)"
proof -
  from inv have fs: "finite (dom (sptr s))" by (simp add: single_block_def)
  have fs1: "finite (dom ((sptr s)(x \<mapsto> g1)))" using fs by simp
  have u: "int (holders b ((sptr s)(x \<mapsto> g1, y \<mapsto> g2))) = N"
    using holders_update [OF fs1, of b y g2] holders_update [OF fs, of b x g1] xy N by simp
  show ?thesis
    unfolding moves_to_def single_block_def
    using inv g ok rel u
    by (auto simp: single_block_def)
qed

lemma moves_wptr1:
  assumes inv: "single_block b a e v s"
    and g: "block g = None \<or> block g = Some b"
    and ok: "heap_ok b a e v m' (int (holders b (sptr s)))
               (int (holders b (wptr s)) - (case wptr s x of None \<Rightarrow> 0 | Some h \<Rightarrow> bnd b h) + bnd b g)"
    and nores: "holders b (sptr s) = 0 \<and> holders b (wptr s) = 0 \<longrightarrow> bnd b g = 0"
  shows "moves_to b a e v s (s\<lparr>wptr := (wptr s)(x \<mapsto> g), mem := m'\<rparr>)"
proof -
  from inv have fw: "finite (dom (wptr s))" by (simp add: single_block_def)
  let ?d = "case wptr s x of None \<Rightarrow> 0 | Some h \<Rightarrow> bnd b h"
  have d: "0 \<le> ?d" "?d \<le> 1" "?d \<le> int (holders b (wptr s))"
    using holders_one [OF fw, of x _ b] by (auto simp: bnd_def split: option.splits)
  have u: "int (holders b ((wptr s)(x \<mapsto> g))) = int (holders b (wptr s)) - ?d + bnd b g"
    using holders_update [OF fw] by simp
  show ?thesis
    unfolding moves_to_def single_block_def
    using inv g ok nores d u
    by (auto simp: single_block_def)
qed

lemma moves_wptr_del:
  assumes inv: "single_block b a e v s"
    and ok: "heap_ok b a e v m' (int (holders b (sptr s)))
               (int (holders b (wptr s)) - (case wptr s x of None \<Rightarrow> 0 | Some h \<Rightarrow> bnd b h))"
  shows "moves_to b a e v s (s\<lparr>wptr := (wptr s)(x := None), mem := m'\<rparr>)"
proof -
  from inv have fw: "finite (dom (wptr s))" by (simp add: single_block_def)
  let ?d = "case wptr s x of None \<Rightarrow> 0 | Some h \<Rightarrow> bnd b h"
  have d: "0 \<le> ?d" "?d \<le> 1" "?d \<le> int (holders b (wptr s))"
    using holders_one [OF fw, of x _ b] by (auto simp: bnd_def split: option.splits)
  have u: "int (holders b ((wptr s)(x := None))) = int (holders b (wptr s)) - ?d"
    using holders_delete [OF fw] by simp
  show ?thesis
    unfolding moves_to_def single_block_def
    using inv ok d u
    by (auto simp: single_block_def split: if_splits)
qed

lemma moves_wptr2:
  assumes inv: "single_block b a e v s"
    and g: "block g1 = None \<or> block g1 = Some b" "block g2 = None \<or> block g2 = Some b"
    and xy: "x \<noteq> y"
    and ok: "heap_ok b a e v m' (int (holders b (sptr s))) K"
    and K: "K = int (holders b (wptr s)) - (case wptr s x of None \<Rightarrow> 0 | Some h \<Rightarrow> bnd b h)
                  - (case wptr s y of None \<Rightarrow> 0 | Some h \<Rightarrow> bnd b h) + bnd b g1 + bnd b g2"
    and rel: "holders b (sptr s) = 0 \<and> holders b (wptr s) = 0 \<longrightarrow> K = 0"
  shows "moves_to b a e v s (s\<lparr>wptr := (wptr s)(x \<mapsto> g1, y \<mapsto> g2), mem := m'\<rparr>)"
proof -
  from inv have fw: "finite (dom (wptr s))" by (simp add: single_block_def)
  have fw1: "finite (dom ((wptr s)(x \<mapsto> g1)))" using fw by simp
  have u: "int (holders b ((wptr s)(x \<mapsto> g1, y \<mapsto> g2))) = K"
    using holders_update [OF fw1, of b y g2] holders_update [OF fw, of b x g1] xy K by simp
  show ?thesis
    unfolding moves_to_def single_block_def
    using inv g ok rel u
    by (auto simp: single_block_def)
qed

lemma single_blockD:
  assumes "single_block b a e v s"
  shows "finite (dom (sptr s))" "finite (dom (wptr s))"
    "\<And>x h. sptr s x = Some h \<Longrightarrow> block h = None \<or> block h = Some b"
    "\<And>x h. wptr s x = Some h \<Longrightarrow> block h = None \<or> block h = Some b"
    "v = ControlBlockPointer (Some a) \<or> v = ControlBlockHolder a"
    "heap_ok b a e v (mem s) (int (holders b (sptr s))) (int (holders b (wptr s)))"
  using assms by (auto simp: single_block_def)

lemma bnd_le_zero:
  assumes "bnd b h \<le> int n"
  shows "n = 0 \<longrightarrow> bnd b h = 0"
  using assms by (auto simp: bnd_def split: if_splits)

lemma moves_to_refl:
  assumes "single_block b a e v s"
  shows "moves_to b a e v s s"
  using assms by (simp add: moves_to_def)

lemma state_mem_same [simp]: "s\<lparr>sptr := F, mem := mem s\<rparr> = s\<lparr>sptr := F\<rparr>"
  "s\<lparr>wptr := G, mem := mem s\<rparr> = s\<lparr>wptr := G\<rparr>"
  by simp_all

lemma new_SharedPtr_outcome:
  assumes inv: "single_block b a e v s"
  shows "outcome b a e v s (new_SharedPtr x s)"
proof (cases "sptr s x")
  case None
  have "moves_to b a e v s (s\<lparr>sptr := (sptr s)(x \<mapsto> SharedPtr_default), mem := mem s\<rparr>)"
    using None single_blockD(6) [OF inv]
    by (intro moves_sptr1 [OF inv]) (simp_all add: SharedPtr_default_def)
  then show ?thesis using None by (simp add: outcome_def new_SharedPtr_def)
next
  case (Some h)
  then show ?thesis by (simp add: outcome_def new_SharedPtr_def)
qed

lemma new_SharedPtr_copy_outcome:
  assumes inv: "single_block b a e v s"
  shows "outcome b a e v s (new_SharedPtr_copy x y s)"
proof (cases "sptr s y")
  case None
  then show ?thesis by (simp add: outcome_def new_SharedPtr_copy_def)
next
  case (Some oth)
  show ?thesis
  proof (cases "sptr s x")
    case (Some h)
    then show ?thesis by (simp add: outcome_def new_SharedPtr_copy_def split: option.splits)
  next
    case None
    note D = single_blockD [OF inv]
    have le: "bnd b oth \<le> int (holders b (sptr s))"
      using holders_one [OF D(1) Some] .
    from heap_ok_copy_strong [OF D(6) le _ D(3) [OF Some]]
    obtain m' where c: "SharedPtr_copy oth (mem s) = Inr (oth, m')"
      and ok: "heap_ok b a e v m' (int (holders b (sptr s)) + bnd b oth) (int (holders b (wptr s)))"
      by auto
    have "moves_to b a e v s (s\<lparr>sptr := (sptr s)(x \<mapsto> oth), mem := m'\<rparr>)"
      using None ok bnd_le_zero [OF le] D(3) [OF Some]
      by (intro moves_sptr1 [OF inv]) simp_all
    then show ?thesis
      using None Some c by (simp add: outcome_def new_SharedPtr_copy_def)
  qed
qed

lemma new_SharedPtr_move_outcome:
  assumes inv: "single_block b a e v s"
  shows "outcome b a e v s (new_SharedPtr_move x y s)"
proof (cases "sptr s y")
  case None
  then show ?thesis by (simp add: outcome_def new_SharedPtr_move_def)
next
  case (Some oth)
  show ?thesis
  proof (cases "sptr s x")
    case (Some h)
    then show ?thesis by (simp add: outcome_def new_SharedPtr_move_def split: option.splits)
  next
    case None
    note D = single_blockD [OF inv]
    have xy: "x \<noteq> y" using None Some by auto
    have "moves_to b a e v s (s\<lparr>sptr := (sptr s)(x \<mapsto> oth, y \<mapsto> null_handle), mem := mem s\<rparr>)"
      using None Some D(6) D(3) [OF Some] xy
      by (intro moves_sptr2 [OF inv, where N = "int (holders b (sptr s))"])
         (simp_all add: null_handle_def)
    then show ?thesis
      using None Some by (simp add: outcome_def new_SharedPtr_move_def SharedPtr_move_def null_handle_def)
  qed
qed

lemma heap_ok_alias:
  assumes "heap_ok b a e v m n k" "bnd b h \<le> n" "0 \<le> n"
    and "block h = None \<or> block h = Some b"
  shows "\<exists>m'. SharedPtr_alias h p m = Inr (\<lparr>ptr = p, block = block h\<rparr>, m') \<and>
           heap_ok b a e v m' (n + bnd b h) k"
proof (cases "block h")
  case None
  then show ?thesis using assms(1) by (simp add: bnd_def SharedPtr_alias_def GetBlock_def)
next
  case (Some b')
  with assms(4) have h: "block h = Some b" by simp
  then have "0 < n" using assms(2) by (simp add: bnd_def)
  from heap_ok_acquire_strong [OF assms(1) this]
  show ?thesis using h by (auto simp: bnd_def SharedPtr_alias_def GetBlock_def)
qed

lemma new_SharedPtr_alias_outcome:
  assumes inv: "single_block b a e v s"
  shows "outcome b a e v s (new_SharedPtr_alias x y p s)"
proof (cases "sptr s y")
  case None
  then show ?thesis by (simp add: outcome_def new_SharedPtr_alias_def)
next
  case (Some oth)
  show ?thesis
  proof (cases "sptr s x")
    case (Some h)
    then show ?thesis by (simp add: outcome_def new_SharedPtr_alias_def split: option.splits)
  next
    case None
    note D = single_blockD [OF inv]
    let ?g = "\<lparr>ptr = p, block = block oth\<rparr>"
    have le: "bnd b oth \<le> int (holders b (sptr s))"
      using holders_one [OF D(1) Some] .
    from heap_ok_alias [OF D(6) le _ D(3) [OF Some]]
    obtain m' where c: "SharedPtr_alias oth p (mem s) = Inr (?g, m')"
      and ok: "heap_ok b a e v m' (int (holders b (sptr s)) + bnd b oth) (int (holders b (wptr s)))"
      by auto
    have "moves_to b a e v s (s\<lparr>sptr := (sptr s)(x \<mapsto> ?g), mem := m'\<rparr>)"
      using None ok bnd_le_zero [OF le] D(3) [OF Some]
      by (intro moves_sptr1 [OF inv]) simp_all
    then show ?thesis
      using None Some c by (simp add: outcome_def new_SharedPtr_alias_def)
  qed
qed

lemma new_SharedPtr_promote_outcome:
  assumes inv: "single_block b a e v s"
  shows "outcome b a e v s (new_SharedPtr_promote x w s) \<or>
         new_SharedPtr_promote x w s = Inl BadWeakPtr \<or>
         (new_SharedPtr_promote x w s = Inl NullDereference \<and> promotes_unbound (SharedPromote x w) s)"
proof (cases "wptr s w")
  case None
  then show ?thesis by (simp add: outcome_def new_SharedPtr_promote_def)
next
  case (Some oth)
  show ?thesis
  proof (cases "sptr s x")
    case (Some h)
    then show ?thesis by (simp add: outcome_def new_SharedPtr_promote_def split: option.splits)
  next
    case None
    note D = single_blockD [OF inv]
    show ?thesis
    proof (cases "block oth")
      case nb: None
      then have "SharedPtr_promote oth (mem s) = Inl NullDereference"
        by (simp add: SharedPtr_promote_def prim_defs)
      then show ?thesis
        using None Some nb by (simp add: new_SharedPtr_promote_def promotes_unbound_def)
    next
      case (Some b')
      with D(4) [OF \<open>wptr s w = Some oth\<close>] have hb: "block oth = Some b" by simp
      have "bnd b oth \<le> int (holders b (wptr s))"
        using holders_one [OF D(2) \<open>wptr s w = Some oth\<close>] .
      then have k: "0 < int (holders b (wptr s))" using hb by (simp add: bnd_def)
      note P = heap_ok_promote [OF D(6) _ k hb]
      show ?thesis
      proof (cases "holders b (sptr s) = 0")
        case True
        with P have "SharedPtr_promote oth (mem s) = Inl BadWeakPtr" by simp
        then show ?thesis
          using None \<open>wptr s w = Some oth\<close> by (simp add: new_SharedPtr_promote_def)
      next
        case False
        with P obtain m' where c: "SharedPtr_promote oth (mem s) = Inr (oth, m')"
          and ok: "heap_ok b a e v m' (int (holders b (sptr s)) + 1) (int (holders b (wptr s)))"
          by auto
        have "moves_to b a e v s (s\<lparr>sptr := (sptr s)(x \<mapsto> oth), mem := m'\<rparr>)"
          using None ok hb False
          by (intro moves_sptr1 [OF inv]) (simp_all add: bnd_def)
        then show ?thesis
          using None \<open>wptr s w = Some oth\<close> c by (simp add: outcome_def new_SharedPtr_promote_def)
      qed
    qed
  qed
qed

lemma handle_eta_block: "block h = bb \<Longrightarrow> \<lparr>ptr = ptr h, block = bb\<rparr> = h"
  by (cases h) simp

lemma SharedPtr_assign_outcome:
  assumes inv: "single_block b a e v s"
  shows "outcome b a e v s (SharedPtr_assign (Var x) (Var y) s)"
proof (cases "sptr s x")
  case None
  then show ?thesis by (simp add: outcome_def SharedPtr_assign_Var)
next
  case (Some me)
  note me = this
  show ?thesis
  proof (cases "sptr s y")
    case None
    then show ?thesis using me by (simp add: outcome_def SharedPtr_assign_Var)
  next
    case (Some oth)
    note oth = this
    note D = single_blockD [OF inv]
    show ?thesis
    proof (cases "x = y")
      case True
      then show ?thesis
        using me oth moves_to_refl [OF inv] by (simp add: outcome_def SharedPtr_assign_Var)
    next
      case False
      let ?n = "int (holders b (sptr s))"
      let ?k = "int (holders b (wptr s))"
      have two: "bnd b me + bnd b oth \<le> ?n"
        using holders_two [OF D(1) me oth False] .
      have b0: "0 \<le> bnd b oth" "0 \<le> bnd b me" by (simp_all add: bnd_def)
      from heap_ok_release_strong [OF D(6) _ _ D(5) D(3) [OF me]] two b0
      obtain m1 where d: "Decrement me (mem s) = Inr m1"
        and ok1: "heap_ok b a e v m1 (?n - bnd b me) ?k"
        by auto
      from heap_ok_copy_strong [OF ok1 _ _ D(3) [OF oth]] two b0
      obtain m2 where c: "SharedPtr_copy oth m1 = Inr (oth, m2)"
        and ok2: "heap_ok b a e v m2 (?n - bnd b me + bnd b oth) ?k"
        by auto
      have le: "bnd b oth \<le> ?n" using two b0 by simp
      have mv: "moves_to b a e v s (s\<lparr>sptr := (sptr s)(x \<mapsto> oth), mem := m2\<rparr>)"
        using me ok2 bnd_le_zero [OF le] D(3) [OF oth]
        by (intro moves_sptr1 [OF inv]) simp_all
      have "SharedPtr_assign (Var x) (Var y) s = Inr (s\<lparr>sptr := (sptr s)(x \<mapsto> oth), mem := m2\<rparr>)"
        using me oth False d c
        by (cases "block oth")
           (auto simp: SharedPtr_assign_Var SharedPtr_copy_def Let_def and_then_eq_Inr
              handle_eta_block)
      with mv show ?thesis by (simp add: outcome_def)
    qed
  qed
qed

lemma SharedPtr_move_assign_outcome:
  assumes inv: "single_block b a e v s"
  shows "outcome b a e v s (SharedPtr_move_assign (Var x) (Var y) s)"
proof (cases "sptr s x")
  case None
  then show ?thesis by (simp add: outcome_def SharedPtr_move_assign_Var)
next
  case (Some me)
  note me = this
  show ?thesis
  proof (cases "sptr s y")
    case None
    then show ?thesis using me by (simp add: outcome_def SharedPtr_move_assign_Var)
  next
    case (Some oth)
    note oth = this
    note D = single_blockD [OF inv]
    show ?thesis
    proof (cases "x = y")
      case True
      then show ?thesis
        using me oth moves_to_refl [OF inv] by (simp add: outcome_def SharedPtr_move_assign_Var)
    next
      case False
      let ?n = "int (holders b (sptr s))"
      let ?k = "int (holders b (wptr s))"
      have two: "bnd b me + bnd b oth \<le> ?n"
        using holders_two [OF D(1) me oth False] .
      have b0: "0 \<le> bnd b oth" "0 \<le> bnd b me" "bnd b me \<le> 1" by (simp_all add: bnd_def)
      from heap_ok_release_strong [OF D(6) _ _ D(5) D(3) [OF me]] two b0
      obtain m1 where d: "Decrement me (mem s) = Inr m1"
        and ok1: "heap_ok b a e v m1 (?n - bnd b me) ?k"
        by auto
      have mv: "moves_to b a e v s (s\<lparr>sptr := (sptr s)(x \<mapsto> oth, y \<mapsto> null_handle), mem := m1\<rparr>)"
        using me oth ok1 D(3) [OF oth] False two b0
        by (intro moves_sptr2 [OF inv, where N = "?n - bnd b me"]) (simp_all add: null_handle_def)
      have "SharedPtr_move_assign (Var x) (Var y) s =
              Inr (s\<lparr>sptr := (sptr s)(x \<mapsto> oth, y \<mapsto> null_handle), mem := m1\<rparr>)"
        using me oth False d by (simp add: SharedPtr_move_assign_Var null_handle_def)
      with mv show ?thesis by (simp add: outcome_def)
    qed
  qed
qed

lemma SharedPtr_Reset_outcome:
  assumes inv: "single_block b a e v s"
  shows "outcome b a e v s (SharedPtr_Reset (Var x) s)"
proof (cases "sptr s x")
  case None
  then show ?thesis by (simp add: outcome_def SharedPtr_Reset_Var)
next
  case (Some me)
  note D = single_blockD [OF inv]
  let ?n = "int (holders b (sptr s))"
  let ?k = "int (holders b (wptr s))"
  have le: "bnd b me \<le> ?n" using holders_one [OF D(1) Some] .
  from heap_ok_release_strong [OF D(6) _ le D(5) D(3) [OF Some]]
  obtain m1 where d: "Decrement me (mem s) = Inr m1"
    and ok1: "heap_ok b a e v m1 (?n - bnd b me) ?k"
    by auto
  have mv: "moves_to b a e v s (s\<lparr>sptr := (sptr s)(x \<mapsto> null_handle), mem := m1\<rparr>)"
    using Some ok1
    by (intro moves_sptr1 [OF inv]) (simp_all add: null_handle_def)
  have "SharedPtr_Reset (Var x) s = Inr (s\<lparr>sptr := (sptr s)(x \<mapsto> null_handle), mem := m1\<rparr>)"
    using Some d by (simp add: SharedPtr_Reset_Var null_handle_def)
  with mv show ?thesis by (simp add: outcome_def)
qed

lemma delete_SharedPtr_outcome:
  assumes inv: "single_block b a e v s"
  shows "outcome b a e v s (delete_SharedPtr x s)"
proof (cases "sptr s x")
  case None
  then show ?thesis by (simp add: outcome_def delete_SharedPtr_def)
next
  case (Some me)
  note D = single_blockD [OF inv]
  let ?n = "int (holders b (sptr s))"
  let ?k = "int (holders b (wptr s))"
  have le: "bnd b me \<le> ?n" using holders_one [OF D(1) Some] .
  from heap_ok_release_strong [OF D(6) _ le D(5) D(3) [OF Some]]
  obtain m1 where d: "Decrement me (mem s) = Inr m1"
    and ok1: "heap_ok b a e v m1 (?n - bnd b me) ?k"
    by auto
  have mv: "moves_to b a e v s (s\<lparr>sptr := (sptr s)(x := None), mem := m1\<rparr>)"
    using Some ok1 by (intro moves_sptr_del [OF inv]) simp
  have "delete_SharedPtr x s = Inr (s\<lparr>sptr := (sptr s)(x := None), mem := m1\<rparr>)"
    using Some d by (simp add: delete_SharedPtr_def)
  with mv show ?thesis by (simp add: outcome_def)
qed

lemma SharedPtr_Swap_outcome:
  assumes inv: "single_block b a e v s"
  shows "outcome b a e v s (SharedPtr_Swap x y s)"
proof (cases "sptr s x")
  case None
  then show ?thesis by (simp add: outcome_def SharedPtr_Swap_def)
next
  case (Some me)
  note me = this
  show ?thesis
  proof (cases "sptr s y")
    case None
    then show ?thesis using me by (simp add: outcome_def SharedPtr_Swap_def)
  next
    case (Some oth)
    note oth = this
    note D = single_blockD [OF inv]
    show ?thesis
    proof (cases "x = y")
      case True
      then have "SharedPtr_Swap x y s = Inr s"
        using me oth by (simp add: SharedPtr_Swap_def map_upd_triv)
      then show ?thesis using moves_to_refl [OF inv] by (simp add: outcome_def)
    next
      case False
      have mv: "moves_to b a e v s (s\<lparr>sptr := (sptr s)(x \<mapsto> oth, y \<mapsto> me), mem := mem s\<rparr>)"
        using me oth D(6) D(3) [OF oth] D(3) [OF me] False
        by (intro moves_sptr2 [OF inv, where N = "int (holders b (sptr s))"]) simp_all
      have "SharedPtr_Swap x y s = Inr (s\<lparr>sptr := (sptr s)(x \<mapsto> oth, y \<mapsto> me)\<rparr>)"
        using me oth by (simp add: SharedPtr_Swap_def)
      with mv show ?thesis by (simp add: outcome_def)
    qed
  qed
qed

lemma new_WeakPtr_outcome:
  assumes inv: "single_block b a e v s"
  shows "outcome b a e v s (new_WeakPtr x s)"
proof (cases "wptr s x")
  case None
  have "moves_to b a e v s (s\<lparr>wptr := (wptr s)(x \<mapsto> WeakPtr_default), mem := mem s\<rparr>)"
    using None single_blockD(6) [OF inv]
    by (intro moves_wptr1 [OF inv]) (simp_all add: WeakPtr_default_def)
  then show ?thesis using None by (simp add: outcome_def new_WeakPtr_def)
next
  case (Some h)
  then show ?thesis by (simp add: outcome_def new_WeakPtr_def)
qed

lemma new_WeakPtr_copy_outcome:
  assumes inv: "single_block b a e v s"
  shows "outcome b a e v s (new_WeakPtr_copy x y s)"
proof (cases "wptr s y")
  case None
  then show ?thesis by (simp add: outcome_def new_WeakPtr_copy_def)
next
  case (Some oth)
  show ?thesis
  proof (cases "wptr s x")
    case (Some h)
    then show ?thesis by (simp add: outcome_def new_WeakPtr_copy_def split: option.splits)
  next
    case None
    note D = single_blockD [OF inv]
    have le: "bnd b oth \<le> int (holders b (wptr s))"
      using holders_one [OF D(2) Some] .
    from heap_ok_copy_weak [OF D(6) le _ _ D(4) [OF Some]]
    obtain m' where c: "WeakPtr_copy oth (mem s) = Inr (oth, m')"
      and ok: "heap_ok b a e v m' (int (holders b (sptr s))) (int (holders b (wptr s)) + bnd b oth)"
      by auto
    have "moves_to b a e v s (s\<lparr>wptr := (wptr s)(x \<mapsto> oth), mem := m'\<rparr>)"
      using None ok bnd_le_zero [OF le] D(4) [OF Some]
      by (intro moves_wptr1 [OF inv]) simp_all
    then show ?thesis
      using None Some c by (simp add: outcome_def new_WeakPtr_copy_def)
  qed
qed

lemma new_WeakPtr_move_outcome:
  assumes inv: "single_block b a e v s"
  shows "outcome b a e v s (new_WeakPtr_move x y s)"
proof (cases "wptr s y")
  case None
  then show ?thesis by (simp add: outcome_def new_WeakPtr_move_def)
next
  case (Some oth)
  show ?thesis
  proof (cases "wptr s x")
    case (Some h)
    then show ?thesis by (simp add: outcome_def new_WeakPtr_move_def split: option.splits)
  next
    case None
    note D = single_blockD [OF inv]
    have xy: "x \<noteq> y" using None Some by auto
    have "moves_to b a e v s (s\<lparr>wptr := (wptr s)(x \<mapsto> oth, y \<mapsto> null_handle), mem := mem s\<rparr>)"
      using None Some D(6) D(4) [OF Some] xy
      by (intro moves_wptr2 [OF inv, where K = "int (holders b (wptr s))"])
         (simp_all add: null_handle_def)
    then show ?thesis
      using None Some by (simp add: outcome_def new_WeakPtr_move_def WeakPtr_move_def null_handle_def)
  qed
qed

lemma new_WeakPtr_demote_outcome:
  assumes inv: "single_block b a e v s"
  shows "outcome b a e v s (new_WeakPtr_demote x y s)"
proof (cases "sptr s y")
  case None
  then show ?thesis by (simp add: outcome_def new_WeakPtr_demote_def)
next
  case (Some oth)
  show ?thesis
  proof (cases "wptr s x")
    case (Some h)
    then show ?thesis by (simp add: outcome_def new_WeakPtr_demote_def split: option.splits)
  next
    case None
    note D = single_blockD [OF inv]
    have le: "bnd b oth \<le> int (holders b (sptr s))"
      using holders_one [OF D(1) Some] .
    from heap_ok_demote [OF D(6) le _ _ D(3) [OF Some]]
    obtain m' where c: "WeakPtr_demote oth (mem s) = Inr (oth, m')"
      and ok: "heap_ok b a e v m' (int (holders b (sptr s))) (int (holders b (wptr s)) + bnd b oth)"
      by auto
    have "moves_to b a e v s (s\<lparr>wptr := (wptr s)(x \<mapsto> oth), mem := m'\<rparr>)"
      using None ok bnd_le_zero [OF le] D(3) [OF Some]
      by (intro moves_wptr1 [OF inv]) simp_all
    then show ?thesis
      using None Some c by (simp add: outcome_def new_WeakPtr_demote_def)
  qed
qed

lemma WeakPtr_assign_outcome:
  assumes inv: "single_block b a e v s"
  shows "outcome b a e v s (WeakPtr_assign x y s)"
proof (cases "wptr s x")
  case None
  then show ?thesis by (simp add: outcome_def WeakPtr_assign_def)
next
  case (Some me)
  note me = this
  show ?thesis
  proof (cases "wptr s y")
    case None
    then show ?thesis using me by (simp add: outcome_def WeakPtr_assign_def)
  next
    case (Some oth)
    note oth = this
    note D = single_blockD [OF inv]
    show ?thesis
    proof (cases "x = y")
      case True
      then show ?thesis
        using me oth moves_to_refl [OF inv] by (simp add: outcome_def WeakPtr_assign_def)
    next
      case False
      let ?n = "int (holders b (sptr s))"
      let ?k = "int (holders b (wptr s))"
      have two: "bnd b me + bnd b oth \<le> ?k"
        using holders_two [OF D(2) me oth False] .
      have b0: "0 \<le> bnd b oth" "0 \<le> bnd b me" by (simp_all add: bnd_def)
      from heap_ok_release_weak [OF D(6) _ _ D(4) [OF me]] two b0
      obtain m1 where d: "WeakPtr_Decrement me (mem s) = Inr m1"
        and ok1: "heap_ok b a e v m1 ?n (?k - bnd b me)"
        by auto
      from heap_ok_copy_weak [OF ok1 _ _ _ D(4) [OF oth]] two b0
      obtain m2 where c: "WeakPtr_copy oth m1 = Inr (oth, m2)"
        and ok2: "heap_ok b a e v m2 ?n (?k - bnd b me + bnd b oth)"
        by auto
      have le: "bnd b oth \<le> ?k" using two b0 by simp
      have mv: "moves_to b a e v s (s\<lparr>wptr := (wptr s)(x \<mapsto> oth), mem := m2\<rparr>)"
        using me ok2 bnd_le_zero [OF le] D(4) [OF oth]
        by (intro moves_wptr1 [OF inv]) simp_all
      have "WeakPtr_assign x y s = Inr (s\<lparr>wptr := (wptr s)(x \<mapsto> oth), mem := m2\<rparr>)"
        using me oth False d c
        by (cases "block oth")
           (auto simp: WeakPtr_assign_def WeakPtr_copy_def Let_def and_then_eq_Inr
              handle_eta_block)
      with mv show ?thesis by (simp add: outcome_def)
    qed
  qed
qed

lemma WeakPtr_move_assign_outcome:
  assumes inv: "single_block b a e v s"
  shows "outcome b a e v s (WeakPtr_move_assign x y s)"
proof (cases "wptr s x")
  case None
  then show ?thesis by (simp add: outcome_def WeakPtr_move_assign_def)
next
  case (Some me)
  note me = this
  show ?thesis
  proof (cases "wptr s y")
    case None
    then show ?thesis using me by (simp add: outcome_def WeakPtr_move_assign_def)
  next
    case (Some oth)
    note oth = this
    note D = single_blockD [OF inv]
    show ?thesis
    proof (cases "x = y")
      case True
      then show ?thesis
        using me oth moves_to_refl [OF inv] by (simp add: outcome_def WeakPtr_move_assign_def)
    next
      case False
      let ?n = "int (holders b (sptr s))"
      let ?k = "int (holders b (wptr s))"
      have two: "bnd b me + bnd b oth \<le> ?k"
        using holders_two [OF D(2) me oth False] .
      have b0: "0 \<le> bnd b oth" "0 \<le> bnd b me" "bnd b me \<le> 1" by (simp_all add: bnd_def)
      from heap_ok_release_weak [OF D(6) _ _ D(4) [OF me]] two b0
      obtain m1 where d: "WeakPtr_Decrement me (mem s) = Inr m1"
        and ok1: "heap_ok b a e v m1 ?n (?k - bnd b me)"
        by auto
      have mv: "moves_to b a e v s (s\<lparr>wptr := (wptr s)(x \<mapsto> oth, y \<mapsto> null_handle), mem := m1\<rparr>)"
        using me oth ok1 D(4) [OF oth] False two b0
        by (intro moves_wptr2 [OF inv, where K = "?k - bnd b me"]) (simp_all add: null_handle_def)
      have "WeakPtr_move_assign x y s =
              Inr (s\<lparr>wptr := (wptr s)(x \<mapsto> oth, y \<mapsto> null_handle), mem := m1\<rparr>)"
        using me oth False d by (simp add: WeakPtr_move_assign_def null_handle_def)
      with mv show ?thesis by (simp add: outcome_def)
    qed
  qed
qed

lemma WeakPtr_Reset_outcome:
  assumes inv: "single_block b a e v s"
  shows "outcome b a e v s (WeakPtr_Reset x s)"
proof (cases "wptr s x")
  case None
  then show ?thesis by (simp add: outcome_def WeakPtr_Reset_def)
next
  case (Some me)
  note D = single_blockD [OF inv]
  let ?n = "int (holders b (sptr s))"
  let ?k = "int (holders b (wptr s))"
  have le: "bnd b me \<le> ?k" using holders_one [OF D(2) Some] .
  from heap_ok_release_weak [OF D(6) _ le D(4) [OF Some]]
  obtain m1 where d: "WeakPtr_Decrement me (mem s) = Inr m1"
    and ok1: "heap_ok b a e v m1 ?n (?k - bnd b me)"
    by auto
  have mv: "moves_to b a e v s (s\<lparr>wptr := (wptr s)(x \<mapsto> null_handle), mem := m1\<rparr>)"
    using Some ok1
    by (intro moves_wptr1 [OF inv]) (simp_all add: null_handle_def)
  have "WeakPtr_Reset x s = Inr (s\<lparr>wptr := (wptr s)(x \<mapsto> null_handle), mem := m1\<rparr>)"
    using Some d by (simp add: WeakPtr_Reset_def null_handle_def)
  with mv show ?thesis by (simp add: outcome_def)
qed

lemma delete_WeakPtr_outcome:
  assumes inv: "single_block b a e v s"
  shows "outcome b a e v s (delete_WeakPtr x s)"
proof (cases "wptr s x")
  case None
  then show ?thesis by (simp add: outcome_def delete_WeakPtr_def)
next
  case (Some me)
  note D = single_blockD [OF inv]
  let ?n = "int (holders b (sptr s))"
  let ?k = "int (holders b (wptr s))"
  have le: "bnd b me \<le> ?k" using holders_one [OF D(2) Some] .
  from heap_ok_release_weak [OF D(6) _ le D(4) [OF Some]]
  obtain m1 where d: "WeakPtr_Decrement me (mem s) = Inr m1"
    and ok1: "heap_ok b a e v m1 ?n (?k - bnd b me)"
    by auto
  have mv: "moves_to b a e v s (s\<lparr>wptr := (wptr s)(x := None), mem := m1\<rparr>)"
    using Some ok1 by (intro moves_wptr_del [OF inv]) simp
  have "delete_WeakPtr x s = Inr (s\<lparr>wptr := (wptr s)(x := None), mem := m1\<rparr>)"
    using Some d by (simp add: delete_WeakPtr_def)
  with mv show ?thesis by (simp add: outcome_def)
qed

lemma WeakPtr_Swap_outcome:
  assumes inv: "single_block b a e v s"
  shows "outcome b a e v s (WeakPtr_Swap x y s)"
proof (cases "wptr s x")
  case None
  then show ?thesis by (simp add: outcome_def WeakPtr_Swap_def)
next
  case (Some me)
  note me = this
  show ?thesis
  proof (cases "wptr s y")
    case None
    then show ?thesis using me by (simp add: outcome_def WeakPtr_Swap_def)
  next
    case (Some oth)
    note oth = this
    note D = single_blockD [OF inv]
    show ?thesis
    proof (cases "x = y")
      case True
      then have "WeakPtr_Swap x y s = Inr s"
        using me oth by (simp add: WeakPtr_Swap_def map_upd_triv)
      then show ?thesis using moves_to_refl [OF inv] by (simp add: outcome_def)
    next
      case False
      have mv: "moves_to b a e v s (s\<lparr>wptr := (wptr s)(x \<mapsto> oth, y \<mapsto> me), mem := mem s\<rparr>)"
        using me oth D(6) D(4) [OF oth] D(4) [OF me] False
        by (intro moves_wptr2 [OF inv, where K = "int (holders b (wptr s))"]) simp_all
      have "WeakPtr_Swap x y s = Inr (s\<lparr>wptr := (wptr s)(x \<mapsto> oth, y \<mapsto> me)\<rparr>)"
        using me oth by (simp add: WeakPtr_Swap_def)
      with mv show ?thesis by (simp add: outcome_def)
    qed
  qed
qed

lemma WeakPtr_Lock_outcome:
  assumes inv: "single_block b a e v s"
  shows "outcome b a e v s (WeakPtr_Lock x w s)"
proof (cases "wptr s w")
  case None
  then show ?thesis by (simp add: outcome_def WeakPtr_Lock_def)
next
  case (Some me)
  show ?thesis
  proof (cases "sptr s x")
    case (Some h)
    then show ?thesis by (simp add: outcome_def WeakPtr_Lock_def split: option.splits)
  next
    case None
    note D = single_blockD [OF inv]
    have le: "bnd b me \<le> int (holders b (wptr s))"
      using holders_one [OF D(2) Some] .
    from heap_ok_Lock [OF D(6) _ le D(4) [OF Some]]
    obtain r m' where c: "Lock me (mem s) = Inr (r, m')"
      and r: "block r = None \<or> block r = Some b"
      and ok: "heap_ok b a e v m' (int (holders b (sptr s)) + bnd b r) (int (holders b (wptr s)))"
      and z: "int (holders b (sptr s)) = 0 \<longrightarrow> block r = None \<and> m' = mem s"
      by auto
    have "moves_to b a e v s (s\<lparr>sptr := (sptr s)(x \<mapsto> r), mem := m'\<rparr>)"
      using None ok r z
      by (intro moves_sptr1 [OF inv]) (auto simp: bnd_def)
    then show ?thesis
      using None Some c by (simp add: outcome_def WeakPtr_Lock_def)
  qed
qed

section \<open>Runs\<close>

lemma exec_outcome:
  assumes inv: "single_block b a e v s"
  shows "outcome b a e v s (exec c s) \<or> exec c s = Inl BadWeakPtr \<or>
         (exec c s = Inl NullDereference \<and> promotes_unbound c s)"
proof (cases c)
  case (SharedPromote x w)
  then show ?thesis using new_SharedPtr_promote_outcome [OF inv, of x w] by simp
qed (simp_all add: new_SharedPtr_outcome [OF inv] new_SharedPtr_copy_outcome [OF inv]
      new_SharedPtr_move_outcome [OF inv] new_SharedPtr_alias_outcome [OF inv]
      SharedPtr_assign_outcome [OF inv] SharedPtr_move_assign_outcome [OF inv]
      SharedPtr_Reset_outcome [OF inv] SharedPtr_Swap_outcome [OF inv]
      delete_SharedPtr_outcome [OF inv] new_WeakPtr_outcome [OF inv]
      new_WeakPtr_copy_outcome [OF inv] new_WeakPtr_move_outcome [OF inv]
      new_WeakPtr_demote_outcome [OF inv] WeakPtr_assign_outcome [OF inv]
      WeakPtr_move_assign_outcome [OF inv] WeakPtr_Reset_outcome [OF inv]
      WeakPtr_Swap_outcome [OF inv] delete_WeakPtr_outcome [OF inv]
      WeakPtr_Lock_outcome [OF inv])

lemma step_outcome:
  assumes inv: "single_block b a e v s"
  shows "outcome b a e v s (step c s) \<or> (step c s = Inl NullDereference \<and> promotes_unbound c s)"
  using exec_outcome [OF inv, of c] moves_to_refl [OF inv]
  by (auto simp: step_def outcome_def)

lemma step_moves:
  assumes "single_block b a e v s" "step c s = Inr s'"
  shows "moves_to b a e v s s'"
  using step_outcome [OF assms(1), of c] assms(2) by (auto simp: outcome_def)

lemma run_append: "run (cs @ ds) s = and_then (run cs s) (run ds)"
  by (induction cs arbitrary: s) (auto simp: and_then_def split: sum.splits)

lemma run_single_block:
  assumes "single_block b a e v s"
  shows "(\<exists>s'. run cs s = Inr s' \<and> single_block b a e v s') \<or>
         run cs s = Inl IllFormed \<or> run cs s = Inl NullDereference"
  using assms
proof (induction cs arbitrary: s)
  case Nil
  then show ?case by simp
next
  case (Cons c cs)
  from step_outcome [OF Cons.prems, of c]
  consider s1 where "step c s = Inr s1" "moves_to b a e v s s1"
    | "step c s = Inl IllFormed" | "step c s = Inl NullDereference"
    by (auto simp: outcome_def)
  then show ?case
  proof cases
    case 1
    then have "single_block b a e v s1" by (simp add: moves_to_def)
    from Cons.IH [OF this] 1(1) show ?thesis by simp
  qed simp_all
qed

section \<open>What the invariant says about a reachable state\<close>

lemma heap_ok_facts:
  assumes "heap_ok b a e v m n k" "0 \<le> n" "0 \<le> k"
  shows "strong_count m b = n"
    and "weak_count m b = (if n = 0 then k else k + (if e then 1 else 0))"
    and "destroyed m = (if n = 0 then [a] else [])"
    and "freed m = (if n = 0 \<and> k = 0 then [b] else [])"
    and "blocks m b = None \<longleftrightarrow> n = 0 \<and> k = 0"
    and "objects m a = None \<longleftrightarrow> n = 0"
proof -
  consider "0 < n" | "n = 0" "0 < k" | "n = 0" "k = 0"
    using assms(2,3) by linarith
  then have "strong_count m b = n \<and>
      weak_count m b = (if n = 0 then k else k + (if e then 1 else 0)) \<and>
      destroyed m = (if n = 0 then [a] else []) \<and>
      freed m = (if n = 0 \<and> k = 0 then [b] else []) \<and>
      (blocks m b = None \<longleftrightarrow> n = 0 \<and> k = 0) \<and>
      (objects m a = None \<longleftrightarrow> n = 0)"
  proof cases
    case 1
    with assms(1) show ?thesis
      by (simp add: heap_ok_def strong_count_def weak_count_def)
  next
    case 2
    with assms(1) show ?thesis
      by (simp add: heap_ok_def strong_count_def weak_count_def)
  next
    case 3
    with assms(1) show ?thesis
      by (simp add: heap_ok_def strong_count_def weak_count_def)
  qed
  then show "strong_count m b = n"
    and "weak_count m b = (if n = 0 then k else k + (if e then 1 else 0))"
    and "destroyed m = (if n = 0 then [a] else [])"
    and "freed m = (if n = 0 \<and> k = 0 then [b] else [])"
    and "blocks m b = None \<longleftrightarrow> n = 0 \<and> k = 0"
    and "objects m a = None \<longleftrightarrow> n = 0"
    by simp_all
qed

lemma single_block_facts:
  assumes "single_block b a e v s"
  shows "strong_count (mem s) b = int (holders b (sptr s))"
    and "weak_count (mem s) b =
           (if holders b (sptr s) = 0 then int (holders b (wptr s))
            else int (holders b (wptr s)) + (if e then 1 else 0))"
    and "destroyed (mem s) = (if holders b (sptr s) = 0 then [a] else [])"
    and "freed (mem s) = (if holders b (sptr s) = 0 \<and> holders b (wptr s) = 0 then [b] else [])"
    and "blocks (mem s) b = None \<longleftrightarrow> holders b (sptr s) = 0 \<and> holders b (wptr s) = 0"
    and "objects (mem s) a = None \<longleftrightarrow> holders b (sptr s) = 0"
  using heap_ok_facts [OF single_blockD(6) [OF assms]] by simp_all

lemma holders_empty [simp]: "holders b Map.empty = 0"
  by (simp add: holders_def)

lemma holders_singleton: "holders b [x \<mapsto> h] = (if block h = Some b then 1 else 0)"
proof -
  have "int (holders b (Map.empty(x \<mapsto> h))) = bnd b h"
    using holders_update [of Map.empty b x h] by simp
  then show ?thesis by (simp add: bnd_def split: if_splits)
qed

lemma start_eq: "start in_place enabled x = Inr (start_state in_place enabled x)"
proof (cases in_place)
  case True
  then show ?thesis
    by (cases enabled)
       (simp_all add: start_def new_SharedPtr_MakeShared_def empty_state_def empty_memory_def
          MakeShared_enabled MakeShared_plain start_state_def start_handle_def start_block_def
          start_variant_def)
next
  case False
  have o: "objects (snd (new_object (Enabled null_handle) empty_memory)) 0 = Some (Enabled null_handle)"
    by (simp add: new_object_def empty_memory_def)
  show ?thesis
  proof (cases enabled)
    case True
    with False show ?thesis
      using SharedPtr_raw_enabled [OF o]
      by (simp add: start_def new_SharedPtr_raw_def empty_state_def empty_memory_def new_object_def
          start_state_def start_handle_def start_block_def start_variant_def)
  next
    case e: False
    with False show ?thesis
      by (simp add: start_def new_SharedPtr_raw_def empty_state_def empty_memory_def new_object_def
          SharedPtr_raw_plain start_state_def start_handle_def start_block_def start_variant_def)
  qed
qed

lemma start_single_block:
  "single_block (start_block in_place) 0 enabled (start_variant in_place)
     (start_state in_place enabled x)"
  by (simp add: single_block_def start_state_def heap_ok_def holders_singleton start_handle_def
      start_variant_def)

lemma reachable_single_block:
  assumes "start in_place enabled x = Inr s0" "run cs s0 = Inr s"
  shows "single_block (start_block in_place) 0 enabled (start_variant in_place) s"
proof -
  from assms(1) have "s0 = start_state in_place enabled x" by (simp add: start_eq)
  then have "single_block (start_block in_place) 0 enabled (start_variant in_place) s0"
    by (simp add: start_single_block)
  from run_single_block [OF this, of cs] assms(2) show ?thesis by auto
qed

lemma reachable_no_use_after_free:
  assumes "start in_place enabled x = Inr s0"
  shows "run cs s0 \<noteq> Inl UseAfterFree" "run cs s0 \<noteq> Inl BadWeakPtr"
proof -
  from assms(1) have "s0 = start_state in_place enabled x" by (simp add: start_eq)
  then have "single_block (start_block in_place) 0 enabled (start_variant in_place) s0"
    by (simp add: start_single_block)
  from run_single_block [OF this, of cs]
  show "run cs s0 \<noteq> Inl UseAfterFree" "run cs s0 \<noteq> Inl BadWeakPtr" by auto
qed

section \<open>Two runs, evaluated\<close>

lemmas run_defs = step_def new_SharedPtr_copy_def SharedPtr_copy_def delete_SharedPtr_def
  new_WeakPtr_demote_def WeakPtr_demote_def delete_WeakPtr_def Decrement_eq WeakPtr_Decrement_def
  DeleteObject_eq destroy_object_eq EnableSharedFromThis_dtor_def prim_defs Let_def

lemma plain_run:
  "run [SharedCopy 1 0, SharedDestroy 0] (start_state True False 0) = Inr last_owner"
  "step (SharedDestroy 1) last_owner = Inr all_gone"
  by (simp_all add: run_defs start_state_def start_handle_def start_block_def start_variant_def
      last_owner_def all_gone_def fun_eq_iff)

lemma mixin_run:
  "run [WeakDemote 0 0] (start_state False True 0) = Inr mixin_owner_observer"
  "step (SharedDestroy 0) mixin_owner_observer = Inr observer_only"
  "run [WeakDemote 0 0, SharedDestroy 0] (start_state False True 0) = Inr observer_only"
  "step (WeakDestroy 0) observer_only = Inr mixin_all_gone"
  by (simp_all add: run_defs start_state_def start_handle_def start_block_def start_variant_def
      mixin_owner_observer_def observer_only_def mixin_all_gone_def fun_eq_iff)

section \<open>The managed object, with every handle outside it and the mixin wired\<close>

text \<open>
  Take a program that builds one control block by \<^verbatim>\<open>MakeShared<X>\<close> or by
  \<^verbatim>\<open>SharedPtr<X>(new X)\<close>, over a \<open>Plain\<close> object or one that embeds the mixin, which
  these constructors wire, and then runs any finite sequence of the statements of \<open>op\<close>
  on handles that are variables of the program. The run never touches a freed block or a
  destroyed object. In every state \<open>s\<close> it reaches and after every further statement,
  leading to \<open>s'\<close>: the strong count is the number of \<^verbatim>\<open>SharedPtr\<close>s bound to the block;
  the statement destroys the object exactly when it takes the strong count from 1 to 0,
  and destroys nothing otherwise; so the object has been destroyed exactly once when the
  strong count is 0, and not at all, and is alive, while it is positive.
\<close>

theorem object_destroyed_exactly_once:
  assumes "start in_place enabled x0 = Inr s0"
  shows "run cs s0 \<noteq> Inl UseAfterFree \<and>
         (run cs s0 = Inr s \<and> step c s = Inr s' \<longrightarrow>
            strong_count (mem s) (start_block in_place) = int (holders (start_block in_place) (sptr s)) \<and>
            strong_count (mem s') (start_block in_place) = int (holders (start_block in_place) (sptr s')) \<and>
            destroyed (mem s') =
              destroyed (mem s) @
                (if strong_count (mem s) (start_block in_place) = 1 \<and>
                    strong_count (mem s') (start_block in_place) = 0 then [0] else []) \<and>
            destroyed (mem s') = (if strong_count (mem s') (start_block in_place) = 0 then [0] else []) \<and>
            (objects (mem s') 0 = None \<longleftrightarrow> strong_count (mem s') (start_block in_place) = 0))"
proof (intro conjI impI)
  show "run cs s0 \<noteq> Inl UseAfterFree"
    using assms by (rule reachable_no_use_after_free)
next
  assume r: "run cs s0 = Inr s \<and> step c s = Inr s'"
  let ?b = "start_block in_place"
  have inv: "single_block ?b 0 enabled (start_variant in_place) s"
    using assms r by (blast intro: reachable_single_block)
  from step_moves [OF inv] r have mv: "moves_to ?b 0 enabled (start_variant in_place) s s'"
    by blast
  then have inv': "single_block ?b 0 enabled (start_variant in_place) s'"
    by (simp add: moves_to_def)
  note F = single_block_facts [OF inv] and F' = single_block_facts [OF inv']
  show "strong_count (mem s) ?b = int (holders ?b (sptr s))" by (rule F(1))
  show "strong_count (mem s') ?b = int (holders ?b (sptr s'))" by (rule F'(1))
  show "destroyed (mem s') =
          destroyed (mem s) @ (if strong_count (mem s) ?b = 1 \<and> strong_count (mem s') ?b = 0 then [0] else [])"
    using mv by (auto simp: F(1,3) F'(1,3) moves_to_def)
  show "destroyed (mem s') = (if strong_count (mem s') ?b = 0 then [0] else [])"
    by (simp add: F'(1,3))
  show "objects (mem s') 0 = None \<longleftrightarrow> strong_count (mem s') ?b = 0"
    by (simp add: F'(1,6))
qed

theorem object_destroyed_exactly_once_witness:
  "start True False 0 = Inr (start_state True False 0) \<and>
   run [SharedCopy 1 0, SharedDestroy 0] (start_state True False 0) = Inr last_owner \<and>
   step (SharedDestroy 1) last_owner = Inr all_gone \<and>
   strong_count (mem last_owner) (start_block True) = 1 \<and>
   strong_count (mem all_gone) (start_block True) = 0 \<and>
   destroyed (mem last_owner) = [] \<and> objects (mem last_owner) 0 \<noteq> None \<and>
   destroyed (mem all_gone) = destroyed (mem last_owner) @ [0] \<and>
   destroyed (mem all_gone) = [0] \<and> objects (mem all_gone) 0 = None"
proof -
  note t = object_destroyed_exactly_once [OF start_eq [of True False 0],
      of "[SharedCopy 1 0, SharedDestroy 0]" last_owner "SharedDestroy 1" all_gone]
  have c: "strong_count (mem last_owner) (start_block True) = 1"
    "strong_count (mem all_gone) (start_block True) = 0"
    "destroyed (mem last_owner) = []" "objects (mem last_owner) 0 \<noteq> None"
    by (simp_all add: strong_count_def last_owner_def all_gone_def start_block_def)
  from t plain_run have u:
    "destroyed (mem all_gone) =
       destroyed (mem last_owner) @
         (if strong_count (mem last_owner) (start_block True) = 1 \<and>
             strong_count (mem all_gone) (start_block True) = 0 then [0] else [])"
    "destroyed (mem all_gone) = (if strong_count (mem all_gone) (start_block True) = 0 then [0] else [])"
    "objects (mem all_gone) 0 = None \<longleftrightarrow> strong_count (mem all_gone) (start_block True) = 0"
    by blast+
  from u c have "destroyed (mem all_gone) = destroyed (mem last_owner) @ [0]"
    and "destroyed (mem all_gone) = [0]" and "objects (mem all_gone) 0 = None"
    by simp_all
  with c plain_run start_eq [of True False 0] show ?thesis by simp
qed

section \<open>The control block, with every handle outside the managed object\<close>

lemma expired_queries:
  assumes "blocks m b = Some c" "strong_counter c = 0" "block h = Some b"
  shows "Expired h m = Inr True" "UseCount h m = Inr 0" "Lock h m = Inr (null_handle, m)"
  using assms
  by (simp_all add: Expired_def UseCount_def Lock_def prim_defs size_t_of_int_def
      SharedPtr_default_def null_handle_def)

text \<open>
  For the programs of the last section, whose handles are variables of the program and
  whose managed object holds no handle but the mixin's, the block is freed exactly
  once: the run never frees the block twice nor touches it once freed. The block is
  allocated exactly while some \<^verbatim>\<open>SharedPtr\<close> or \<^verbatim>\<open>WeakPtr\<close> is bound to it; while it is
  allocated its strong counter is the number of \<^verbatim>\<open>SharedPtr\<close>s
  bound to it and its weak counter the number of \<^verbatim>\<open>WeakPtr\<close>s bound to it (plus the
  mixin's own registration while the object is alive). A statement frees the block
  exactly when the block is allocated before it and no handle of either kind is bound to
  it afterwards, so the block has been freed exactly once when no handle is left and not
  at all before. While the strong count is 0 and the weak count is positive the block is
  allocated, and every \<^verbatim>\<open>WeakPtr\<close> bound to it reports expired, use count 0, and locks to
  the null handle.
\<close>

theorem block_freed_exactly_once:
  assumes "start in_place enabled x0 = Inr s0"
  shows "run cs s0 \<noteq> Inl UseAfterFree \<and>
         (run cs s0 = Inr s \<and> step c s = Inr s' \<longrightarrow>
            (blocks (mem s') (start_block in_place) = None \<longleftrightarrow>
               holders (start_block in_place) (sptr s') = 0 \<and>
               holders (start_block in_place) (wptr s') = 0) \<and>
            (blocks (mem s') (start_block in_place) \<noteq> None \<longrightarrow>
               strong_count (mem s') (start_block in_place) =
                 int (holders (start_block in_place) (sptr s')) \<and>
               weak_count (mem s') (start_block in_place) =
                 int (holders (start_block in_place) (wptr s')) +
                 (if enabled \<and> 0 < holders (start_block in_place) (sptr s') then 1 else 0)) \<and>
            freed (mem s') =
              freed (mem s) @
                (if blocks (mem s) (start_block in_place) \<noteq> None \<and>
                    holders (start_block in_place) (sptr s') = 0 \<and>
                    holders (start_block in_place) (wptr s') = 0
                 then [start_block in_place] else []) \<and>
            freed (mem s') =
              (if holders (start_block in_place) (sptr s') = 0 \<and>
                  holders (start_block in_place) (wptr s') = 0
               then [start_block in_place] else []) \<and>
            (strong_count (mem s') (start_block in_place) = 0 \<and>
             0 < weak_count (mem s') (start_block in_place) \<longrightarrow>
               blocks (mem s') (start_block in_place) \<noteq> None \<and> freed (mem s') = [] \<and>
               (\<forall>w h. wptr s' w = Some h \<and> block h = Some (start_block in_place) \<longrightarrow>
                  Expired h (mem s') = Inr True \<and> UseCount h (mem s') = Inr 0 \<and>
                  Lock h (mem s') = Inr (null_handle, mem s'))))"
proof (intro conjI impI)
  show "run cs s0 \<noteq> Inl UseAfterFree"
    using assms by (rule reachable_no_use_after_free)
next
  assume r: "run cs s0 = Inr s \<and> step c s = Inr s'"
  let ?b = "start_block in_place"
  have inv: "single_block ?b 0 enabled (start_variant in_place) s"
    using assms r by (blast intro: reachable_single_block)
  from step_moves [OF inv] r have mv: "moves_to ?b 0 enabled (start_variant in_place) s s'"
    by blast
  then have inv': "single_block ?b 0 enabled (start_variant in_place) s'"
    by (simp add: moves_to_def)
  note F = single_block_facts [OF inv] and F' = single_block_facts [OF inv']
  show "blocks (mem s') ?b = None \<longleftrightarrow> holders ?b (sptr s') = 0 \<and> holders ?b (wptr s') = 0"
    by (rule F'(5))
  show "freed (mem s') =
          freed (mem s) @
            (if blocks (mem s) ?b \<noteq> None \<and> holders ?b (sptr s') = 0 \<and> holders ?b (wptr s') = 0
             then [?b] else [])"
    using mv by (auto simp: F(4,5) F'(4) moves_to_def)
  show "freed (mem s') = (if holders ?b (sptr s') = 0 \<and> holders ?b (wptr s') = 0 then [?b] else [])"
    by (rule F'(4))
  {
    assume "blocks (mem s') ?b \<noteq> None"
    show "strong_count (mem s') ?b = int (holders ?b (sptr s'))" by (rule F'(1))
    show "weak_count (mem s') ?b =
            int (holders ?b (wptr s')) + (if enabled \<and> 0 < holders ?b (sptr s') then 1 else 0)"
      by (simp add: F'(2))
  }
  {
    assume z: "strong_count (mem s') ?b = 0 \<and> 0 < weak_count (mem s') ?b"
    then have n: "holders ?b (sptr s') = 0" by (simp add: F'(1))
    with z have k: "0 < holders ?b (wptr s')" by (simp add: F'(2))
    from k show al: "blocks (mem s') ?b \<noteq> None" by (simp add: F'(5))
    from k show "freed (mem s') = []" by (simp add: F'(4))
    from al obtain c' where c': "blocks (mem s') ?b = Some c'" by auto
    with z have "strong_counter c' = 0" by (simp add: strong_count_def)
    with c' show "\<forall>w h. wptr s' w = Some h \<and> block h = Some ?b \<longrightarrow>
                  Expired h (mem s') = Inr True \<and> UseCount h (mem s') = Inr 0 \<and>
                  Lock h (mem s') = Inr (null_handle, mem s')"
      by (auto simp: expired_queries)
  }
qed

theorem block_freed_exactly_once_witness:
  "start False True 0 = Inr (start_state False True 0) \<and>
   run [WeakDemote 0 0] (start_state False True 0) = Inr mixin_owner_observer \<and>
   step (SharedDestroy 0) mixin_owner_observer = Inr observer_only \<and>
   strong_count (mem observer_only) (start_block False) = 0 \<and>
   weak_count (mem observer_only) (start_block False) = 1 \<and>
   blocks (mem observer_only) (start_block False) \<noteq> None \<and>
   freed (mem observer_only) = [] \<and>
   wptr observer_only 0 = Some \<lparr>ptr = Some 0, block = Some (start_block False)\<rparr> \<and>
   Expired \<lparr>ptr = Some 0, block = Some (start_block False)\<rparr> (mem observer_only) = Inr True \<and>
   UseCount \<lparr>ptr = Some 0, block = Some (start_block False)\<rparr> (mem observer_only) = Inr 0 \<and>
   Lock \<lparr>ptr = Some 0, block = Some (start_block False)\<rparr> (mem observer_only) =
     Inr (null_handle, mem observer_only) \<and>
   run [WeakDemote 0 0, SharedDestroy 0] (start_state False True 0) = Inr observer_only \<and>
   step (WeakDestroy 0) observer_only = Inr mixin_all_gone \<and>
   holders (start_block False) (sptr mixin_all_gone) = 0 \<and>
   holders (start_block False) (wptr mixin_all_gone) = 0 \<and>
   blocks (mem mixin_all_gone) (start_block False) = None \<and>
   freed (mem mixin_all_gone) = freed (mem observer_only) @ [start_block False] \<and>
   freed (mem mixin_all_gone) = [start_block False]"
proof -
  let ?h = "\<lparr>ptr = Some 0, block = Some (start_block False)\<rparr>"
  note t1 = block_freed_exactly_once [OF start_eq [of False True 0],
      of "[WeakDemote 0 0]" mixin_owner_observer "SharedDestroy 0" observer_only]
  note t2 = block_freed_exactly_once [OF start_eq [of False True 0],
      of "[WeakDemote 0 0, SharedDestroy 0]" observer_only "WeakDestroy 0" mixin_all_gone]
  have c: "strong_count (mem observer_only) (start_block False) = 0"
    "weak_count (mem observer_only) (start_block False) = 1"
    "wptr observer_only 0 = Some ?h" "block ?h = Some (start_block False)"
    "holders (start_block False) (sptr mixin_all_gone) = 0"
    "holders (start_block False) (wptr mixin_all_gone) = 0"
    "blocks (mem observer_only) (start_block False) \<noteq> None"
    by (simp_all add: strong_count_def weak_count_def observer_only_def mixin_all_gone_def
        start_block_def)
  have p: "0 < weak_count (mem observer_only) (start_block False)" using c(2) by simp
  from t1 mixin_run(1,2) c(1) p have a: "blocks (mem observer_only) (start_block False) \<noteq> None"
    "freed (mem observer_only) = []"
    "\<forall>w h. wptr observer_only w = Some h \<and> block h = Some (start_block False) \<longrightarrow>
        Expired h (mem observer_only) = Inr True \<and> UseCount h (mem observer_only) = Inr 0 \<and>
        Lock h (mem observer_only) = Inr (null_handle, mem observer_only)"
    by blast+
  from a(3) c(3,4) have q: "Expired ?h (mem observer_only) = Inr True"
    "UseCount ?h (mem observer_only) = Inr 0"
    "Lock ?h (mem observer_only) = Inr (null_handle, mem observer_only)"
    by blast+
  from t2 mixin_run(3,4) have u:
    "blocks (mem mixin_all_gone) (start_block False) = None \<longleftrightarrow>
       holders (start_block False) (sptr mixin_all_gone) = 0 \<and>
       holders (start_block False) (wptr mixin_all_gone) = 0"
    "freed (mem mixin_all_gone) =
       freed (mem observer_only) @
         (if blocks (mem observer_only) (start_block False) \<noteq> None \<and>
             holders (start_block False) (sptr mixin_all_gone) = 0 \<and>
             holders (start_block False) (wptr mixin_all_gone) = 0
          then [start_block False] else [])"
    "freed (mem mixin_all_gone) =
       (if holders (start_block False) (sptr mixin_all_gone) = 0 \<and>
           holders (start_block False) (wptr mixin_all_gone) = 0
        then [start_block False] else [])"
    by blast+
  from u c(5,6,7) have g: "blocks (mem mixin_all_gone) (start_block False) = None"
    "freed (mem mixin_all_gone) = freed (mem observer_only) @ [start_block False]"
    "freed (mem mixin_all_gone) = [start_block False]"
    by simp_all
  show ?thesis
    using start_eq [of False True 0] mixin_run c a(1,2) q g by simp
qed

section \<open>Reset adopts an object without wiring it\<close>

text \<open>
  C1 fails for a sequence of its kind. For a type \<open>T\<close> that embeds the mixin,
  \<^verbatim>\<open>SharedPtr<T> p; p.Reset(new T);\<close> leaves \<open>p\<close> the one owner of the object, with strong
  count 1, and the object's \<^verbatim>\<open>weak_this_\<close> null: \<^verbatim>\<open>Reset\<close> builds the block its
  constructor builds and does not call \<^verbatim>\<open>SetWeakThis\<close>. The statement that takes the
  strong count from 1 to 0, the end of \<open>p\<close> or \<^verbatim>\<open>p.Reset()\<close>, runs the object's
  destructor, and \<^verbatim>\<open>~EnableSharedFromThis\<close> decrements through the null block pointer:
  the destruction of the object is a null dereference. The constructor
  \<^verbatim>\<open>SharedPtr<T> p(new T);\<close> wires the same object, and the end of \<open>p\<close> then destroys
  it once and frees the block once.

  It fails in either header for \<^verbatim>\<open>struct Node { SharedPtr<Node> next; };\<close> and
  \<^verbatim>\<open>SharedPtr<Node> p(new Node); p = p->next;\<close>. Copy assignment releases \<open>p\<close> first; the
  strong count goes from 1 to 0 and the node is destroyed, \<^verbatim>\<open>next\<close> with it; then the
  assignment reads \<^verbatim>\<open>other.ptr_\<close>, which was that member: a use after free.
  \<open>Decrement_basic\<close> is the release of \<^verbatim>\<open>shared/shared.h\<close>, whose assignment has the same
  three steps.
\<close>

theorem reset_leaves_mixin_unwired:
  "SharedPtr_Reset_raw (Var 0) (Some 0)
     \<lparr>sptr = [0 \<mapsto> null_handle], wptr = Map.empty, mem = fresh_enabled\<rparr> = Inr reset_owner \<and>
   UseCount \<lparr>ptr = Some 0, block = Some 1\<rparr> (mem reset_owner) = Inr 1 \<and>
   objects (mem reset_owner) 0 = Some (Enabled null_handle) \<and>
   delete_SharedPtr 0 reset_owner = Inl NullDereference \<and>
   SharedPtr_Reset (Var 0) reset_owner = Inl NullDereference \<and>
   new_SharedPtr_raw True 0 (Some 0)
     \<lparr>sptr = Map.empty, wptr = Map.empty, mem = fresh_enabled\<rparr> = Inr constructor_owner \<and>
   delete_SharedPtr 0 constructor_owner = Inr mixin_all_gone \<and>
   destroyed (mem mixin_all_gone) = [0] \<and> freed (mem mixin_all_gone) = [1] \<and>
   Decrement \<lparr>ptr = Some 0, block = Some 1\<rparr> (mem linked_owner) = Inr linked_gone \<and>
   Decrement_basic \<lparr>ptr = Some 0, block = Some 1\<rparr> (mem linked_owner) = Inr linked_gone \<and>
   SharedPtr_at (Member 0) (linked_owner\<lparr>mem := linked_gone\<rparr>) = Inl UseAfterFree \<and>
   SharedPtr_assign (Var 0) (Member 0) linked_owner = Inl UseAfterFree"
proof -
  have 1: "SharedPtr_Reset_raw (Var 0) (Some 0)
      \<lparr>sptr = [0 \<mapsto> null_handle], wptr = Map.empty, mem = fresh_enabled\<rparr> = Inr reset_owner"
    by (simp add: SharedPtr_Reset_raw_Var null_handle_def fresh_enabled_def new_block_def
        reset_owner_def fun_eq_iff)
  have 2: "UseCount \<lparr>ptr = Some 0, block = Some 1\<rparr> (mem reset_owner) = Inr 1"
    "objects (mem reset_owner) 0 = Some (Enabled null_handle)"
    by (simp_all add: UseCount_def prim_defs reset_owner_def size_t_of_int_def)
  have d: "Decrement \<lparr>ptr = Some 0, block = Some 1\<rparr> (mem reset_owner) = Inl NullDereference"
    by (simp add: reset_owner_def Decrement_eq DeleteObject_eq destroy_object_eq
        EnableSharedFromThis_dtor_def prim_defs null_handle_def)
  have 3: "delete_SharedPtr 0 reset_owner = Inl NullDereference"
    using d by (simp add: delete_SharedPtr_def reset_owner_def)
  have 4: "SharedPtr_Reset (Var 0) reset_owner = Inl NullDereference"
    using d by (simp add: SharedPtr_Reset_Var reset_owner_def)
  have 5: "new_SharedPtr_raw True 0 (Some 0)
      \<lparr>sptr = Map.empty, wptr = Map.empty, mem = fresh_enabled\<rparr> = Inr constructor_owner"
    by (simp add: new_SharedPtr_raw_def SharedPtr_raw_def SetWeakThis_def SharedPtr_copy_def
        WeakPtr_demote_def WeakPtr_move_def Decrement_eq prim_defs new_block_def
        fresh_enabled_def constructor_owner_def null_handle_def Let_def fun_eq_iff)
  have 6: "delete_SharedPtr 0 constructor_owner = Inr mixin_all_gone"
    by (simp add: delete_SharedPtr_def constructor_owner_def mixin_all_gone_def Decrement_eq
        DeleteObject_eq destroy_object_eq EnableSharedFromThis_dtor_def prim_defs fun_eq_iff)
  have 7: "destroyed (mem mixin_all_gone) = [0]" "freed (mem mixin_all_gone) = [1]"
    by (simp_all add: mixin_all_gone_def)
  have 8: "Decrement \<lparr>ptr = Some 0, block = Some 1\<rparr> (mem linked_owner) = Inr linked_gone"
    by (simp add: linked_owner_def linked_gone_def Decrement_eq DeleteObject_eq destroy_object_eq
        prim_defs null_handle_def fun_eq_iff)
  have 9: "Decrement_basic \<lparr>ptr = Some 0, block = Some 1\<rparr> (mem linked_owner) = Inr linked_gone"
    by (simp add: linked_owner_def linked_gone_def Decrement_basic_eq DeleteObject_basic_eq
        destroy_object_basic_eq prim_defs null_handle_def fun_eq_iff)
  have 10: "SharedPtr_at (Member 0) (linked_owner\<lparr>mem := linked_gone\<rparr>) = Inl UseAfterFree"
    by (simp add: SharedPtr_at_def linked_gone_def)
  have 11: "SharedPtr_assign (Var 0) (Member 0) linked_owner = Inl UseAfterFree"
    using 8 10 by (simp add: SharedPtr_assign_def SharedPtr_at_def linked_owner_def)
  show ?thesis using 1 2 3 4 5 6 7 8 9 10 11 by simp
qed

section \<open>An object that observes itself\<close>

text \<open>
  C2 fails for a managed object that has a \<^verbatim>\<open>WeakPtr\<close> to its own block among its
  members. The program is
  \<^verbatim>\<open>struct Node { WeakPtr<Node> link; }; Node* n = new Node; SharedPtr<Node> p(n); p->link = p;\<close>
  followed by the end of \<open>p\<close>. After the three statements the strong and the weak count
  are 1. \<^verbatim>\<open>~SharedPtr\<close> calls \<^verbatim>\<open>Decrement\<close>: the strong count becomes 0, the weak count is
  not 0, so \<^verbatim>\<open>DeleteObject\<close> runs the destructor of the node, which destroys the member
  \<open>link\<close>; \<^verbatim>\<open>WeakPtr::Decrement\<close> takes the weak count to 0, finds both counts 0 and
  deletes the block. Back in \<^verbatim>\<open>SharedPtr::Decrement\<close> the next statement reads
  \<^verbatim>\<open>block_->GetWeakCounter()\<close> from the block just freed, and the \<^verbatim>\<open>delete block_\<close> it
  guards would free the block a second time. The same happens without a type of the
  program's own when the managed object is itself a \<^verbatim>\<open>WeakPtr\<close>, bound to its own block
  through an aliasing \<^verbatim>\<open>SharedPtr\<close>. The mixin's destructor avoids it for \<^verbatim>\<open>weak_this_\<close>
  by decrementing the counter itself and nulling the member before \<^verbatim>\<open>~WeakPtr\<close> runs.
\<close>

theorem self_observer_block_freed_early:
  "SharedPtr_raw False (Some 0) node_fresh = Inr (\<lparr>ptr = Some 0, block = Some 1\<rparr>, node_owned) \<and>
   assign_link 0 \<lparr>ptr = Some 0, block = Some 1\<rparr> node_owned = Inr node_linked \<and>
   DecreaseStrongCounter (Some 1) node_linked = Inr node_released \<and>
   GetStrongCounter (Some 1) node_released = Inr 0 \<and>
   GetWeakCounter (Some 1) node_released = Inr 1 \<and>
   DeleteObject (Some 1) node_released = Inr node_destroyed \<and>
   freed node_destroyed = [1] \<and>
   GetWeakCounter (Some 1) node_destroyed = Inl UseAfterFree \<and>
   delete_block (Some 1) node_destroyed = Inl UseAfterFree \<and>
   Decrement \<lparr>ptr = Some 0, block = Some 1\<rparr> node_linked = Inl UseAfterFree"
  by (simp add: SharedPtr_raw_plain node_fresh_def node_owned_def node_linked_def
      node_released_def node_destroyed_def assign_link_def WeakPtr_demote_def WeakPtr_move_def
      null_handle_def WeakPtr_Decrement_def Decrement_eq DeleteObject_eq destroy_object_eq
      prim_defs fun_eq_iff)

end
